(* ===== verification/Guard_Prelude.thy ===== *)
theory Guard_Prelude
  imports Complex_Main "HOL-Library.Sublist"
begin

text \<open>
  Shared vocabulary of the development.

  \<^item> \<open>exn\<close>: the Python exception classes the two scripts can meet, with
    \<open>is_Exception\<close> telling which of them an \<^verbatim>\<open>except Exception\<close> clause catches
    (\<^verbatim>\<open>KeyboardInterrupt\<close> derives from \<^verbatim>\<open>BaseException\<close> only).
  \<^item> \<open>('e, 'a) prog\<close>: the outcome of running a piece of Python: the effects it
    performed, in order, and either the exception that ended it (\<open>Inl\<close>) or its
    value (\<open>Inr\<close>). The combinators \<open>io_bind\<close>, \<open>io_then\<close>, \<open>io_try\<close> and
    \<open>io_finally\<close> are Python's sequencing, \<^verbatim>\<open>try/except\<close> and \<^verbatim>\<open>try/finally\<close>.
  \<^item> the evaluation rules of the combinators (collection \<open>io_simps\<close>, all of them
    simp rules), the monad laws, and the facts about traces that the component
    theories share.
\<close>

section \<open>Fact collections\<close>

named_theorems io_simps "evaluation rules of the effect combinators on explicit outcomes"
named_theorems trace_intros "rules that carry a property of every effect through the combinators"
named_theorems guard_defs "definitions of the model's operations, unfolded to run a scenario"

section \<open>Python exceptions\<close>

datatype exn =
    FileNotFoundError
  | CalledProcessError int
  | TimeoutExpired
  | OSError string
  | ValueError
  | IndexError
  | ZeroDivisionError
  | RuntimeError string
  | KeyboardInterrupt

fun is_Exception :: "exn \<Rightarrow> bool" where
  "is_Exception KeyboardInterrupt = False"
| "is_Exception _ = True"

lemma not_is_Exception_iff: "\<not> is_Exception e \<longleftrightarrow> e = KeyboardInterrupt"
  by (cases e) simp_all

lemma is_Exception_iff: "is_Exception e \<longleftrightarrow> e \<noteq> KeyboardInterrupt"
  by (cases e) simp_all

type_synonym 'a res = "exn + 'a"

section \<open>Outcomes of effectful code\<close>

type_synonym ('e, 'a) prog = "'e list \<times> 'a res"

abbreviation trace_of :: "('e, 'a) prog \<Rightarrow> 'e list" where
  "trace_of m \<equiv> fst m"

abbreviation outcome :: "('e, 'a) prog \<Rightarrow> 'a res" where
  "outcome m \<equiv> snd m"

definition io_return :: "'a \<Rightarrow> ('e, 'a) prog" where
  "io_return x = ([], Inr x)"

definition io_raise :: "exn \<Rightarrow> ('e, 'a) prog" where
  "io_raise e = ([], Inl e)"

definition io_emit :: "'e \<Rightarrow> ('e, unit) prog" where
  "io_emit ev = ([ev], Inr ())"

text \<open>A call that has no effect of its own: its result, raised or returned.\<close>

definition io_lift :: "'a res \<Rightarrow> ('e, 'a) prog" where
  "io_lift r = ([], r)"

definition io_pre :: "'e list \<Rightarrow> ('e, 'a) prog \<Rightarrow> ('e, 'a) prog" where
  "io_pre t m = (t @ fst m, snd m)"

definition io_bind :: "('e, 'a) prog \<Rightarrow> ('a \<Rightarrow> ('e, 'b) prog) \<Rightarrow> ('e, 'b) prog" where
  "io_bind m f = (case snd m of Inl e \<Rightarrow> (fst m, Inl e) | Inr x \<Rightarrow> io_pre (fst m) (f x))"

definition io_then :: "('e, 'a) prog \<Rightarrow> ('e, 'b) prog \<Rightarrow> ('e, 'b) prog" where
  "io_then m k = io_bind m (\<lambda>_. k)"

text \<open>
  \<^verbatim>\<open>try: m  except ...: h\<close>. The handler table \<open>h\<close> answers \<open>None\<close> for an
  exception no clause matches, which then propagates.
\<close>

definition io_try :: "('e, 'a) prog \<Rightarrow> (exn \<Rightarrow> ('e, 'a) prog option) \<Rightarrow> ('e, 'a) prog" where
  "io_try m h =
     (case snd m of
        Inr x \<Rightarrow> m
      | Inl e \<Rightarrow> (case h e of None \<Rightarrow> m | Some k \<Rightarrow> io_pre (fst m) k))"

text \<open>
  \<^verbatim>\<open>try: m  finally: k\<close>. The finaliser runs on every exit of \<open>m\<close>; the outcome
  is that of \<open>m\<close> unless the finaliser itself raises.
\<close>

definition io_finally :: "('e, 'a) prog \<Rightarrow> ('e, unit) prog \<Rightarrow> ('e, 'a) prog" where
  "io_finally m k =
     (fst m @ fst k, case snd k of Inl e \<Rightarrow> Inl e | Inr _ \<Rightarrow> snd m)"

text \<open>The clause \<^verbatim>\<open>except Exception\<close> with handler \<open>k\<close>.\<close>

definition except_Exception :: "(exn \<Rightarrow> ('e, 'a) prog) \<Rightarrow> exn \<Rightarrow> ('e, 'a) prog option" where
  "except_Exception k e = (if is_Exception e then Some (k e) else None)"

section \<open>Evaluation rules\<close>

lemma io_pre_pair [io_simps, simp]: "io_pre t (t', r) = (t @ t', r)"
  by (simp add: io_pre_def)

lemma io_pre_Nil [io_simps, simp]: "io_pre [] m = m"
  by (simp add: io_pre_def)

lemma io_pre_pre [io_simps, simp]: "io_pre t (io_pre t' m) = io_pre (t @ t') m"
  by (simp add: io_pre_def)

lemma io_bind_Inr [io_simps, simp]: "io_bind (t, Inr x) f = io_pre t (f x)"
  by (simp add: io_bind_def)

lemma io_bind_Inl [io_simps, simp]: "io_bind (t, Inl e) f = (t, Inl e)"
  by (simp add: io_bind_def)

lemma io_then_Inr [io_simps, simp]: "io_then (t, Inr x) k = io_pre t k"
  by (simp add: io_then_def)

lemma io_then_Inl [io_simps, simp]: "io_then (t, Inl e) k = (t, Inl e)"
  by (simp add: io_then_def)

lemma io_try_Inr [io_simps, simp]: "io_try (t, Inr x) h = (t, Inr x)"
  by (simp add: io_try_def)

lemma io_try_Inl [io_simps, simp]:
  "io_try (t, Inl e) h = (case h e of None \<Rightarrow> (t, Inl e) | Some k \<Rightarrow> io_pre t k)"
  by (simp add: io_try_def split: option.splits)

lemma io_finally_pair [io_simps, simp]:
  "io_finally (t, r) (t', Inr u) = (t @ t', r)"
  "io_finally (t, r) (t', Inl e) = (t @ t', Inl e)"
  by (simp_all add: io_finally_def)

lemmas io_unit_defs [io_simps, simp] = io_return_def io_raise_def io_emit_def io_lift_def

section \<open>Laws\<close>

lemma io_bind_return_left: "io_bind (io_return x) f = f x"
  by simp

lemma io_bind_return_right: "io_bind m io_return = m"
  by (cases m, cases "snd m") auto

lemma io_bind_assoc: "io_bind (io_bind m f) g = io_bind m (\<lambda>x. io_bind (f x) g)"
proof (cases m)
  case (Pair t r)
  show ?thesis
  proof (cases r)
    case (Inl e)
    with Pair show ?thesis by simp
  next
    case (Inr x)
    with Pair show ?thesis
      by (cases "f x", cases "snd (f x)") auto
  qed
qed

lemma io_pre_bind: "io_pre t (io_bind m f) = io_bind (io_pre t m) f"
  by (cases m, cases "snd m") auto

section \<open>Traces and outcomes of composed code\<close>

lemma trace_io_pre [simp]: "trace_of (io_pre t m) = t @ trace_of m"
  by (simp add: io_pre_def)

lemma outcome_io_pre [simp]: "outcome (io_pre t m) = outcome m"
  by (simp add: io_pre_def)

lemma trace_io_bind:
  "trace_of (io_bind m f) =
     trace_of m @ (case outcome m of Inl e \<Rightarrow> [] | Inr x \<Rightarrow> trace_of (f x))"
  by (cases m, cases "snd m") auto

lemma outcome_io_bind:
  "outcome (io_bind m f) = (case outcome m of Inl e \<Rightarrow> Inl e | Inr x \<Rightarrow> outcome (f x))"
  by (cases m, cases "snd m") auto

lemma trace_io_then:
  "trace_of (io_then m k) =
     trace_of m @ (case outcome m of Inl e \<Rightarrow> [] | Inr x \<Rightarrow> trace_of k)"
  by (simp add: io_then_def trace_io_bind)

lemma outcome_io_then:
  "outcome (io_then m k) = (case outcome m of Inl e \<Rightarrow> Inl e | Inr x \<Rightarrow> outcome k)"
  by (simp add: io_then_def outcome_io_bind)

text \<open>Code that ran first stays a prefix of the trace, whatever follows it.\<close>

lemma prefix_trace_io_bind: "prefix (trace_of m) (trace_of (io_bind m f))"
  by (simp add: trace_io_bind)

text \<open>The finaliser's effects are always the end of the trace.\<close>

lemma trace_io_finally [simp]: "trace_of (io_finally m k) = trace_of m @ trace_of k"
  by (simp add: io_finally_def)

lemma outcome_io_finally:
  "outcome (io_finally m k) = (case outcome k of Inl e \<Rightarrow> Inl e | Inr u \<Rightarrow> outcome m)"
  by (simp add: io_finally_def)

section \<open>A property of every effect of a trace\<close>

text \<open>
  To show that all effects of composed code satisfy \<open>P\<close> it is enough to show it
  for the parts, each under what is known when it starts.
\<close>

lemma list_all_trace_pre [trace_intros]:
  "list_all P t \<Longrightarrow> list_all P (trace_of m) \<Longrightarrow> list_all P (trace_of (io_pre t m))"
  by simp

lemma list_all_trace_bind [trace_intros]:
  assumes "list_all P (trace_of m)"
    and "\<And>x. outcome m = Inr x \<Longrightarrow> list_all P (trace_of (f x))"
  shows "list_all P (trace_of (io_bind m f))"
  using assms by (simp add: trace_io_bind split: sum.splits)

lemma list_all_trace_then [trace_intros]:
  assumes "list_all P (trace_of m)"
    and "\<And>x. outcome m = Inr x \<Longrightarrow> list_all P (trace_of k)"
  shows "list_all P (trace_of (io_then m k))"
  using assms by (simp add: trace_io_then split: sum.splits)

lemma list_all_trace_try [trace_intros]:
  assumes "list_all P (trace_of m)"
    and "\<And>e k. outcome m = Inl e \<Longrightarrow> h e = Some k \<Longrightarrow> list_all P (trace_of k)"
  shows "list_all P (trace_of (io_try m h))"
  using assms by (cases m; cases "outcome m") (auto split: option.splits)

lemma list_all_trace_finally [trace_intros]:
  "list_all P (trace_of m) \<Longrightarrow> list_all P (trace_of k) \<Longrightarrow>
     list_all P (trace_of (io_finally m k))"
  by simp

text \<open>
  A handler table that catches every \<^verbatim>\<open>Exception\<close> lets only
  \<^verbatim>\<open>KeyboardInterrupt\<close> through, provided the handler itself does not raise.
\<close>

lemma io_try_except_Exception:
  assumes "\<And>e. \<exists>t v. k e = (t, Inr v)"
    and "outcome (io_try m (except_Exception k)) = Inl e"
  shows "e = KeyboardInterrupt \<and> outcome m = Inl e"
proof (cases m)
  case (Pair t r)
  show ?thesis
  proof (cases r)
    case (Inr x)
    with Pair assms(2) show ?thesis by simp
  next
    case (Inl e')
    obtain t' v where k: "k e' = (t', Inr v)"
      using assms(1) by blast
    from Pair Inl assms(2) k have "\<not> is_Exception e'" and "e' = e"
      by (auto simp: except_Exception_def split: if_splits)
    with Pair Inl show ?thesis
      by (cases e) auto
  qed
qed

end
