(* ===== verification/Guard_World.thy ===== *)
theory Guard_World
  imports Guard_Prelude "HOL-Library.Word" "HOL-Library.Multiset"
begin

text \<open>
  The outside world as the two scripts see it, and the effects they have on it.

  \<^item> Data that crosses the boundary: commands (\<open>cmd\<close>, an argv list), completed
    processes, images (rows of 3-channel \<open>uint8\<close> pixels), face regions, face
    encodings, timestamps.
  \<^item> \<open>config\<close>: the module-level constants of \<^verbatim>\<open>presence_guard.py\<close>; its parent
    record \<open>base_config\<close> holds the six constants \<^verbatim>\<open>face_detect.py\<close> has too.
  \<^item> \<open>vision\<close>: the \<^verbatim>\<open>face_recognition\<close> and \<^verbatim>\<open>cv2\<close> functions the scripts call,
    as a record of functions. The development never looks inside them: every lemma
    holds for any \<open>vision\<close>.
  \<^item> \<open>effect\<close>: what a run does to the world, one constructor per kind of call that
    leaves the process; \<open>log_msg\<close>: one constructor per \<^verbatim>\<open>log(...)\<close> call site.
  \<^item> \<open>log\<close>, \<open>sleep\<close> and \<open>subprocess_run\<close>: the primitive effectful calls.
\<close>

section \<open>Data\<close>

type_synonym cmd = "string list"
type_synonym path = string

text \<open>A \<^verbatim>\<open>datetime\<close>, in microseconds since the epoch (its resolution).\<close>

type_synonym datetime = int

type_synonym u8 = "8 word"
type_synonym pixel = "u8 \<times> u8 \<times> u8"
type_synonym image = "pixel list list"

text \<open>A face region \<^verbatim>\<open>(top, right, bottom, left)\<close> and a face encoding.\<close>

type_synonym loc = "int \<times> int \<times> int \<times> int"
type_synonym encoding = "real list"

record completed =
  returncode :: int
  stdout :: "string option"
  stderr :: "string option"

text \<open>
  What the operating system answers when a command is run: the exception
  \<^verbatim>\<open>subprocess.run\<close> raises before or while waiting (no such file, timeout,
  interrupt), or the completed process.
\<close>

type_synonym os = "cmd \<Rightarrow> completed res"

datatype detector_model = Hog | Cnn

record vision =
  load_image_file :: "path \<Rightarrow> image res"
  face_locations :: "image \<Rightarrow> int \<Rightarrow> detector_model \<Rightarrow> loc list res"
  face_encodings :: "image \<Rightarrow> loc list \<Rightarrow> encoding list res"
  resize_half :: "image \<Rightarrow> image"

section \<open>Configuration\<close>

record base_config =
  ENROLL_DIR :: path
  ALLOWED_TOLERANCE :: real
  CHECK_INTERVAL :: real
  LOCK_COOLDOWN :: real
  LOGFILE :: path
  VIDEO_DEVICE :: "int option"

record config = base_config +
  ABSENCE_TIMEOUT :: real
  USE_BLUETOOTH :: bool
  PHONE_MAC :: string
  FRAME_WIDTH :: int
  FRAME_HEIGHT :: int
  HOG_UPSAMPLE :: int
  USE_CNN_FALLBACK :: bool
  ENCODING_EVERY_N :: int

text \<open>
  The constants as the files set them. \<^verbatim>\<open>os.path.expanduser("~/x")\<close> is the home
  directory followed by \<^verbatim>\<open>/x\<close>; the home directory is the parameter.
\<close>

definition presence_guard_config :: "path \<Rightarrow> config" where
  "presence_guard_config home =
     \<lparr> ENROLL_DIR = home @ ''/.face_enroll'',
       ALLOWED_TOLERANCE = 0.65,
       CHECK_INTERVAL = 0.35,
       LOCK_COOLDOWN = 4,
       LOGFILE = home @ ''/presence_guard.log'',
       VIDEO_DEVICE = None,
       ABSENCE_TIMEOUT = 6,
       USE_BLUETOOTH = False,
       PHONE_MAC = ''AA:BB:CC:11:22:33'',
       FRAME_WIDTH = 640,
       FRAME_HEIGHT = 480,
       HOG_UPSAMPLE = 1,
       USE_CNN_FALLBACK = True,
       ENCODING_EVERY_N = 1 \<rparr>"

definition face_detect_config :: "path \<Rightarrow> base_config" where
  "face_detect_config home =
     \<lparr> ENROLL_DIR = home @ ''/.face_enroll'',
       ALLOWED_TOLERANCE = 0.45,
       CHECK_INTERVAL = 2,
       LOCK_COOLDOWN = 5,
       LOGFILE = home @ ''/presence_guard.log'',
       VIDEO_DEVICE = Some 0 \<rparr>"

lemma presence_guard_config_simps [simp]:
  "ENROLL_DIR (presence_guard_config home) = home @ ''/.face_enroll''"
  "ALLOWED_TOLERANCE (presence_guard_config home) = 0.65"
  "CHECK_INTERVAL (presence_guard_config home) = 0.35"
  "LOCK_COOLDOWN (presence_guard_config home) = 4"
  "VIDEO_DEVICE (presence_guard_config home) = None"
  "ABSENCE_TIMEOUT (presence_guard_config home) = 6"
  "\<not> USE_BLUETOOTH (presence_guard_config home)"
  "PHONE_MAC (presence_guard_config home) = ''AA:BB:CC:11:22:33''"
  "FRAME_WIDTH (presence_guard_config home) = 640"
  "FRAME_HEIGHT (presence_guard_config home) = 480"
  "HOG_UPSAMPLE (presence_guard_config home) = 1"
  "USE_CNN_FALLBACK (presence_guard_config home)"
  "ENCODING_EVERY_N (presence_guard_config home) = 1"
  by (simp_all add: presence_guard_config_def)

lemma face_detect_config_simps [simp]:
  "ENROLL_DIR (face_detect_config home) = home @ ''/.face_enroll''"
  "ALLOWED_TOLERANCE (face_detect_config home) = 0.45"
  "CHECK_INTERVAL (face_detect_config home) = 2"
  "LOCK_COOLDOWN (face_detect_config home) = 5"
  "VIDEO_DEVICE (face_detect_config home) = Some 0"
  by (simp_all add: face_detect_config_def)

section \<open>Effects\<close>

datatype log_msg =
    Bluetooth_check_error exn
  | Locked_via cmd
  | Lock_attempt_error cmd exn
  | All_lock_commands_failed
  | No_face_in_enroll_image path
  | Loaded_enrollment_face string
  | Error_loading path exn
  | Enrollment_dir_not_found path
  | No_known_encodings
  | Cannot_open_webcam
  | Cannot_open_device
  | Opened_camera int int int
  | Starting_presence_guard
  | Phone_not_present
  | Failed_to_read_webcam
  | Detected_faces nat
  | Not_exactly_one_person
  | No_faces_for_timeout
  | Waiting_for_timeout
  | Multiple_faces
  | Best_face_distance real
  | Could_not_compute_encoding
  | Authorized_face_present
  | Authorized_only_person
  | Single_face_not_authorized
  | Unknown_face
  | Stopped_by_user
  | Crashed exn

datatype cam_prop = CAP_PROP_FRAME_WIDTH | CAP_PROP_FRAME_HEIGHT | CAP_PROP_BUFFERSIZE

text \<open>
  Camera effects carry the device index of the capture object they act on;
  \<open>Exec\<close> carries the timeout in seconds.
\<close>

datatype effect =
    Log log_msg
  | Exec cmd int
  | Sleep real
  | Cam_open int
  | Cam_set int cam_prop int
  | Cam_read int
  | Cam_grab int
  | Cam_retrieve int
  | Cam_release int
  | Load_image path
  | Detect detector_model int
  | Encode

type_synonym 'a io = "(effect, 'a) prog"

section \<open>Primitive calls\<close>

text \<open>
  \<^verbatim>\<open>log(msg)\<close> prints the line and appends it to the log file; a failure to write
  the file is swallowed, so the call never raises. Here a call is one event; the
  theory \<open>Guard_Log\<close> models what is below it, the text of the line and the two
  sinks.
\<close>

definition log :: "log_msg \<Rightarrow> unit io" where
  "log msg = io_emit (Log msg)"

definition sleep :: "real \<Rightarrow> unit io" where
  "sleep secs = io_emit (Sleep secs)"

text \<open>
  \<^verbatim>\<open>subprocess.run(cmd, check=..., timeout=...)\<close>: with \<^verbatim>\<open>check=True\<close> a non-zero
  return code becomes \<^verbatim>\<open>CalledProcessError\<close>.
\<close>

definition subprocess_run :: "os \<Rightarrow> cmd \<Rightarrow> bool \<Rightarrow> int \<Rightarrow> completed io" where
  "subprocess_run run cmd check timeout =
     io_pre [Exec cmd timeout]
       (case run cmd of
          Inl e \<Rightarrow> io_raise e
        | Inr cp \<Rightarrow>
            if check \<and> returncode cp \<noteq> 0 then io_raise (CalledProcessError (returncode cp))
            else io_return cp)"

lemmas prim_defs [guard_defs] = log_def sleep_def subprocess_run_def

section \<open>Facts about the primitive calls\<close>

lemma log_eval [io_simps, simp]: "log msg = ([Log msg], Inr ())"
  by (simp add: log_def)

lemma sleep_eval [io_simps, simp]: "sleep secs = ([Sleep secs], Inr ())"
  by (simp add: sleep_def)

lemma trace_subprocess_run [simp]:
  "trace_of (subprocess_run run cmd check timeout) = [Exec cmd timeout]"
  by (simp add: subprocess_run_def split: sum.splits)

text \<open>With \<^verbatim>\<open>check=True\<close> the call returns exactly when the process exits with status 0.\<close>

lemma subprocess_run_check_Inr_iff:
  "outcome (subprocess_run run cmd True timeout) = Inr cp \<longleftrightarrow>
     run cmd = Inr cp \<and> returncode cp = 0"
  by (auto simp: subprocess_run_def split: sum.splits)

lemma subprocess_run_nocheck:
  "outcome (subprocess_run run cmd False timeout) = run cmd"
  by (simp add: subprocess_run_def split: sum.splits)

section \<open>Reading a trace: capture objects held at its end\<close>

text \<open>
  \<open>held t\<close> is the multiset of device indices whose capture object has been
  created and not released by the end of \<open>t\<close>.
\<close>

fun held_step :: "int multiset \<Rightarrow> effect \<Rightarrow> int multiset" where
  "held_step h (Cam_open i) = add_mset i h"
| "held_step h (Cam_release i) = h - {#i#}"
| "held_step h _ = h"

definition held_from :: "int multiset \<Rightarrow> effect list \<Rightarrow> int multiset" where
  "held_from h t = foldl held_step h t"

abbreviation held :: "effect list \<Rightarrow> int multiset" where
  "held t \<equiv> held_from {#} t"

lemma held_from_simps [simp]:
  "held_from h [] = h"
  "held_from h (ev # t) = held_from (held_step h ev) t"
  "held_from h (t @ t') = held_from (held_from h t) t'"
  by (simp_all add: held_from_def)

text \<open>Effects that neither open nor release a capture object.\<close>

definition camera_neutral :: "effect \<Rightarrow> bool" where
  "camera_neutral ev = (case ev of Cam_open i \<Rightarrow> False | Cam_release i \<Rightarrow> False | _ \<Rightarrow> True)"

lemma held_step_neutral [simp]: "camera_neutral ev \<Longrightarrow> held_step h ev = h"
  by (cases ev) (simp_all add: camera_neutral_def)

lemma held_from_neutral [simp]: "list_all camera_neutral t \<Longrightarrow> held_from h t = h"
  by (induction t arbitrary: h) simp_all

lemma camera_neutral_simps [simp]:
  "camera_neutral (Log m)" "camera_neutral (Exec c n)" "camera_neutral (Sleep d)"
  "camera_neutral (Cam_set i p v)" "camera_neutral (Cam_read i)" "camera_neutral (Cam_grab i)"
  "camera_neutral (Cam_retrieve i)" "camera_neutral (Load_image f)"
  "camera_neutral (Detect dm u)" "camera_neutral Encode"
  "\<not> camera_neutral (Cam_open i)" "\<not> camera_neutral (Cam_release i)"
  by (simp_all add: camera_neutral_def)

text \<open>
  \<open>releases_held h t\<close>: starting with the capture objects \<open>h\<close> open, every release in
  \<open>t\<close> is the release of a capture object that is open at that point.
\<close>

fun releases_held :: "int multiset \<Rightarrow> effect list \<Rightarrow> bool" where
  "releases_held h [] = True"
| "releases_held h (ev # t) =
     ((case ev of Cam_release i \<Rightarrow> i \<in># h | _ \<Rightarrow> True) \<and> releases_held (held_step h ev) t)"

lemma releases_held_append [simp]:
  "releases_held h (t @ t') \<longleftrightarrow> releases_held h t \<and> releases_held (held_from h t) t'"
  by (induction t arbitrary: h) auto

lemma releases_held_neutral [simp]: "list_all camera_neutral t \<Longrightarrow> releases_held h t"
  by (induction t arbitrary: h) (auto simp: camera_neutral_def split: effect.splits)

section \<open>Reading a trace: the commands run\<close>

fun exec_of :: "effect \<Rightarrow> (cmd \<times> int) option" where
  "exec_of (Exec c n) = Some (c, n)"
| "exec_of _ = None"

definition commands :: "effect list \<Rightarrow> (cmd \<times> int) list" where
  "commands t = List.map_filter exec_of t"

lemma commands_simps [simp]:
  "commands [] = []"
  "commands (Exec c n # t) = (c, n) # commands t"
  "exec_of ev = None \<Longrightarrow> commands (ev # t) = commands t"
  "commands (t @ t') = commands t @ commands t'"
  by (simp_all add: commands_def List.map_filter_def)

lemma commands_map_Exec [simp]: "commands (map (\<lambda>c. Exec c n) cs) = map (\<lambda>c. (c, n)) cs"
  by (induction cs) simp_all

text \<open>Effects that run no command.\<close>

definition quiet :: "effect \<Rightarrow> bool" where
  "quiet ev \<longleftrightarrow> exec_of ev = None"

lemma quiet_simps [simp]:
  "quiet (Log m)" "\<not> quiet (Exec c n)" "quiet (Sleep d)" "quiet (Cam_open i)"
  "quiet (Cam_set i p v)" "quiet (Cam_read i)" "quiet (Cam_grab i)" "quiet (Cam_retrieve i)"
  "quiet (Cam_release i)" "quiet (Load_image f)" "quiet (Detect dm u)" "quiet Encode"
  by (simp_all add: quiet_def)

lemma commands_quiet [simp]: "list_all quiet t \<Longrightarrow> commands t = []"
  by (induction t) (simp_all add: quiet_def)

lemma trace_subprocess_run_neutral [simp]:
  "list_all camera_neutral (trace_of (subprocess_run run cmd check timeout))"
  by simp

section \<open>Reading a trace: the sleeps\<close>

text \<open>The sleeps of a trace, in order.\<close>

definition sleeps :: "effect list \<Rightarrow> real list" where
  "sleeps t = List.map_filter (\<lambda>ev. case ev of Sleep d \<Rightarrow> Some d | _ \<Rightarrow> None) t"

lemma sleeps_simps [simp]:
  "sleeps [] = []"
  "sleeps (Sleep d # t) = d # sleeps t"
  "sleeps (Log m # t) = sleeps t"
  "sleeps (Exec c k # t) = sleeps t"
  "sleeps (Cam_read i # t) = sleeps t"
  "sleeps (Detect dm u # t) = sleeps t"
  "sleeps (Encode # t) = sleeps t"
  "sleeps (Cam_grab i # t) = sleeps t"
  "sleeps (Cam_retrieve i # t) = sleeps t"
  "sleeps (t @ t') = sleeps t @ sleeps t'"
  by (simp_all add: sleeps_def List.map_filter_def)

lemma sleeps_quiet_logs: "list_all (\<lambda>ev. \<exists>m. ev = Log m) t \<Longrightarrow> sleeps t = []"
  by (induction t) auto

section \<open>Reading a trace: the log\<close>

text \<open>The messages of the calls of \<^verbatim>\<open>log\<close> in a trace, in order.\<close>

definition logs :: "effect list \<Rightarrow> log_msg list" where
  "logs t = List.map_filter (\<lambda>ev. case ev of Log m \<Rightarrow> Some m | _ \<Rightarrow> None) t"

lemma logs_simps [simp]:
  "logs [] = []"
  "logs (Log m # t) = m # logs t"
  "logs (Exec c n # t) = logs t" "logs (Sleep d # t) = logs t" "logs (Cam_open i # t) = logs t"
  "logs (Cam_set i p v # t) = logs t" "logs (Cam_read i # t) = logs t"
  "logs (Cam_grab i # t) = logs t" "logs (Cam_retrieve i # t) = logs t"
  "logs (Cam_release i # t) = logs t" "logs (Load_image f # t) = logs t"
  "logs (Detect dm u # t) = logs t" "logs (Encode # t) = logs t"
  "logs (t @ t') = logs t @ logs t'"
  by (simp_all add: logs_def List.map_filter_def)

lemma logs_replicate_read [simp]: "logs (replicate n (Cam_read i)) = []"
  by (induction n) simp_all

section \<open>Test doubles for the vision functions\<close>

text \<open>
  \<open>vis_demo\<close>: every file loads as the one-pixel image; the fast detector sees one
  face in that image and nothing elsewhere; the slow detector always sees two faces;
  the encoder returns the encoding \<open>[0, 0]\<close> for every region. \<open>vis_broken\<close>: the
  detectors and the encoder raise.
\<close>

definition one_pixel :: image where
  "one_pixel = [[(1, 2, 3)]]"

definition vis_demo :: vision where
  "vis_demo =
     \<lparr> load_image_file = (\<lambda>p. Inr one_pixel),
       face_locations = (\<lambda>img up m.
          case m of Hog \<Rightarrow> if img = one_pixel then Inr [(0, 1, 1, 0)] else Inr []
                  | Cnn \<Rightarrow> Inr [(0, 1, 1, 0), (0, 3, 1, 2)]),
       face_encodings = (\<lambda>img locs. Inr (map (\<lambda>l. [0, 0]) locs)),
       resize_half = (\<lambda>img. img) \<rparr>"

definition vis_broken :: vision where
  "vis_broken =
     vis_demo \<lparr> face_locations := (\<lambda>img up m. Inl (RuntimeError ''dlib'')),
                face_encodings := (\<lambda>img locs. Inl (RuntimeError ''dlib'')) \<rparr>"

lemma vis_demo_simps [simp]:
  "face_locations vis_demo img up Hog = (if img = one_pixel then Inr [(0, 1, 1, 0)] else Inr [])"
  "face_locations vis_demo img up Cnn = Inr [(0, 1, 1, 0), (0, 3, 1, 2)]"
  "face_encodings vis_demo img locs = Inr (map (\<lambda>l. [0, 0]) locs)"
  "load_image_file vis_demo p = Inr one_pixel"
  by (simp_all add: vis_demo_def)

lemma vis_broken_simps [simp]:
  "face_locations vis_broken img up m = Inl (RuntimeError ''dlib'')"
  "face_encodings vis_broken img locs = Inl (RuntimeError ''dlib'')"
  "load_image_file vis_broken p = Inr one_pixel"
  by (simp_all add: vis_broken_def)

end
