(* ===== verification/Lock_Actuator.thy ===== *)
theory Lock_Actuator
  imports Guard_World
begin

text \<open>
  The lock cascade: \<^verbatim>\<open>lock_session()\<close> of \<^verbatim>\<open>presence_guard.py\<close> (\<open>lock_session\<close>) and of
  \<^verbatim>\<open>face_detect.py\<close> (\<open>fd_lock_session\<close>). Both try a fixed list of session-lock
  commands in order, each with \<^verbatim>\<open>check=True, timeout=5\<close>, and stop at the first that
  exits with status 0.

  \<open>attempt\<close> classifies what one command does; \<open>lock_spec\<close> is the cascade's
  contract written with \<open>takeWhile\<close>/\<open>dropWhile\<close>; \<open>lock_loop_eq_spec\<close> shows that the
  loop with its exception handlers implements it. The remaining lemmas are read off
  the contract.
\<close>

section \<open>The cascade\<close>

definition lock_cmds :: "cmd list" where
  "lock_cmds =
     [[''loginctl'', ''lock-sessions''],
      [''gnome-screensaver-command'', ''--lock''],
      [''xdg-screensaver'', ''lock''],
      [''dm-tool'', ''lock'']]"

text \<open>
  The body of the \<^verbatim>\<open>for\<close> loop and what follows it, over the commands still to try.
  \<^verbatim>\<open>continue\<close> in a handler is the loop over the rest.
\<close>

fun lock_loop :: "os \<Rightarrow> cmd list \<Rightarrow> bool io" where
  "lock_loop run [] = io_then (log All_lock_commands_failed) (io_return False)"
| "lock_loop run (cmd # cmds) =
     io_try
       (io_then (subprocess_run run cmd True 5)
          (io_then (log (Locked_via cmd)) (io_return True)))
       (except_Exception (\<lambda>e. lock_loop run cmds))"

definition lock_session :: "os \<Rightarrow> bool io" where
  "lock_session run = lock_loop run lock_cmds"

text \<open>
  \<^verbatim>\<open>face_detect.py\<close>: the same loop with three handlers; the last one logs the
  exception before the loop goes on.
\<close>

definition fd_handlers :: "cmd \<Rightarrow> bool io \<Rightarrow> exn \<Rightarrow> bool io option" where
  "fd_handlers cmd rest e =
     (case e of
        FileNotFoundError \<Rightarrow> Some rest
      | CalledProcessError rc \<Rightarrow> Some rest
      | _ \<Rightarrow> if is_Exception e then Some (io_then (log (Lock_attempt_error cmd e)) rest)
             else None)"

fun fd_lock_loop :: "os \<Rightarrow> cmd list \<Rightarrow> bool io" where
  "fd_lock_loop run [] = io_then (log All_lock_commands_failed) (io_return False)"
| "fd_lock_loop run (cmd # cmds) =
     io_try
       (io_then (subprocess_run run cmd True 5)
          (io_then (log (Locked_via cmd)) (io_return True)))
       (fd_handlers cmd (fd_lock_loop run cmds))"

definition fd_lock_session :: "os \<Rightarrow> bool io" where
  "fd_lock_session run = fd_lock_loop run lock_cmds"

lemmas lock_defs [guard_defs] = lock_cmds_def lock_session_def fd_lock_session_def fd_handlers_def

section \<open>The contract\<close>

datatype attempt_result = Succeeded | Failed | Interrupted

text \<open>
  One command: it locks (exit status 0), it fails in a way the cascade absorbs
  (not installed, non-zero status, timeout, any other \<^verbatim>\<open>Exception\<close>), or the
  call is interrupted.
\<close>

definition attempt :: "os \<Rightarrow> cmd \<Rightarrow> attempt_result" where
  "attempt run cmd =
     (case run cmd of
        Inr cp \<Rightarrow> if returncode cp = 0 then Succeeded else Failed
      | Inl e \<Rightarrow> if is_Exception e then Failed else Interrupted)"

definition lock_spec :: "os \<Rightarrow> cmd list \<Rightarrow> bool io" where
  "lock_spec run cmds =
     (let failed = takeWhile (\<lambda>c. attempt run c = Failed) cmds;
          rest = dropWhile (\<lambda>c. attempt run c = Failed) cmds
      in (map (\<lambda>c. Exec c 5) failed @
            (case rest of
               [] \<Rightarrow> [Log All_lock_commands_failed]
             | c # _ \<Rightarrow> Exec c 5 # (if attempt run c = Succeeded then [Log (Locked_via c)] else [])),
          case rest of
            [] \<Rightarrow> Inr False
          | c # _ \<Rightarrow> if attempt run c = Succeeded then Inr True else Inl KeyboardInterrupt))"

section \<open>One step of the loop\<close>

lemma lock_loop_Succeeded:
  "attempt run cmd = Succeeded \<Longrightarrow>
     lock_loop run (cmd # cmds) = ([Exec cmd 5, Log (Locked_via cmd)], Inr True)"
  by (auto simp: attempt_def subprocess_run_def split: sum.splits if_splits)

lemma lock_loop_Failed:
  "attempt run cmd = Failed \<Longrightarrow>
     lock_loop run (cmd # cmds) = io_pre [Exec cmd 5] (lock_loop run cmds)"
  by (auto simp: attempt_def subprocess_run_def except_Exception_def split: sum.splits if_splits)

lemma lock_loop_Interrupted:
  "attempt run cmd = Interrupted \<Longrightarrow>
     lock_loop run (cmd # cmds) = ([Exec cmd 5], Inl KeyboardInterrupt)"
  by (auto simp: attempt_def subprocess_run_def except_Exception_def
      split: sum.splits if_splits elim: is_Exception.elims)

lemmas lock_loop_steps = lock_loop_Succeeded lock_loop_Failed lock_loop_Interrupted

lemma fd_lock_loop_Succeeded:
  "attempt run cmd = Succeeded \<Longrightarrow>
     fd_lock_loop run (cmd # cmds) = ([Exec cmd 5, Log (Locked_via cmd)], Inr True)"
  by (auto simp: attempt_def subprocess_run_def split: sum.splits if_splits)

lemma fd_lock_loop_Interrupted:
  "attempt run cmd = Interrupted \<Longrightarrow>
     fd_lock_loop run (cmd # cmds) = ([Exec cmd 5], Inl KeyboardInterrupt)"
  by (auto simp: attempt_def subprocess_run_def fd_handlers_def
      split: sum.splits if_splits elim: is_Exception.elims)

text \<open>
  A failed command: \<^verbatim>\<open>face_detect.py\<close> goes on silently after
  \<^verbatim>\<open>FileNotFoundError\<close> and \<^verbatim>\<open>CalledProcessError\<close> and logs every other exception.
\<close>

definition fd_failure_log :: "os \<Rightarrow> cmd \<Rightarrow> effect list" where
  "fd_failure_log run cmd =
     (case run cmd of
        Inl FileNotFoundError \<Rightarrow> []
      | Inl (CalledProcessError rc) \<Rightarrow> []
      | Inl e \<Rightarrow> [Log (Lock_attempt_error cmd e)]
      | Inr cp \<Rightarrow> [])"

lemma fd_lock_loop_Failed:
  "attempt run cmd = Failed \<Longrightarrow>
     fd_lock_loop run (cmd # cmds) =
       io_pre (Exec cmd 5 # fd_failure_log run cmd) (fd_lock_loop run cmds)"
  by (auto simp: attempt_def subprocess_run_def fd_handlers_def fd_failure_log_def
      split: sum.splits if_splits exn.splits)

lemmas fd_lock_loop_steps = fd_lock_loop_Succeeded fd_lock_loop_Failed fd_lock_loop_Interrupted

text \<open>From here on the loops are unfolded by their step lemmas only.\<close>

declare lock_loop.simps(2) [simp del] fd_lock_loop.simps(2) [simp del]

lemma lock_spec_Nil [simp]: "lock_spec run [] = ([Log All_lock_commands_failed], Inr False)"
  by (simp add: lock_spec_def)

lemma lock_spec_Cons:
  "lock_spec run (cmd # cmds) =
     (case attempt run cmd of
        Succeeded \<Rightarrow> ([Exec cmd 5, Log (Locked_via cmd)], Inr True)
      | Failed \<Rightarrow> io_pre [Exec cmd 5] (lock_spec run cmds)
      | Interrupted \<Rightarrow> ([Exec cmd 5], Inl KeyboardInterrupt))"
  by (cases "attempt run cmd") (simp_all add: lock_spec_def Let_def io_pre_def)

text \<open>The loop implements the contract.\<close>

lemma lock_loop_eq_spec: "lock_loop run cmds = lock_spec run cmds"
proof (induction cmds)
  case Nil
  show ?case by simp
next
  case (Cons cmd cmds)
  show ?case
    by (cases "attempt run cmd") (simp_all only: lock_loop_steps lock_spec_Cons Cons.IH attempt_result.case)
qed

section \<open>What the contract gives\<close>

lemma attempt_Failed_takeWhile:
  "\<forall>c\<in>set pre. attempt run c = Failed \<Longrightarrow> attempt run c \<noteq> Failed \<Longrightarrow>
     takeWhile (\<lambda>c. attempt run c = Failed) (pre @ c # post) = pre \<and>
     dropWhile (\<lambda>c. attempt run c = Failed) (pre @ c # post) = c # post"
  by (simp add: takeWhile_append2 dropWhile_append2)

text \<open>
  C8. If the commands before \<open>c\<close> all fail and \<open>c\<close> exits with status 0, the cascade
  runs exactly those commands and then \<open>c\<close>, in order, logs \<open>c\<close> as the one used,
  returns \<^verbatim>\<open>True\<close>, and runs none of the commands after \<open>c\<close>.
\<close>

theorem lock_loop_first_success:
  assumes "\<forall>c\<in>set pre. attempt run c = Failed"
    and "attempt run c = Succeeded"
  shows "lock_loop run (pre @ c # post) =
           (map (\<lambda>c. Exec c 5) pre @ [Exec c 5, Log (Locked_via c)], Inr True)"
  using attempt_Failed_takeWhile [of pre run c post] assms
  by (simp add: lock_loop_eq_spec lock_spec_def)

text \<open>
  C9. If every command fails, each is run exactly once, in order, the total failure
  is logged and the cascade returns \<^verbatim>\<open>False\<close> without raising.
\<close>

theorem lock_loop_all_fail:
  assumes "\<forall>c\<in>set cmds. attempt run c = Failed"
  shows "lock_loop run cmds =
           (map (\<lambda>c. Exec c 5) cmds @ [Log All_lock_commands_failed], Inr False)"
  using assms
  by (simp add: lock_loop_eq_spec lock_spec_def takeWhile_eq_all_conv [THEN iffD2]
      dropWhile_eq_Nil_conv [THEN iffD2])

text \<open>
  C17. The cascade never fails with an \<^verbatim>\<open>Exception\<close>: it returns a boolean, or
  it is cut short by \<^verbatim>\<open>KeyboardInterrupt\<close>. It returns \<^verbatim>\<open>True\<close> exactly when the
  first command that does not fail succeeds.
\<close>

theorem lock_session_outcome:
  "outcome (lock_session run) =
     (case dropWhile (\<lambda>c. attempt run c = Failed) lock_cmds of
        [] \<Rightarrow> Inr False
      | c # _ \<Rightarrow> if attempt run c = Succeeded then Inr True else Inl KeyboardInterrupt)"
  by (simp add: lock_session_def lock_loop_eq_spec lock_spec_def Let_def)

lemma lock_session_no_Exception:
  "outcome (lock_session run) = Inl e \<Longrightarrow> e = KeyboardInterrupt"
  by (simp add: lock_session_def lock_loop_eq_spec lock_spec_def Let_def
      split: list.splits if_splits)

definition lock_effect :: "cmd list \<Rightarrow> effect \<Rightarrow> bool" where
  "lock_effect cmds ev = (case ev of Exec c t \<Rightarrow> c \<in> set cmds \<and> t = 5 | Log m \<Rightarrow> True | _ \<Rightarrow> False)"

lemma lock_effect_simps [simp]:
  "lock_effect cmds (Exec c t) \<longleftrightarrow> c \<in> set cmds \<and> t = 5"
  "lock_effect cmds (Log m)"
  by (simp_all add: lock_effect_def)

lemma lock_effect_mono: "set cmds \<subseteq> set cmds' \<Longrightarrow> lock_effect cmds ev \<Longrightarrow> lock_effect cmds' ev"
  by (auto simp: lock_effect_def split: effect.splits)

lemma lock_loop_effects:
  "list_all (lock_effect cmds) (trace_of (lock_loop run cmds))"
proof (induction cmds)
  case Nil
  show ?case by simp
next
  case (Cons cmd cmds)
  have "list_all (lock_effect (cmd # cmds)) (trace_of (lock_loop run cmds))"
    using Cons.IH by (auto simp: list_all_iff intro: lock_effect_mono [of cmds])
  then show ?case
    by (cases "attempt run cmd") (simp_all add: lock_loop_steps)
qed

text \<open>
  Whatever the commands do, \<^verbatim>\<open>lock_session\<close> runs only commands of its list, each
  with a timeout of 5 seconds, and otherwise only writes log lines.
\<close>

theorem lock_session_only_lock_effects:
  "list_all (lock_effect lock_cmds) (trace_of (lock_session run))"
  unfolding lock_session_def by (rule lock_loop_effects)

section \<open>The two versions\<close>

definition is_Log :: "effect \<Rightarrow> bool" where
  "is_Log ev = (case ev of Log m \<Rightarrow> True | _ \<Rightarrow> False)"

lemma is_Log_simps [simp]:
  "is_Log (Log m)" "\<not> is_Log (Exec c t)" "\<not> is_Log (Sleep d)"
  by (simp_all add: is_Log_def)

lemma filter_fd_failure_log [simp]: "filter (\<lambda>ev. \<not> is_Log ev) (fd_failure_log run cmd) = []"
  by (simp add: fd_failure_log_def split: sum.splits exn.splits)

lemma fd_lock_loop_agree:
  "outcome (fd_lock_loop run cmds) = outcome (lock_loop run cmds) \<and>
   filter (\<lambda>ev. \<not> is_Log ev) (trace_of (fd_lock_loop run cmds)) =
   filter (\<lambda>ev. \<not> is_Log ev) (trace_of (lock_loop run cmds))"
proof (induction cmds)
  case Nil
  show ?case by simp
next
  case (Cons cmd cmds)
  then show ?case
    by (cases "attempt run cmd") (simp_all add: lock_loop_steps fd_lock_loop_steps)
qed

lemma commands_filter_Log: "commands (filter (\<lambda>ev. \<not> is_Log ev) t) = commands t"
  by (induction t) (auto simp: is_Log_def commands_def List.map_filter_def split: effect.splits)

lemma commands_fd_lock_session:
  "commands (trace_of (fd_lock_session run)) = commands (trace_of (lock_session run))"
  using fd_lock_loop_agree [of run lock_cmds]
  by (metis commands_filter_Log fd_lock_session_def lock_session_def)

text \<open>
  Both versions of \<^verbatim>\<open>lock_session\<close> run the same commands in the same order and
  end the same way; they differ only in the log lines they write.
\<close>

theorem fd_lock_session_same_commands:
  "outcome (fd_lock_session run) = outcome (lock_session run) \<and>
   commands (trace_of (fd_lock_session run)) = commands (trace_of (lock_session run))"
  using fd_lock_loop_agree [of run lock_cmds] commands_fd_lock_session [of run]
  by (simp add: fd_lock_session_def lock_session_def)

section \<open>The cascade as seen in a trace\<close>

text \<open>The commands a cascade gets to: the failing ones and the first that does not fail.\<close>

definition attempted :: "os \<Rightarrow> cmd list \<Rightarrow> cmd list" where
  "attempted run cmds =
     takeWhile (\<lambda>c. attempt run c = Failed) cmds @
     take 1 (dropWhile (\<lambda>c. attempt run c = Failed) cmds)"

lemma attempted_prefix: "prefix (attempted run cmds) cmds"
  by (metis attempted_def append_take_drop_id prefixI append.assoc takeWhile_dropWhile_id)

lemma attempted_Cons [simp]: "attempted run (c # cmds) \<noteq> [] \<and> hd (attempted run (c # cmds)) = c"
  by (simp add: attempted_def)

lemma commands_lock_loop:
  "commands (trace_of (lock_loop run cmds)) = map (\<lambda>c. (c, 5)) (attempted run cmds)"
  by (simp add: lock_loop_eq_spec lock_spec_def Let_def attempted_def split: list.splits)

lemma lock_effect_neutral: "lock_effect cmds ev \<Longrightarrow> camera_neutral ev"
  by (cases ev) (simp_all add: lock_effect_def)

lemma lock_session_neutral [simp]: "list_all camera_neutral (trace_of (lock_session run))"
  using lock_loop_effects [of lock_cmds run]
  by (auto simp: lock_session_def list_all_iff intro: lock_effect_neutral)

lemma distinct_lock_cmds: "distinct lock_cmds"
  by (simp add: lock_cmds_def)

text \<open>
  One call of \<^verbatim>\<open>lock_session\<close> runs a non-empty initial segment of the command
  list, each command once, starting with \<^verbatim>\<open>loginctl lock-sessions\<close>.
\<close>

theorem commands_lock_session:
  "commands (trace_of (lock_session run)) = map (\<lambda>c. (c, 5)) (attempted run lock_cmds) \<and>
   prefix (attempted run lock_cmds) lock_cmds \<and>
   hd (attempted run lock_cmds) = [''loginctl'', ''lock-sessions'']"
  by (simp add: lock_session_def commands_lock_loop attempted_prefix)
    (simp add: lock_cmds_def)

section \<open>Repeated calls\<close>

text \<open>
  The cascade keeps nothing from one call to the next: what a call does is
  determined by how each command of the list ends at that moment. Two calls that
  find the commands ending the same way make the same attempts in the same order,
  write the same log lines and return the same value (idempotence, section 8 of the
  specification).
\<close>

lemma lock_loop_cong:
  assumes "\<forall>c\<in>set cmds. attempt run' c = attempt run c"
  shows "lock_loop run' cmds = lock_loop run cmds"
  using assms
proof (induction cmds)
  case Nil
  show ?case by simp
next
  case (Cons cmd cmds)
  then show ?case
    by (cases "attempt run cmd") (simp_all add: lock_loop_eq_spec lock_spec_Cons)
qed

theorem lock_session_idempotent:
  assumes "\<forall>c\<in>set lock_cmds. attempt run' c = attempt run c"
    and "outcome (lock_session run) = Inr b"
  shows "io_then (lock_session run) (lock_session run') =
           (trace_of (lock_session run) @ trace_of (lock_session run), Inr b)"
proof -
  from assms(1) have "lock_session run' = lock_session run"
    unfolding lock_session_def by (rule lock_loop_cong)
  with assms(2) show ?thesis
    by (cases "lock_session run") simp
qed

section \<open>Counting lock attempts in a trace\<close>

text \<open>
  Every cascade starts by running the first command of the list, and runs it once;
  so the lock attempts in a trace are the runs of that command.
\<close>

definition lock_attempts :: "effect list \<Rightarrow> nat" where
  "lock_attempts t = count_list (commands t) (hd lock_cmds, 5)"

lemma lock_attempts_simps [simp]:
  "lock_attempts [] = 0"
  "lock_attempts (t @ t') = lock_attempts t + lock_attempts t'"
  "quiet ev \<Longrightarrow> lock_attempts (ev # t) = lock_attempts t"
  by (simp_all add: lock_attempts_def quiet_def)

lemma lock_attempts_quiet [simp]: "list_all quiet t \<Longrightarrow> lock_attempts t = 0"
  by (simp add: lock_attempts_def)

lemma attempted_Cons_eq:
  "attempted run (c # cs) = c # (if attempt run c = Failed then attempted run cs else [])"
  by (simp add: attempted_def)

lemma set_attempted: "set (attempted run cs) \<subseteq> set cs"
  using attempted_prefix [of run cs] by (rule set_mono_prefix)

lemma lock_attempts_lock_session [simp]: "lock_attempts (trace_of (lock_session run)) = 1"
proof -
  have "[''loginctl'', ''lock-sessions''] \<notin> set (attempted run (tl lock_cmds))"
    using set_attempted [of run "tl lock_cmds"] by (auto simp: lock_cmds_def)
  then have "count_list (map (\<lambda>c. (c, 5::int)) (attempted run (tl lock_cmds)))
               ([''loginctl'', ''lock-sessions''], 5) = 0"
    by (auto simp: count_list_0_iff)
  then show ?thesis
    by (simp add: lock_attempts_def lock_session_def commands_lock_loop lock_cmds_def
        attempted_Cons_eq [of run "[''loginctl'', ''lock-sessions'']"])
qed

lemma lock_attempts_fd_lock_session [simp]: "lock_attempts (trace_of (fd_lock_session run)) = 1"
  using lock_attempts_lock_session [of run]
  by (simp add: lock_attempts_def commands_fd_lock_session)

lemma sleeps_lock_effects: "list_all (lock_effect cmds) t \<Longrightarrow> sleeps t = []"
  by (induction t) (auto simp: lock_effect_def split: effect.splits)

lemma sleeps_lock_session [simp]: "sleeps (trace_of (lock_session run)) = []"
  by (simp add: lock_session_def sleeps_lock_effects [OF lock_loop_effects])

section \<open>Scenarios\<close>

text \<open>
  An operating system on which only \<^verbatim>\<open>gnome-screensaver-command\<close> is installed and
  works, and one on which no lock command is installed.
\<close>

definition os_gnome_only :: os where
  "os_gnome_only cmd =
     (if cmd = [''gnome-screensaver-command'', ''--lock'']
      then Inr \<lparr>returncode = 0, stdout = None, stderr = None\<rparr>
      else Inl FileNotFoundError)"

definition os_none :: os where
  "os_none cmd = Inl FileNotFoundError"

lemma attempt_os_gnome_only [simp]:
  "attempt os_gnome_only [''loginctl'', ''lock-sessions''] = Failed"
  "attempt os_gnome_only [''gnome-screensaver-command'', ''--lock''] = Succeeded"
  by (simp_all add: attempt_def os_gnome_only_def)

lemma attempt_os_none [simp]: "attempt os_none cmd = Failed"
  by (simp add: attempt_def os_none_def)

theorem lock_loop_first_success_witness:
  "lock_session os_gnome_only =
     ([Exec [''loginctl'', ''lock-sessions''] 5,
       Exec [''gnome-screensaver-command'', ''--lock''] 5,
       Log (Locked_via [''gnome-screensaver-command'', ''--lock''])], Inr True)"
  using lock_loop_first_success [of "[[''loginctl'', ''lock-sessions'']]" os_gnome_only
      "[''gnome-screensaver-command'', ''--lock'']"
      "[[''xdg-screensaver'', ''lock''], [''dm-tool'', ''lock'']]"]
  by (simp add: lock_session_def lock_cmds_def)

theorem lock_loop_all_fail_witness:
  "lock_session os_none =
     ([Exec [''loginctl'', ''lock-sessions''] 5,
       Exec [''gnome-screensaver-command'', ''--lock''] 5,
       Exec [''xdg-screensaver'', ''lock''] 5,
       Exec [''dm-tool'', ''lock''] 5,
       Log All_lock_commands_failed], Inr False)"
  using lock_loop_all_fail [of lock_cmds os_none]
  by (simp add: lock_session_def lock_cmds_def)

text \<open>Two calls in a row where only the second command works: both run the first two commands.\<close>

theorem lock_session_idempotent_witness:
  "commands (trace_of (io_then (lock_session os_gnome_only) (lock_session os_gnome_only))) =
     [([''loginctl'', ''lock-sessions''], 5), ([''gnome-screensaver-command'', ''--lock''], 5),
      ([''loginctl'', ''lock-sessions''], 5), ([''gnome-screensaver-command'', ''--lock''], 5)]"
  using lock_session_idempotent [of os_gnome_only os_gnome_only True]
  by (simp add: lock_session_def lock_cmds_def lock_loop_steps)

end
