(* ===== verification/Phone_Gate.thy ===== *)
theory Phone_Gate
  imports Guard_World
begin

text \<open>
  The optional second factor of \<^verbatim>\<open>presence_guard.py\<close>: \<^verbatim>\<open>is_phone_present(mac)\<close> asks
  \<^verbatim>\<open>bluetoothctl\<close> about the phone and looks for the marker \<^verbatim>\<open>Connected: yes\<close> in what
  the command printed. The substring test is \<open>sublist\<close> of \<open>HOL-Library.Sublist\<close>.
\<close>

section \<open>The query\<close>

text \<open>\<^verbatim>\<open>s or ""\<close> for an optional string.\<close>

definition or_empty :: "string option \<Rightarrow> string" where
  "or_empty s = (case s of None \<Rightarrow> [] | Some x \<Rightarrow> x)"

definition bluetooth_cmd :: "string \<Rightarrow> cmd" where
  "bluetooth_cmd mac = [''bluetoothctl'', ''info'', mac]"

definition is_phone_present :: "os \<Rightarrow> string \<Rightarrow> bool io" where
  "is_phone_present run mac =
     io_try
       (io_bind (subprocess_run run (bluetooth_cmd mac) False 6) (\<lambda>proc.
          let out = or_empty (stdout proc) @ or_empty (stderr proc)
          in io_return (sublist ''Connected: yes'' out)))
       (except_Exception (\<lambda>e.
          io_then (log (Bluetooth_check_error e)) (io_return False)))"

lemmas phone_defs [guard_defs] = or_empty_def bluetooth_cmd_def is_phone_present_def

section \<open>Its three cases\<close>

lemma is_phone_present_completed:
  "run (bluetooth_cmd mac) = Inr cp \<Longrightarrow>
     is_phone_present run mac =
       ([Exec (bluetooth_cmd mac) 6],
        Inr (sublist ''Connected: yes'' (or_empty (stdout cp) @ or_empty (stderr cp))))"
  by (simp add: is_phone_present_def subprocess_run_def)

lemma is_phone_present_Exception:
  "run (bluetooth_cmd mac) = Inl e \<Longrightarrow> is_Exception e \<Longrightarrow>
     is_phone_present run mac =
       ([Exec (bluetooth_cmd mac) 6, Log (Bluetooth_check_error e)], Inr False)"
  by (simp add: is_phone_present_def subprocess_run_def except_Exception_def)

lemma is_phone_present_interrupted:
  "run (bluetooth_cmd mac) = Inl KeyboardInterrupt \<Longrightarrow>
     is_phone_present run mac = ([Exec (bluetooth_cmd mac) 6], Inl KeyboardInterrupt)"
  by (simp add: is_phone_present_def subprocess_run_def except_Exception_def)

lemmas is_phone_present_cases =
  is_phone_present_completed is_phone_present_Exception is_phone_present_interrupted

text \<open>
  C24. The phone counts as present exactly when the command completed and the
  marker occurs in its standard output followed by its standard error; the return
  code plays no part.
\<close>

theorem is_phone_present_True_iff:
  "outcome (is_phone_present run mac) = Inr True \<longleftrightarrow>
     (\<exists>cp. run (bluetooth_cmd mac) = Inr cp \<and>
           sublist ''Connected: yes'' (or_empty (stdout cp) @ or_empty (stderr cp)))"
proof (cases "run (bluetooth_cmd mac)")
  case (Inr cp)
  then show ?thesis by (simp add: is_phone_present_completed)
next
  case (Inl e)
  then show ?thesis
    by (cases "is_Exception e")
      (auto simp: is_phone_present_Exception is_phone_present_interrupted not_is_Exception_iff)
qed

text \<open>
  C25. Fail-closed: whenever running the command raises an \<^verbatim>\<open>Exception\<close> (not
  installed, timeout, ...) the error is logged and the phone counts as absent; the
  query itself never fails with an \<^verbatim>\<open>Exception\<close>.
\<close>

theorem is_phone_present_fail_closed:
  assumes "run (bluetooth_cmd mac) = Inl e" and "is_Exception e"
  shows "outcome (is_phone_present run mac) = Inr False \<and>
         Log (Bluetooth_check_error e) \<in> set (trace_of (is_phone_present run mac))"
  using assms by (simp add: is_phone_present_Exception)

lemma is_phone_present_eq:
  "is_phone_present run mac =
     io_pre [Exec (bluetooth_cmd mac) 6]
       (case run (bluetooth_cmd mac) of
          Inr cp \<Rightarrow> io_return (sublist ''Connected: yes'' (or_empty (stdout cp) @ or_empty (stderr cp)))
        | Inl e \<Rightarrow> if is_Exception e then io_then (log (Bluetooth_check_error e)) (io_return False)
                   else io_raise e)"
  by (cases "run (bluetooth_cmd mac)")
    (auto simp: is_phone_present_cases not_is_Exception_iff)

lemma is_phone_present_no_Exception:
  "outcome (is_phone_present run mac) = Inl e \<Longrightarrow> e = KeyboardInterrupt"
  by (auto simp: is_phone_present_eq not_is_Exception_iff split: sum.splits if_splits)

text \<open>The query runs one command, \<^verbatim>\<open>bluetoothctl info\<close>, and otherwise only logs.\<close>

lemma trace_is_phone_present:
  "\<exists>t. trace_of (is_phone_present run mac) = Exec (bluetooth_cmd mac) 6 # t \<and>
       list_all (\<lambda>ev. \<exists>m. ev = Log m) t"
  by (auto simp: is_phone_present_eq split: sum.splits)

lemma is_phone_present_neutral [simp]:
  "list_all camera_neutral (trace_of (is_phone_present run mac))"
  by (auto simp: is_phone_present_eq split: sum.splits)

lemma commands_is_phone_present [simp]:
  "commands (trace_of (is_phone_present run mac)) = [(bluetooth_cmd mac, 6)]"
  by (auto simp: is_phone_present_eq split: sum.splits)

section \<open>Scenarios\<close>

definition os_phone_connected :: os where
  "os_phone_connected cmd =
     Inr \<lparr>returncode = 0,
          stdout = Some ''Device AA:BB:CC:11:22:33 Paired: yes Connected: yes'',
          stderr = Some []\<rparr>"

definition os_bluetoothctl_timeout :: os where
  "os_bluetoothctl_timeout cmd = Inl TimeoutExpired"

theorem is_phone_present_fail_closed_witness:
  "outcome (is_phone_present os_bluetoothctl_timeout ''AA:BB:CC:11:22:33'') = Inr False \<and>
   Log (Bluetooth_check_error TimeoutExpired)
     \<in> set (trace_of (is_phone_present os_bluetoothctl_timeout ''AA:BB:CC:11:22:33''))"
  using is_phone_present_fail_closed [of os_bluetoothctl_timeout "''AA:BB:CC:11:22:33''" TimeoutExpired]
  by (simp add: os_bluetoothctl_timeout_def)

lemma phone_connected_scenario:
  "outcome (is_phone_present os_phone_connected ''AA:BB:CC:11:22:33'') = Inr True"
  by (simp add: is_phone_present_completed [of os_phone_connected _ "\<lparr>returncode = 0,
          stdout = Some ''Device AA:BB:CC:11:22:33 Paired: yes Connected: yes'',
          stderr = Some []\<rparr>"] os_phone_connected_def or_empty_def sublist_code)

end
