(* ===== verification/Face_Locator.thy ===== *)
theory Face_Locator
  imports Guard_World
begin

text \<open>
  Face location in \<^verbatim>\<open>presence_guard.py\<close>: the conversion of a camera frame into the
  detector's input (\<open>detector_input\<close>, the two lines before the call) and
  \<^verbatim>\<open>detect_faces_rgb\<close> with its two-tier strategy. The detectors themselves are the
  field \<open>face_locations\<close> of \<open>vision\<close>; a call is recorded as a \<open>Detect\<close> effect, so
  that ``the slow detector was not run'' can be stated.
\<close>

section \<open>Pixel format\<close>

text \<open>\<^verbatim>\<open>frame[:, :, ::-1]\<close>: every pixel with its channels in reverse order.\<close>

definition reverse_channels :: "image \<Rightarrow> image" where
  "reverse_channels img = map (map (\<lambda>(c0, c1, c2). (c2, c1, c0))) img"

text \<open>\<^verbatim>\<open>cv2.cvtColor(img, cv2.COLOR_BGR2RGB)\<close>: the first and third channel swapped.\<close>

definition cvtColor_BGR2RGB :: "image \<Rightarrow> image" where
  "cvtColor_BGR2RGB img = map (map (\<lambda>(b, g, r). (r, g, b))) img"

definition detector_input :: "image \<Rightarrow> image" where
  "detector_input frame = cvtColor_BGR2RGB (reverse_channels frame)"

section \<open>Detection\<close>

definition call_face_locations :: "vision \<Rightarrow> image \<Rightarrow> int \<Rightarrow> detector_model \<Rightarrow> loc list io" where
  "call_face_locations vis img upsample model =
     io_pre [Detect model upsample] (io_lift (face_locations vis img upsample model))"

definition detect_faces_rgb :: "config \<Rightarrow> vision \<Rightarrow> image \<Rightarrow> loc list io" where
  "detect_faces_rgb cfg vis rgb =
     io_bind (call_face_locations vis rgb (HOG_UPSAMPLE cfg) Hog) (\<lambda>locs.
       if locs = [] \<and> USE_CNN_FALLBACK cfg
       then call_face_locations vis rgb 1 Cnn
       else io_return locs)"

lemmas locator_defs [guard_defs] =
  reverse_channels_def cvtColor_BGR2RGB_def detector_input_def
  call_face_locations_def detect_faces_rgb_def

section \<open>Pixel format: the two conversions cancel\<close>

lemma swap_channels_twice: "(\<lambda>(b, g, r). (r, g, b)) ((\<lambda>(c0, c1, c2). (c2, c1, c0)) p) = p"
  by (cases p) simp

text \<open>
  C26. The frame is converted from BGR to RGB twice, once by slicing and once by
  \<^verbatim>\<open>cvtColor\<close>, so the detector and the encoder receive the camera's BGR data
  unchanged.
\<close>

theorem detector_input_is_frame: "detector_input frame = frame"
  by (simp add: detector_input_def cvtColor_BGR2RGB_def reverse_channels_def
      comp_def swap_channels_twice map_idI)

section \<open>Detection: the cases\<close>

lemma call_face_locations_eval [simp]:
  "call_face_locations vis img upsample model =
     ([Detect model upsample], face_locations vis img upsample model)"
  by (simp add: call_face_locations_def)

text \<open>
  When the fast detector finds a face, its regions are the result and the slow
  detector is not run.
\<close>

theorem detect_faces_rgb_primary:
  assumes "face_locations vis rgb (HOG_UPSAMPLE cfg) Hog = Inr locs" and "locs \<noteq> []"
  shows "detect_faces_rgb cfg vis rgb = ([Detect Hog (HOG_UPSAMPLE cfg)], Inr locs)"
  using assms by (simp add: detect_faces_rgb_def)

text \<open>
  C27. When the fast detector finds nothing, the slow detector is run once, with
  upsampling 1, if the fallback is enabled, and its answer is the result; with the
  fallback disabled the result is the empty list.
\<close>

theorem detect_faces_rgb_fallback:
  assumes "face_locations vis rgb (HOG_UPSAMPLE cfg) Hog = Inr []"
  shows "detect_faces_rgb cfg vis rgb =
           (if USE_CNN_FALLBACK cfg
            then ([Detect Hog (HOG_UPSAMPLE cfg), Detect Cnn 1], face_locations vis rgb 1 Cnn)
            else ([Detect Hog (HOG_UPSAMPLE cfg)], Inr []))"
  using assms by (simp add: detect_faces_rgb_def)

text \<open>
  C28. Nothing in \<^verbatim>\<open>detect_faces_rgb\<close> absorbs an exception of a detector. The call ends
  with an exception exactly when the fast detector raises it, or when the fast
  detector finds nothing, the fallback is enabled and the slow detector raises it.
  And it returns ``no face'' only when a detector has answered so: the fast one
  and, if the fallback is enabled, the slow one too. A failing detector is never read
  as an empty scene.
\<close>

theorem detect_faces_rgb_raises:
  "(outcome (detect_faces_rgb cfg vis rgb) = Inl ex \<longleftrightarrow>
      face_locations vis rgb (HOG_UPSAMPLE cfg) Hog = Inl ex \<or>
      face_locations vis rgb (HOG_UPSAMPLE cfg) Hog = Inr [] \<and> USE_CNN_FALLBACK cfg \<and>
      face_locations vis rgb 1 Cnn = Inl ex) \<and>
   (outcome (detect_faces_rgb cfg vis rgb) = Inr [] \<longleftrightarrow>
      face_locations vis rgb (HOG_UPSAMPLE cfg) Hog = Inr [] \<and>
      (USE_CNN_FALLBACK cfg \<longrightarrow> face_locations vis rgb 1 Cnn = Inr []))"
  by (cases "face_locations vis rgb (HOG_UPSAMPLE cfg) Hog")
    (auto simp: detect_faces_rgb_def)

text \<open>The detectors are run at most twice, the fast one first.\<close>

lemma trace_detect_faces_rgb:
  "trace_of (detect_faces_rgb cfg vis rgb) = [Detect Hog (HOG_UPSAMPLE cfg)] \<or>
   trace_of (detect_faces_rgb cfg vis rgb) = [Detect Hog (HOG_UPSAMPLE cfg), Detect Cnn 1]"
  by (cases "face_locations vis rgb (HOG_UPSAMPLE cfg) Hog") (simp_all add: detect_faces_rgb_def)

lemma detect_faces_rgb_neutral [simp]:
  "list_all camera_neutral (trace_of (detect_faces_rgb cfg vis rgb))"
  using trace_detect_faces_rgb [of cfg vis rgb] by auto

lemma detect_faces_rgb_quiet [simp]:
  "list_all quiet (trace_of (detect_faces_rgb cfg vis rgb))"
  using trace_detect_faces_rgb [of cfg vis rgb] by auto

section \<open>Scenarios\<close>

theorem detect_faces_rgb_primary_witness:
  "detect_faces_rgb (presence_guard_config ''/home/u'') vis_demo one_pixel =
     ([Detect Hog 1], Inr [(0, 1, 1, 0)])"
  using detect_faces_rgb_primary [of vis_demo one_pixel "presence_guard_config ''/home/u''" "[(0, 1, 1, 0)]"]
  by simp

theorem detect_faces_rgb_fallback_witness:
  "detect_faces_rgb (presence_guard_config ''/home/u'') vis_demo [] =
     ([Detect Hog 1, Detect Cnn 1], Inr [(0, 1, 1, 0), (0, 3, 1, 2)])"
  using detect_faces_rgb_fallback [of vis_demo "[]" "presence_guard_config ''/home/u''"]
  by (simp add: one_pixel_def)

text \<open>
  \<open>vis_cnn_broken\<close>: the fast detector finds nothing and the slow one runs out of
  memory.
\<close>

definition vis_cnn_broken :: vision where
  "vis_cnn_broken =
     vis_demo \<lparr>face_locations := (\<lambda>img up m.
        case m of Hog \<Rightarrow> Inr [] | Cnn \<Rightarrow> Inl (RuntimeError ''out of memory''))\<rparr>"

theorem detect_faces_rgb_raises_witness:
  "outcome (detect_faces_rgb (presence_guard_config ''/home/u'') vis_broken one_pixel) =
     Inl (RuntimeError ''dlib'') \<and>
   outcome (detect_faces_rgb (presence_guard_config ''/home/u'') vis_cnn_broken one_pixel) =
     Inl (RuntimeError ''out of memory'') \<and>
   outcome (detect_faces_rgb (presence_guard_config ''/home/u'') vis_cnn_broken one_pixel) \<noteq> Inr []"
  using detect_faces_rgb_raises [of "presence_guard_config ''/home/u''" vis_broken one_pixel
      "RuntimeError ''dlib''"]
    detect_faces_rgb_raises [of "presence_guard_config ''/home/u''" vis_cnn_broken one_pixel
      "RuntimeError ''out of memory''"]
  by (simp add: vis_cnn_broken_def)

end
