(* ===== verification/Identity_Matcher.thy ===== *)
theory Identity_Matcher
  imports Guard_World
begin

text \<open>
  Identity matching in \<^verbatim>\<open>presence_guard.py\<close>: the block of the main loop that decides
  whether the single detected face is the enrolled one (\<open>identity_check\<close>), with the
  numpy expressions it is made of: the row-wise Euclidean norm of
  \<^verbatim>\<open>known - encs[0]\<close> and \<^verbatim>\<open>np.min\<close>.

  Floats are modelled as reals. All encodings are taken to have one dimension (the
  encoder always returns 128 numbers), so that \<^verbatim>\<open>known - encs[0]\<close> is the row-wise
  difference; numpy's broadcasting of other shapes is not modelled.

  The norm uses \<open>sqrt\<close>, which does not evaluate on arbitrary inputs;
  \<open>authorized_iff_sq_dist\<close> gives the equivalent test on squared distances, which
  does.
\<close>

section \<open>Distances\<close>

definition sq_dist :: "encoding \<Rightarrow> encoding \<Rightarrow> real" where
  "sq_dist a b = (\<Sum>(x, y)\<leftarrow>zip a b. (x - y)\<^sup>2)"

text \<open>\<^verbatim>\<open>np.linalg.norm(known - enc, axis=1)\<close>: one distance per enrolled encoding.\<close>

definition row_norms :: "encoding list \<Rightarrow> encoding \<Rightarrow> real list" where
  "row_norms known enc = map (\<lambda>k. sqrt (sq_dist k enc)) known"

text \<open>\<^verbatim>\<open>np.min\<close> raises \<^verbatim>\<open>ValueError\<close> on an empty array.\<close>

definition np_min :: "real list \<Rightarrow> real res" where
  "np_min xs = (case xs of [] \<Rightarrow> Inl ValueError | x # ys \<Rightarrow> Inr (fold min ys x))"

text \<open>\<^verbatim>\<open>a % b\<close> on Python integers: floor modulo, \<^verbatim>\<open>ZeroDivisionError\<close> for \<open>b = 0\<close>.\<close>

definition py_mod :: "int \<Rightarrow> int \<Rightarrow> int res" where
  "py_mod a b = (if b = 0 then Inl ZeroDivisionError else Inr (a mod b))"

section \<open>The identity check of one iteration\<close>

definition call_face_encodings :: "vision \<Rightarrow> image \<Rightarrow> loc list \<Rightarrow> encoding list io" where
  "call_face_encodings vis img locs = io_pre [Encode] (io_lift (face_encodings vis img locs))"

text \<open>
  The verdict \<^verbatim>\<open>authorized\<close> for frame number \<open>frame_i\<close>: \<^verbatim>\<open>False\<close> unless this frame
  is sampled, an encoding could be computed and its best distance is within the
  tolerance.
\<close>

definition identity_check ::
    "config \<Rightarrow> vision \<Rightarrow> encoding list \<Rightarrow> image \<Rightarrow> loc list \<Rightarrow> int \<Rightarrow> bool io" where
  "identity_check cfg vis known rgb face_locs frame_i =
     io_bind (io_lift (py_mod frame_i (ENCODING_EVERY_N cfg))) (\<lambda>r.
       if r = 0 then
         io_bind (call_face_encodings vis rgb face_locs) (\<lambda>encs.
           case encs of
             [] \<Rightarrow> io_then (log Could_not_compute_encoding) (io_return False)
           | enc # _ \<Rightarrow>
               io_bind (io_lift (np_min (row_norms known enc))) (\<lambda>best.
                 io_then (log (Best_face_distance best))
                   (io_return (best \<le> ALLOWED_TOLERANCE cfg))))
       else io_return False)"

lemmas matcher_defs [guard_defs] =
  sq_dist_def row_norms_def np_min_def py_mod_def call_face_encodings_def identity_check_def

section \<open>Minimum and norm\<close>

lemma np_min_Cons: "np_min (x # ys) = Inr (Min (set (x # ys)))"
  unfolding np_min_def Min.set_eq_fold by simp

lemma np_min_Inr_iff: "np_min xs = Inr m \<longleftrightarrow> xs \<noteq> [] \<and> m = Min (set xs)"
  by (cases xs) (auto simp: np_min_Cons, simp add: np_min_def)

lemma np_min_le_iff:
  "np_min xs = Inr m \<Longrightarrow> m \<le> t \<longleftrightarrow> (\<exists>x\<in>set xs. x \<le> t)"
  by (auto simp: np_min_Inr_iff Min_le_iff)

lemma sq_dist_nonneg [simp]: "0 \<le> sq_dist a b"
  by (auto simp: sq_dist_def intro!: sum_list_nonneg)

lemma sqrt_le_iff_le_sq: "0 \<le> x \<Longrightarrow> sqrt x \<le> t \<longleftrightarrow> 0 \<le> t \<and> x \<le> t\<^sup>2"
  by (metis real_sqrt_ge_zero order_trans real_sqrt_le_iff real_sqrt_abs abs_of_nonneg
      real_sqrt_pow2 power2_eq_square)

text \<open>
  The enrolled set decides: the best distance is within the tolerance exactly
  when the tolerance is not negative and some enrolled encoding is within it, which
  can be tested on squared distances.
\<close>

lemma authorized_iff_sq_dist:
  assumes "np_min (row_norms known enc) = Inr best"
  shows "best \<le> tol \<longleftrightarrow> 0 \<le> tol \<and> (\<exists>k\<in>set known. sq_dist k enc \<le> tol\<^sup>2)"
  using np_min_le_iff [OF assms, of tol]
  by (auto simp: row_norms_def sqrt_le_iff_le_sq)

text \<open>With at least one enrolled encoding \<^verbatim>\<open>np.min\<close> does not raise.\<close>

lemma np_min_row_norms: "known \<noteq> [] \<Longrightarrow> \<exists>best. np_min (row_norms known enc) = Inr best"
  by (simp add: np_min_Inr_iff row_norms_def)

section \<open>The identity check: its cases\<close>

lemma call_face_encodings_eval [simp]:
  "call_face_encodings vis img locs = ([Encode], face_encodings vis img locs)"
  by (simp add: call_face_encodings_def)

text \<open>
  The check in closed form: the modulo, then the encoder, then the minimum.
\<close>

lemma identity_check_eq:
  "identity_check cfg vis known rgb locs frame_i =
     (if ENCODING_EVERY_N cfg = 0 then ([], Inl ZeroDivisionError)
      else if frame_i mod ENCODING_EVERY_N cfg \<noteq> 0 then ([], Inr False)
      else io_pre [Encode]
        (case face_encodings vis rgb locs of
           Inl e \<Rightarrow> io_raise e
         | Inr [] \<Rightarrow> ([Log Could_not_compute_encoding], Inr False)
         | Inr (enc # _) \<Rightarrow>
             (case np_min (row_norms known enc) of
                Inl e \<Rightarrow> io_raise e
              | Inr best \<Rightarrow>
                  ([Log (Best_face_distance best)], Inr (best \<le> ALLOWED_TOLERANCE cfg)))))"
  by (simp add: identity_check_def py_mod_def split: sum.splits list.splits)

lemma np_min_row_norms_Inl_iff:
  "np_min (row_norms known enc) = Inl e \<longleftrightarrow> known = [] \<and> e = ValueError"
  by (cases known) (auto simp: np_min_def row_norms_def)

text \<open>
  C10. Fail-closed identity check: the verdict is \<^verbatim>\<open>True\<close> exactly when the frame is a
  sampled one, the encoder returned an encoding for the face, and some enrolled
  encoding lies within the tolerance of the first encoding returned. A skipped
  sample, an encoder that returns nothing and a distance above the tolerance all
  give \<^verbatim>\<open>False\<close>.
\<close>

theorem identity_check_True_iff:
  "outcome (identity_check cfg vis known rgb locs frame_i) = Inr True \<longleftrightarrow>
     ENCODING_EVERY_N cfg \<noteq> 0 \<and> frame_i mod ENCODING_EVERY_N cfg = 0 \<and>
     (\<exists>enc rest. face_encodings vis rgb locs = Inr (enc # rest) \<and>
        0 \<le> ALLOWED_TOLERANCE cfg \<and>
        (\<exists>k\<in>set known. sq_dist k enc \<le> (ALLOWED_TOLERANCE cfg)\<^sup>2))"
  by (auto simp: identity_check_eq authorized_iff_sq_dist np_min_row_norms_Inl_iff
      split: sum.splits list.splits)

text \<open>
  With a non-empty enrolled set and a non-zero sampling interval, the identity
  check raises only what the encoder raises: neither \<^verbatim>\<open>np.min\<close> nor the modulo can
  fail.
\<close>

theorem identity_check_raises_only_encoder:
  assumes "known \<noteq> []" and "ENCODING_EVERY_N cfg \<noteq> 0"
    and "outcome (identity_check cfg vis known rgb locs frame_i) = Inl e"
  shows "face_encodings vis rgb locs = Inl e"
  using assms
  by (auto simp: identity_check_eq np_min_row_norms_Inl_iff split: sum.splits list.splits if_splits)


section \<open>The identity check as seen in a trace\<close>

lemma identity_check_neutral [simp]:
  "list_all camera_neutral (trace_of (identity_check cfg vis known rgb locs frame_i))"
  by (auto simp: identity_check_eq split: sum.splits list.splits)

lemma identity_check_quiet [simp]:
  "list_all quiet (trace_of (identity_check cfg vis known rgb locs frame_i))"
  by (auto simp: identity_check_eq split: sum.splits list.splits)


section \<open>Scenarios\<close>

text \<open>
  An enrolled encoding at distance 0.3 of the encoding \<open>[0, 0]\<close> is within the
  tolerance 0.65 of the file, on every sampled frame.
\<close>

theorem identity_check_True_iff_witness:
  "outcome (identity_check (presence_guard_config ''/home/u'') vis_demo [[0.3, 0]] one_pixel
              [(0, 1, 1, 0)] 7) = Inr True"
  using identity_check_True_iff [of "presence_guard_config ''/home/u''" vis_demo "[[0.3, 0]]"
      one_pixel "[(0, 1, 1, 0)]" 7]
  by (simp add: sq_dist_def power2_eq_square)

theorem identity_check_raises_only_encoder_witness:
  "outcome (identity_check (presence_guard_config ''/home/u'') vis_broken [[0.3, 0]] one_pixel
              [(0, 1, 1, 0)] 0) = Inl (RuntimeError ''dlib'') \<and>
   face_encodings vis_broken one_pixel [(0, 1, 1, 0)] = Inl (RuntimeError ''dlib'')"
  using identity_check_raises_only_encoder [of "[[0.3, 0]]" "presence_guard_config ''/home/u''"
      vis_broken one_pixel "[(0, 1, 1, 0)]" 0 "RuntimeError ''dlib''"]
  by (simp add: identity_check_eq)

end
