(* ===== verification/Frame_Source.thy ===== *)
theory Frame_Source
  imports Guard_World
begin

text \<open>
  The camera of \<^verbatim>\<open>presence_guard.py\<close>: \<^verbatim>\<open>open_camera()\<close> (\<open>open_camera\<close>, with its
  loop over the candidate device indices as \<open>probe\<close>) and \<^verbatim>\<open>latest_frame(cap)\<close>
  (\<open>latest_frame\<close>).

  The world decides which device indices open (\<open>opens\<close>) and what a retrieve and a
  read deliver (\<open>frame_io\<close>). A capture object is identified by its device index.
  \<open>held\<close> (theory \<open>Guard_World\<close>) computes from a trace which capture objects are
  open at its end.

  Below the answers there is the device: \<open>capture\<close> is a capture object with the
  frames waiting in the driver's buffer and the frames the sensor will deliver,
  \<open>cap_grab\<close>, \<open>cap_retrieve\<close> and \<open>cap_read\<close> are its operations, and \<open>latest_frame_cap\<close> is
  \<^verbatim>\<open>latest_frame(cap)\<close> with the capture object as explicit state. It refines
  \<open>latest_frame\<close> (\<open>latest_frame_cap_refines\<close>), and on it one can say which frame is
  returned: how many stale frames the three grabs get rid of.
\<close>

section \<open>Opening the camera\<close>

definition camera_indices :: "int option \<Rightarrow> int list" where
  "camera_indices dev = (case dev of Some i \<Rightarrow> [i] | None \<Rightarrow> [0, 1, 2, 3])"

text \<open>What is done to a capture object that opened: size, buffer depth, eight warm-up reads.\<close>

definition configure_camera :: "config \<Rightarrow> int \<Rightarrow> effect list" where
  "configure_camera cfg idx =
     [Cam_set idx CAP_PROP_FRAME_WIDTH (FRAME_WIDTH cfg),
      Cam_set idx CAP_PROP_FRAME_HEIGHT (FRAME_HEIGHT cfg),
      Cam_set idx CAP_PROP_BUFFERSIZE 1] @ replicate 8 (Cam_read idx)"

fun probe :: "config \<Rightarrow> (int \<Rightarrow> bool) \<Rightarrow> int list \<Rightarrow> int option io" where
  "probe cfg opens [] = io_return None"
| "probe cfg opens (idx # rest) =
     io_pre [Cam_open idx]
       (if opens idx then io_pre (configure_camera cfg idx) (io_return (Some idx))
        else io_pre [Cam_release idx] (probe cfg opens rest))"

definition open_camera :: "config \<Rightarrow> (int \<Rightarrow> bool) \<Rightarrow> int option io" where
  "open_camera cfg opens = probe cfg opens (camera_indices (VIDEO_DEVICE cfg))"

section \<open>Reading the freshest frame\<close>

record frame_io =
  retrieved :: "image option"
  read_back :: "image option"

definition latest_frame :: "int \<Rightarrow> frame_io \<Rightarrow> image option io" where
  "latest_frame idx fio =
     io_pre (replicate 3 (Cam_grab idx) @ [Cam_retrieve idx])
       (case retrieved fio of
          Some f \<Rightarrow> io_return (Some f)
        | None \<Rightarrow> io_pre [Cam_read idx] (io_return (read_back fio)))"

lemmas camera_defs [guard_defs] =
  camera_indices_def configure_camera_def open_camera_def latest_frame_def

section \<open>Neutral effects\<close>

lemma configure_camera_neutral [simp]: "list_all camera_neutral (configure_camera cfg idx)"
  by (simp add: configure_camera_def list_all_iff)

section \<open>Opening: result and resources\<close>

text \<open>The probe in closed form: the indices that fail, then the first that opens.\<close>

lemma probe_eq:
  "probe cfg opens idxs =
     (concat (map (\<lambda>i. [Cam_open i, Cam_release i]) (takeWhile (\<lambda>i. \<not> opens i) idxs)) @
        (case dropWhile (\<lambda>i. \<not> opens i) idxs of
           [] \<Rightarrow> []
         | i # _ \<Rightarrow> Cam_open i # configure_camera cfg i),
      Inr (find opens idxs))"
  by (induction idxs) simp_all

text \<open>Probing leaves open the capture object of the index it returns, and no other.\<close>

lemma held_from_probe:
  "held_from h (trace_of (probe cfg opens idxs)) =
     (case find opens idxs of None \<Rightarrow> h | Some i \<Rightarrow> add_mset i h)"
  by (induction idxs arbitrary: h) simp_all

lemma releases_held_probe [simp]: "releases_held h (trace_of (probe cfg opens idxs))"
  by (induction idxs arbitrary: h) simp_all

lemma probe_quiet [simp]: "list_all quiet (trace_of (probe cfg opens idxs))"
  by (induction idxs) (simp_all add: configure_camera_def list_all_iff)

lemma open_camera_quiet [simp]: "list_all quiet (trace_of (open_camera cfg opens))"
  by (simp add: open_camera_def)

lemma open_camera_no_log: "Log m \<notin> set (trace_of (open_camera cfg opens))"
proof -
  have "Log m \<notin> set (trace_of (probe cfg opens idxs))" for idxs
    by (induction idxs) (auto simp: configure_camera_def)
  then show ?thesis by (simp add: open_camera_def)
qed

lemma outcome_open_camera:
  "outcome (open_camera cfg opens) = Inr (find opens (camera_indices (VIDEO_DEVICE cfg)))"
  by (simp add: open_camera_def probe_eq)

text \<open>
  \<^verbatim>\<open>open_camera\<close> binds the first candidate index that opens and reports it;
  it reports \<^verbatim>\<open>None\<close> exactly when no candidate opens. It never raises.
\<close>

theorem open_camera_first:
  "outcome (open_camera cfg opens) = Inr (find opens (camera_indices (VIDEO_DEVICE cfg)))"
  by (simp add: open_camera_def probe_eq)

text \<open>
  After \<^verbatim>\<open>open_camera\<close> exactly the capture object it returns is open: every
  capture object that was created for an index that did not open has been released.
\<close>

theorem open_camera_held:
  "held (trace_of (open_camera cfg opens)) =
     (case find opens (camera_indices (VIDEO_DEVICE cfg)) of None \<Rightarrow> {#} | Some i \<Rightarrow> {#i#})"
  by (simp add: open_camera_def held_from_probe)

section \<open>Reading: result and resources\<close>

lemma latest_frame_eq:
  "latest_frame idx fio =
     (case retrieved fio of
        Some f \<Rightarrow> ([Cam_grab idx, Cam_grab idx, Cam_grab idx, Cam_retrieve idx], Inr (Some f))
      | None \<Rightarrow> ([Cam_grab idx, Cam_grab idx, Cam_grab idx, Cam_retrieve idx, Cam_read idx],
                 Inr (read_back fio)))"
  by (simp add: latest_frame_def numeral_3_eq_3 split: option.splits)

lemma latest_frame_neutral [simp]: "list_all camera_neutral (trace_of (latest_frame idx fio))"
  by (simp add: latest_frame_eq split: option.splits)

lemma latest_frame_Inr: "\<exists>t f. latest_frame idx fio = (t, Inr f)"
  by (simp add: latest_frame_eq split: option.splits)

lemma latest_frame_quiet [simp]: "list_all quiet (trace_of (latest_frame idx fio))"
  by (simp add: latest_frame_eq split: option.splits)

section \<open>The capture device\<close>

text \<open>
  The driver behind \<^verbatim>\<open>cap.grab()\<close>, \<^verbatim>\<open>cap.retrieve()\<close> and \<^verbatim>\<open>cap.read()\<close>, as the OpenCV
  documentation describes them. \<^verbatim>\<open>grab\<close> takes the next frame from the device: the
  oldest frame waiting in the driver's buffer (\<open>queued\<close>, captured before the call) or,
  when the buffer is empty, what the sensor delivers next (\<open>incoming\<close>, where \<open>None\<close>
  is a frame that cannot be taken). \<^verbatim>\<open>retrieve\<close> decodes the frame taken by the last
  grab and fails when that grab failed. \<^verbatim>\<open>read\<close> is \<^verbatim>\<open>grab\<close> followed by \<^verbatim>\<open>retrieve\<close>.
\<close>

record capture =
  queued :: "image list"
  incoming :: "image option list"
  grabbed :: "image option"

definition cap_grab :: "capture \<Rightarrow> bool \<times> capture" where
  "cap_grab c =
     (case queued c of
        f # q \<Rightarrow> (True, c\<lparr>queued := q, grabbed := Some f\<rparr>)
      | [] \<Rightarrow>
          (case incoming c of
             [] \<Rightarrow> (False, c\<lparr>grabbed := None\<rparr>)
           | r # rest \<Rightarrow> (r \<noteq> None, c\<lparr>incoming := rest, grabbed := r\<rparr>)))"

definition cap_retrieve :: "capture \<Rightarrow> bool \<times> image option" where
  "cap_retrieve c = (grabbed c \<noteq> None, grabbed c)"

definition cap_read :: "capture \<Rightarrow> (bool \<times> image option) \<times> capture" where
  "cap_read c = (let c' = snd (cap_grab c) in (cap_retrieve c', c'))"

text \<open>\<^verbatim>\<open>for _ in range(n): cap.grab()\<close>; the results of the grabs are not looked at.\<close>

fun grabs :: "nat \<Rightarrow> capture \<Rightarrow> capture" where
  "grabs 0 c = c"
| "grabs (Suc n) c = grabs n (snd (cap_grab c))"

text \<open>
  \<^verbatim>\<open>latest_frame(cap)\<close> with the capture object as explicit state: the effects and the
  frame returned, and the capture object as the call leaves it.
\<close>

definition latest_frame_cap :: "int \<Rightarrow> capture \<Rightarrow> image option io \<times> capture" where
  "latest_frame_cap idx c =
     (let c3 = grabs 3 c;
          (ok, f) = cap_retrieve c3
      in if ok
         then (io_pre (replicate 3 (Cam_grab idx) @ [Cam_retrieve idx]) (io_return f), c3)
         else
           (let ((ok', f'), c4) = cap_read c3
            in (io_pre (replicate 3 (Cam_grab idx) @ [Cam_retrieve idx, Cam_read idx])
                  (io_return (if ok' then f' else None)), c4)))"

section \<open>The device as a sequence of frames\<close>

text \<open>
  What the grabs to come will take, in order: the buffered frames, then what the
  sensor delivers. A grab takes the head of this sequence.
\<close>

definition pending :: "capture \<Rightarrow> image option list" where
  "pending c = map Some (queued c) @ incoming c"

text \<open>The head of a sequence of grab results; nothing when the sequence is used up.\<close>

definition taken :: "image option list \<Rightarrow> image option" where
  "taken rs = (case rs of [] \<Rightarrow> None | r # _ \<Rightarrow> r)"

lemma taken_simps [simp]: "taken [] = None" "taken (r # rs) = r"
  by (simp_all add: taken_def)

lemma cap_grab_pending:
  "pending (snd (cap_grab c)) = tl (pending c)"
  "grabbed (snd (cap_grab c)) = taken (pending c)"
  "queued (snd (cap_grab c)) = tl (queued c)"
  "fst (cap_grab c) \<longleftrightarrow> taken (pending c) \<noteq> None"
  by (simp_all add: cap_grab_def pending_def split: list.splits)

lemma grabs_pending:
  "pending (grabs n c) = drop n (pending c)"
  "queued (grabs n c) = drop n (queued c)"
  by (induction n arbitrary: c) (simp_all add: cap_grab_pending drop_Suc tl_drop)

lemma grabs_grabbed: "grabbed (grabs (Suc n) c) = taken (drop n (pending c))"
  by (induction n arbitrary: c) (simp_all add: cap_grab_pending drop_Suc)

lemma drop_3_tl: "drop 3 xs = tl (drop 2 xs)"
proof -
  have "drop (Suc 2) xs = tl (drop 2 xs)"
    by (simp only: drop_Suc tl_drop)
  then show ?thesis
    by (simp only: eval_nat_numeral)
qed

text \<open>With at most two frames buffered the third grab takes a frame of the sensor.\<close>

lemma pending_live:
  assumes "length (queued c) \<le> 2"
  shows "drop 2 (pending c) = drop (2 - length (queued c)) (incoming c)"
    and "drop 3 (pending c) = tl (drop (2 - length (queued c)) (incoming c))"
  using assms by (simp_all add: pending_def drop_3_tl del: drop_append) simp_all

text \<open>With three or more it takes the third of the buffer.\<close>

lemma pending_deep:
  assumes "3 \<le> length (queued c)"
  shows "taken (drop 2 (pending c)) = Some (queued c ! 2)"
proof -
  from assms have "queued c ! 2 # drop (Suc 2) (queued c) = drop 2 (queued c)"
    by (intro Cons_nth_drop_Suc) simp
  from this [symmetric] assms show ?thesis
    by (simp add: pending_def drop_map)
qed

text \<open>
  The call in closed form: the third frame to come or, when that one cannot be
  taken, the fourth; the device is left behind the last frame taken.
\<close>

lemma latest_frame_cap_eq:
  "latest_frame_cap idx c =
     (case taken (drop 2 (pending c)) of
        Some f \<Rightarrow>
          ((replicate 3 (Cam_grab idx) @ [Cam_retrieve idx], Inr (Some f)), grabs 3 c)
      | None \<Rightarrow>
          ((replicate 3 (Cam_grab idx) @ [Cam_retrieve idx, Cam_read idx],
            Inr (taken (drop 3 (pending c)))), grabs 4 c))"
proof -
  have three: "grabbed (grabs 3 c) = taken (drop 2 (pending c))"
    using grabs_grabbed [of 2 c] by (simp add: numeral_3_eq_3)
  have four: "snd (cap_grab (grabs 3 c)) = grabs 4 c"
    by (simp add: numeral_3_eq_3 eval_nat_numeral)
  have "grabbed (grabs 4 c) = taken (drop 3 (pending c))"
    using grabs_grabbed [of 3 c] by (simp add: eval_nat_numeral)
  with three four show ?thesis
    by (cases "taken (drop 2 (pending c))")
      (auto simp: latest_frame_cap_def cap_retrieve_def cap_read_def Let_def)
qed

section \<open>The device behind the answers\<close>

text \<open>
  The loop is stated over the answers of one call (\<open>frame_io\<close>). \<open>answers c\<close> are the
  answers the device \<open>c\<close> gives, and \<open>latest_frame\<close> on them is \<open>latest_frame_cap\<close> on
  the device: what is shown of a pass holds of a pass in front of any device.
\<close>

definition answers :: "capture \<Rightarrow> frame_io" where
  "answers c = \<lparr>retrieved = grabbed (grabs 3 c), read_back = grabbed (grabs 4 c)\<rparr>"

lemma answers_eq:
  "answers c =
     \<lparr>retrieved = taken (drop 2 (pending c)), read_back = taken (drop 3 (pending c))\<rparr>"
  using grabs_grabbed [of 2 c] grabs_grabbed [of 3 c]
  by (simp add: answers_def eval_nat_numeral)

theorem latest_frame_cap_refines:
  "fst (latest_frame_cap idx c) = latest_frame idx (answers c)"
  by (simp add: latest_frame_cap_eq latest_frame_eq answers_eq numeral_3_eq_3
      split: option.splits)

section \<open>Freshness\<close>

text \<open>
  C30. \<^verbatim>\<open>latest_frame\<close> skips two frames. With at most two frames waiting in the
  driver's buffer, as after \<^verbatim>\<open>CAP_PROP_BUFFERSIZE = 1\<close> on a driver that honours it,
  the frame returned is not a buffered one: it is the frame the sensor delivers
  after the buffered ones are used up or, when that frame cannot be taken, the one
  after it, and the buffer is empty afterwards. With three or more frames waiting
  the frame returned is the third oldest of them, and the frames behind it stay in
  the buffer.
\<close>

theorem latest_frame_cap_fresh:
  "(length (queued c) \<le> 2 \<longrightarrow>
      outcome (fst (latest_frame_cap idx c)) =
        Inr (case drop (2 - length (queued c)) (incoming c) of
               Some f # rest \<Rightarrow> Some f
             | None # rest \<Rightarrow> taken rest
             | [] \<Rightarrow> None) \<and>
      queued (snd (latest_frame_cap idx c)) = []) \<and>
   (3 \<le> length (queued c) \<longrightarrow>
      outcome (fst (latest_frame_cap idx c)) = Inr (Some (queued c ! 2)) \<and>
      queued (snd (latest_frame_cap idx c)) = drop 3 (queued c))"
proof (intro conjI impI)
  assume short: "length (queued c) \<le> 2"
  from pending_live [OF short]
  show "outcome (fst (latest_frame_cap idx c)) =
      Inr (case drop (2 - length (queued c)) (incoming c) of
             Some f # rest \<Rightarrow> Some f | None # rest \<Rightarrow> taken rest | [] \<Rightarrow> None)"
    by (simp add: latest_frame_cap_eq taken_def split: option.splits list.splits)
  from short show "queued (snd (latest_frame_cap idx c)) = []"
    by (simp add: latest_frame_cap_eq grabs_pending split: option.splits)
next
  assume deep: "3 \<le> length (queued c)"
  from pending_deep [OF deep]
  show "outcome (fst (latest_frame_cap idx c)) = Inr (Some (queued c ! 2))"
    and "queued (snd (latest_frame_cap idx c)) = drop 3 (queued c)"
    by (simp_all add: latest_frame_cap_eq grabs_pending)
qed

section \<open>Scenarios\<close>

text \<open>
  A device with one stale frame in its buffer and a sensor that delivers three
  frames, and the same device with a backlog of four frames.
\<close>

definition frame_n :: "nat \<Rightarrow> image" where
  "frame_n n = [[(of_nat n, 0, 0)]]"

definition cap_one_stale :: capture where
  "cap_one_stale =
     \<lparr>queued = [frame_n 0], incoming = [Some (frame_n 1), Some (frame_n 2), Some (frame_n 3)],
      grabbed = None\<rparr>"

definition cap_backlog :: capture where
  "cap_backlog = cap_one_stale \<lparr>queued := [frame_n 0, frame_n 10, frame_n 20, frame_n 30]\<rparr>"

text \<open>One stale frame, then the sensor delivers a black frame and the one-pixel image.\<close>

definition cap_live :: capture where
  "cap_live = \<lparr>queued = [[]], incoming = [Some [], Some one_pixel], grabbed = None\<rparr>"

theorem latest_frame_cap_fresh_witness:
  "outcome (fst (latest_frame_cap 0 cap_one_stale)) = Inr (Some (frame_n 2)) \<and>
   queued (snd (latest_frame_cap 0 cap_one_stale)) = [] \<and>
   outcome (fst (latest_frame_cap 0 cap_backlog)) = Inr (Some (frame_n 20)) \<and>
   queued (snd (latest_frame_cap 0 cap_backlog)) = [frame_n 30]"
  using latest_frame_cap_fresh [of cap_one_stale 0] latest_frame_cap_fresh [of cap_backlog 0]
  by (simp add: cap_one_stale_def cap_backlog_def)

end
