(* ===== verification/Presence_Policy.thy ===== *)
theory Presence_Policy
  imports Guard_World
begin

text \<open>
  The decision rules of the presence state machine as the specification states
  them (sections 3 and 4.5), independent of the code: what one pass of the loop has
  established (\<open>sighting\<close>), the phase derived from it, whether the session must be
  locked (\<open>must_lock\<close>) and the timestamp kept for the next pass (\<open>seen_after\<close>).
  Theory \<open>Presence_Loop\<close> shows that a pass of the loop implements these rules.
\<close>

section \<open>The rules\<close>

datatype phase = ABSENT | SINGLE_AUTHORIZED | SINGLE_UNAUTHORIZED | MULTIPLE

record sighting =
  companion_missing :: bool
  face_count :: nat
  verdict :: bool
  seen_at :: datetime

definition phase_of :: "sighting \<Rightarrow> phase" where
  "phase_of s =
     (if face_count s = 0 then ABSENT
      else if face_count s = 1 then (if verdict s then SINGLE_AUTHORIZED else SINGLE_UNAUTHORIZED)
      else MULTIPLE)"

text \<open>
  The rules in their order of precedence: the second factor, several faces, absence
  beyond the timeout (in seconds), a single face that is not authorized.
\<close>

definition must_lock :: "real \<Rightarrow> datetime \<Rightarrow> sighting \<Rightarrow> bool" where
  "must_lock timeout last_seen s =
     (if companion_missing s then True
      else (case phase_of s of
              MULTIPLE \<Rightarrow> True
            | ABSENT \<Rightarrow> real_of_int (seen_at s - last_seen) / 1000000 \<ge> timeout
            | SINGLE_AUTHORIZED \<Rightarrow> False
            | SINGLE_UNAUTHORIZED \<Rightarrow> True))"

definition seen_after :: "datetime \<Rightarrow> sighting \<Rightarrow> datetime" where
  "seen_after last_seen s =
     (if \<not> companion_missing s \<and> phase_of s = SINGLE_AUTHORIZED then seen_at s else last_seen)"

text \<open>The rules over a sequence of passes: the decisions, and the timestamp at the end.\<close>

fun decisions :: "real \<Rightarrow> datetime \<Rightarrow> sighting list \<Rightarrow> bool list" where
  "decisions timeout last_seen [] = []"
| "decisions timeout last_seen (s # ss) =
     must_lock timeout last_seen s # decisions timeout (seen_after last_seen s) ss"

section \<open>What the rules imply\<close>

text \<open>Not locking requires exactly one face, authorized, or an absence below the timeout.\<close>

lemma not_must_lock_iff:
  "\<not> must_lock timeout last_seen s \<longleftrightarrow>
     \<not> companion_missing s \<and>
     (face_count s = 1 \<and> verdict s \<or>
      face_count s = 0 \<and> real_of_int (seen_at s - last_seen) / 1000000 < timeout)"
  by (auto simp: must_lock_def phase_of_def)

text \<open>The timestamp moves only on an authorized single face.\<close>

lemma seen_after_changes:
  "seen_after last_seen s \<noteq> last_seen \<Longrightarrow>
     \<not> companion_missing s \<and> face_count s = 1 \<and> verdict s \<and> seen_after last_seen s = seen_at s"
  by (auto simp: seen_after_def phase_of_def split: if_splits)

text \<open>
  Absence latches: once an empty scene has locked, every later empty scene locks
  too, as long as no authorized face has been seen in between.
\<close>

lemma absent_latches:
  assumes "must_lock timeout last_seen s" and "face_count s = 0" and "\<not> companion_missing s"
    and "face_count s' = 0" and "seen_at s \<le> seen_at s'"
  shows "must_lock timeout (seen_after last_seen s) s'"
proof -
  have "real_of_int (seen_at s - last_seen) \<le> real_of_int (seen_at s' - last_seen)"
    using assms(5) by simp
  then show ?thesis
    using assms(1-4) by (auto simp: must_lock_def phase_of_def seen_after_def divide_right_mono)
qed

end
