(* ===== verification/Presence_Loop.thy ===== *)
theory Presence_Loop
  imports Lock_Actuator Phone_Gate Face_Locator Identity_Matcher Frame_Source Presence_Policy
begin

text \<open>
  The decision loop of \<^verbatim>\<open>presence_guard.py\<close>: the body of \<^verbatim>\<open>while True\<close> in \<^verbatim>\<open>main()\<close>
  as \<open>iteration\<close>, built from the blocks of the source in their order
  (\<open>phone_absent\<close>, \<open>lock_and_cooldown\<close>, \<open>not_one_face\<close>, \<open>one_face\<close>), and the loop
  itself as \<open>guard_loop\<close>.

  State. \<open>guard_state\<close> holds the two variables the loop keeps between passes,
  \<^verbatim>\<open>last_seen_someone\<close> and \<^verbatim>\<open>frame_i\<close>.

  Inputs. An \<open>env\<close> is what the world delivers during one pass: the answers to the
  commands the pass runs, what the camera delivers, and the reading of the clock.
  The loop runs over a list of them: the passes that begin before the process is
  interrupted. When the list is used up the interrupt arrives, as
  \<^verbatim>\<open>KeyboardInterrupt\<close>; an interrupt inside a pass is an answer \<open>Inl KeyboardInterrupt\<close>
  of the command or library call it hits. So the loop never returns a value: it
  ends with the exception that stopped it.
\<close>

section \<open>State and inputs\<close>

record guard_state =
  last_seen_someone :: datetime
  frame_i :: int

record env =
  procs :: os
  frames :: frame_io
  now :: datetime

text \<open>\<^verbatim>\<open>timedelta.total_seconds()\<close> of a difference of timestamps.\<close>

definition total_seconds :: "int \<Rightarrow> real" where
  "total_seconds delta = real_of_int delta / 1000000"

section \<open>The blocks of one pass\<close>

text \<open>\<^verbatim>\<open>USE_BLUETOOTH and not is_phone_present(PHONE_MAC)\<close>: the query runs only when enabled.\<close>

definition phone_absent :: "config \<Rightarrow> os \<Rightarrow> bool io" where
  "phone_absent cfg run =
     (if USE_BLUETOOTH cfg
      then io_bind (is_phone_present run (PHONE_MAC cfg)) (\<lambda>present. io_return (\<not> present))
      else io_return False)"

text \<open>\<^verbatim>\<open>lock_session(); time.sleep(LOCK_COOLDOWN)\<close>, as it stands at all four lock sites.\<close>

definition lock_and_cooldown :: "config \<Rightarrow> os \<Rightarrow> unit io" where
  "lock_and_cooldown cfg run = io_then (lock_session run) (sleep (LOCK_COOLDOWN cfg))"

text \<open>The branch \<^verbatim>\<open>if n_faces != 1\<close>, up to its \<^verbatim>\<open>continue\<close>.\<close>

definition not_one_face :: "config \<Rightarrow> os \<Rightarrow> datetime \<Rightarrow> datetime \<Rightarrow> nat \<Rightarrow> unit io" where
  "not_one_face cfg run last_seen now_t n_faces =
     io_then
       (if n_faces = 0 then
          (if total_seconds (now_t - last_seen) \<ge> ABSENCE_TIMEOUT cfg
           then io_then (log No_faces_for_timeout) (lock_and_cooldown cfg run)
           else log Waiting_for_timeout)
        else io_then (log Multiple_faces) (lock_and_cooldown cfg run))
       (sleep (CHECK_INTERVAL cfg))"

text \<open>Exactly one face: identity check, decision, frame counter, poll sleep.\<close>

definition one_face ::
    "config \<Rightarrow> vision \<Rightarrow> encoding list \<Rightarrow> os \<Rightarrow> image \<Rightarrow> loc list \<Rightarrow> datetime \<Rightarrow>
     guard_state \<Rightarrow> guard_state io" where
  "one_face cfg vis known run rgb face_locs now_t st =
     io_bind (identity_check cfg vis known rgb face_locs (frame_i st)) (\<lambda>authorized.
     io_bind
       (if authorized
        then io_then (log Authorized_face_present) (io_return (st\<lparr>last_seen_someone := now_t\<rparr>))
        else io_then (log Single_face_not_authorized)
               (io_then (lock_and_cooldown cfg run) (io_return st))) (\<lambda>st'.
     io_then (sleep (CHECK_INTERVAL cfg))
       (io_return (st'\<lparr>frame_i := frame_i st' + 1\<rparr>))))"

section \<open>One pass and the loop\<close>

definition iteration ::
    "config \<Rightarrow> vision \<Rightarrow> encoding list \<Rightarrow> int \<Rightarrow> env \<Rightarrow> guard_state \<Rightarrow> guard_state io" where
  "iteration cfg vis known cam e st =
     io_bind (phone_absent cfg (procs e)) (\<lambda>absent.
       if absent then
         io_then (log Phone_not_present)
           (io_then (lock_and_cooldown cfg (procs e)) (io_return st))
       else
         io_bind (latest_frame cam (frames e)) (\<lambda>frame.
           case frame of
             None \<Rightarrow>
               io_then (log Failed_to_read_webcam)
                 (io_then (sleep (CHECK_INTERVAL cfg)) (io_return st))
           | Some f \<Rightarrow>
               io_bind (detect_faces_rgb cfg vis (detector_input f)) (\<lambda>face_locs.
                 io_then (log (Detected_faces (length face_locs)))
                   (if length face_locs \<noteq> 1 then
                      io_then
                        (not_one_face cfg (procs e) (last_seen_someone st) (now e)
                           (length face_locs))
                        (io_return st)
                    else
                      one_face cfg vis known (procs e) (detector_input f) face_locs
                        (now e) st))))"

fun guard_loop ::
    "config \<Rightarrow> vision \<Rightarrow> encoding list \<Rightarrow> int \<Rightarrow> env list \<Rightarrow> guard_state \<Rightarrow> unit io" where
  "guard_loop cfg vis known cam [] st = io_raise KeyboardInterrupt"
| "guard_loop cfg vis known cam (e # es) st =
     io_bind (iteration cfg vis known cam e st) (guard_loop cfg vis known cam es)"

lemmas loop_defs [guard_defs] =
  total_seconds_def phone_absent_def lock_and_cooldown_def not_one_face_def one_face_def
  iteration_def

section \<open>The blocks in closed form\<close>

lemma lock_and_cooldown_eq:
  "lock_and_cooldown cfg run =
     (case outcome (lock_session run) of
        Inr b \<Rightarrow> (trace_of (lock_session run) @ [Sleep (LOCK_COOLDOWN cfg)], Inr ())
      | Inl ex \<Rightarrow> (trace_of (lock_session run), Inl ex))"
  by (cases "lock_session run"; cases "outcome (lock_session run)")
    (simp_all add: lock_and_cooldown_def)

lemma lock_and_cooldown_Inr:
  "outcome (lock_session run) = Inr b \<Longrightarrow>
     lock_and_cooldown cfg run = (trace_of (lock_session run) @ [Sleep (LOCK_COOLDOWN cfg)], Inr ())"
  by (simp add: lock_and_cooldown_eq)

lemma phone_absent_disabled [simp]:
  "\<not> USE_BLUETOOTH cfg \<Longrightarrow> phone_absent cfg run = ([], Inr False)"
  by (simp add: phone_absent_def)

lemma phone_absent_enabled:
  "USE_BLUETOOTH cfg \<Longrightarrow>
     phone_absent cfg run =
       (trace_of (is_phone_present run (PHONE_MAC cfg)),
        case outcome (is_phone_present run (PHONE_MAC cfg)) of
          Inr present \<Rightarrow> Inr (\<not> present) | Inl ex \<Rightarrow> Inl ex)"
  by (cases "is_phone_present run (PHONE_MAC cfg)";
      cases "outcome (is_phone_present run (PHONE_MAC cfg))")
    (simp_all add: phone_absent_def)

lemma not_one_face_eq:
  assumes "outcome (lock_session run) = Inr b"
  shows "not_one_face cfg run last_seen now_t n =
     ((if n = 0 \<and> total_seconds (now_t - last_seen) < ABSENCE_TIMEOUT cfg
       then [Log Waiting_for_timeout]
       else [Log (if n = 0 then No_faces_for_timeout else Multiple_faces)] @
            trace_of (lock_session run) @ [Sleep (LOCK_COOLDOWN cfg)]) @
      [Sleep (CHECK_INTERVAL cfg)], Inr ())"
  using assms by (simp add: not_one_face_def lock_and_cooldown_Inr)

lemma one_face_eq:
  assumes "outcome (identity_check cfg vis known rgb locs (frame_i st)) = Inr a"
    and "outcome (lock_session run) = Inr b"
  shows "one_face cfg vis known run rgb locs now_t st =
     (trace_of (identity_check cfg vis known rgb locs (frame_i st)) @
      (if a then [Log Authorized_face_present]
       else [Log Single_face_not_authorized] @ trace_of (lock_session run) @
            [Sleep (LOCK_COOLDOWN cfg)]) @
      [Sleep (CHECK_INTERVAL cfg)],
      Inr \<lparr>last_seen_someone = (if a then now_t else last_seen_someone st),
           frame_i = frame_i st + 1\<rparr>)"
proof -
  obtain ti where "identity_check cfg vis known rgb locs (frame_i st) = (ti, Inr a)"
    using assms(1) by (metis prod.collapse)
  then show ?thesis
    using assms(2) by (simp add: one_face_def lock_and_cooldown_Inr)
qed

lemma one_face_authorized:
  assumes "outcome (identity_check cfg vis known rgb locs (frame_i st)) = Inr True"
  shows "one_face cfg vis known run rgb locs now_t st =
     (trace_of (identity_check cfg vis known rgb locs (frame_i st)) @
      [Log Authorized_face_present, Sleep (CHECK_INTERVAL cfg)],
      Inr \<lparr>last_seen_someone = now_t, frame_i = frame_i st + 1\<rparr>)"
proof -
  obtain ti where "identity_check cfg vis known rgb locs (frame_i st) = (ti, Inr True)"
    using assms(1) by (metis prod.collapse)
  then show ?thesis by (simp add: one_face_def)
qed

section \<open>A pass that gets to see the scene\<close>

text \<open>
  \<open>sees cfg vis cam e t rgb locs\<close>: in the pass with inputs \<open>e\<close> the phone check
  passes (or is disabled), a frame is read and the detectors return the regions
  \<open>locs\<close> for the detector input \<open>rgb\<close>; \<open>t\<close> is the trace up to and including the
  log line with the face count.
\<close>

definition sees :: "config \<Rightarrow> vision \<Rightarrow> int \<Rightarrow> env \<Rightarrow> effect list \<Rightarrow> image \<Rightarrow> loc list \<Rightarrow> bool" where
  "sees cfg vis cam e t rgb locs \<longleftrightarrow>
     outcome (phone_absent cfg (procs e)) = Inr False \<and>
     (case outcome (latest_frame cam (frames e)) of
        Inr (Some f) \<Rightarrow> rgb = detector_input f
      | _ \<Rightarrow> False) \<and>
     outcome (detect_faces_rgb cfg vis rgb) = Inr locs \<and>
     t = trace_of (phone_absent cfg (procs e)) @ trace_of (latest_frame cam (frames e)) @
         trace_of (detect_faces_rgb cfg vis rgb) @ [Log (Detected_faces (length locs))]"

lemma sees_iff:
  "sees cfg vis cam e t rgb locs \<longleftrightarrow>
     outcome (phone_absent cfg (procs e)) = Inr False \<and>
     (\<exists>f. outcome (latest_frame cam (frames e)) = Inr (Some f) \<and> rgb = detector_input f) \<and>
     outcome (detect_faces_rgb cfg vis rgb) = Inr locs \<and>
     t = trace_of (phone_absent cfg (procs e)) @ trace_of (latest_frame cam (frames e)) @
         trace_of (detect_faces_rgb cfg vis rgb) @ [Log (Detected_faces (length locs))]"
  by (auto simp: sees_def split: sum.splits option.splits)

lemma iteration_gate_closed:
  assumes "USE_BLUETOOTH cfg"
    and "outcome (is_phone_present (procs e) (PHONE_MAC cfg)) = Inr False"
    and "outcome (lock_session (procs e)) = Inr b"
  shows "iteration cfg vis known cam e st =
           (trace_of (is_phone_present (procs e) (PHONE_MAC cfg)) @ [Log Phone_not_present] @
            trace_of (lock_session (procs e)) @ [Sleep (LOCK_COOLDOWN cfg)], Inr st)"
  using assms
  by (simp add: iteration_def phone_absent_enabled lock_and_cooldown_Inr)

lemma iteration_sees:
  assumes "sees cfg vis cam e t rgb locs"
  shows "iteration cfg vis known cam e st =
           io_pre t
             (if length locs \<noteq> 1 then
                io_then (not_one_face cfg (procs e) (last_seen_someone st) (now e) (length locs))
                  (io_return st)
              else one_face cfg vis known (procs e) rgb locs (now e) st)"
proof -
  obtain tg tf td f where
    "phone_absent cfg (procs e) = (tg, Inr False)"
    "latest_frame cam (frames e) = (tf, Inr (Some f))" "rgb = detector_input f"
    "detect_faces_rgb cfg vis rgb = (td, Inr locs)"
    "t = tg @ tf @ td @ [Log (Detected_faces (length locs))]"
    using assms unfolding sees_iff
    by (metis prod.collapse)
  then show ?thesis
    by (simp add: iteration_def)
qed

section \<open>What the gate and the scene leave in the trace\<close>

lemma phone_absent_True_iff:
  "outcome (phone_absent cfg run) = Inr True \<longleftrightarrow>
     USE_BLUETOOTH cfg \<and> outcome (is_phone_present run (PHONE_MAC cfg)) = Inr False"
  by (cases "USE_BLUETOOTH cfg") (auto simp: phone_absent_enabled split: sum.splits)

lemma trace_phone_absent:
  "trace_of (phone_absent cfg run) =
     (if USE_BLUETOOTH cfg then trace_of (is_phone_present run (PHONE_MAC cfg)) else [])"
  by (simp add: phone_absent_enabled)

lemma lock_attempts_is_phone_present [simp]:
  "lock_attempts (trace_of (is_phone_present run mac)) = 0"
  by (simp add: lock_attempts_def lock_cmds_def bluetooth_cmd_def)

lemma lock_attempts_sees:
  "sees cfg vis cam e t rgb locs \<Longrightarrow> lock_attempts t = 0"
  by (auto simp: sees_iff trace_phone_absent)

lemma sleeps_is_phone_present [simp]: "sleeps (trace_of (is_phone_present run mac)) = []"
  by (simp add: is_phone_present_eq split: sum.splits)

lemma sleeps_latest_frame [simp]: "sleeps (trace_of (latest_frame cam fio)) = []"
  by (simp add: latest_frame_eq split: option.splits)

lemma sleeps_detect_faces_rgb [simp]: "sleeps (trace_of (detect_faces_rgb cfg vis rgb)) = []"
  using trace_detect_faces_rgb [of cfg vis rgb] by auto

lemma sleeps_identity_check [simp]:
  "sleeps (trace_of (identity_check cfg vis known rgb locs i)) = []"
  by (simp add: identity_check_eq split: sum.splits list.splits)

lemma sleeps_sees: "sees cfg vis cam e t rgb locs \<Longrightarrow> sleeps t = []"
  by (auto simp: sees_iff trace_phone_absent)

section \<open>The decision rules\<close>

text \<open>
  C6. Second factor first: with the phone check enabled and the phone not reported
  as connected, the pass logs it, runs the lock cascade and sleeps for the cooldown,
  whatever is in front of the camera: the camera is not read, no detector runs and
  the state is unchanged.
\<close>

theorem iteration_phone_missing:
  assumes "USE_BLUETOOTH cfg"
    and "outcome (is_phone_present (procs e) (PHONE_MAC cfg)) = Inr False"
    and "outcome (lock_session (procs e)) = Inr b"
  shows "iteration cfg vis known cam e st =
           (trace_of (is_phone_present (procs e) (PHONE_MAC cfg)) @ [Log Phone_not_present] @
            trace_of (lock_session (procs e)) @ [Sleep (LOCK_COOLDOWN cfg)], Inr st) \<and>
         list_all (\<lambda>ev. ev \<noteq> Encode \<and> (\<forall>i. ev \<notin> {Cam_grab i, Cam_retrieve i, Cam_read i}) \<and>
                        (\<forall>dm u. ev \<noteq> Detect dm u))
           (trace_of (iteration cfg vis known cam e st))"
proof -
  have lock: "list_all (lock_effect lock_cmds) (trace_of (lock_session (procs e)))"
    unfolding lock_session_def by (rule lock_loop_effects)
  have phone: "\<exists>t. trace_of (is_phone_present (procs e) (PHONE_MAC cfg)) =
                    Exec (bluetooth_cmd (PHONE_MAC cfg)) 6 # t \<and> list_all (\<lambda>ev. \<exists>m. ev = Log m) t"
    by (rule trace_is_phone_present)
  show ?thesis
    using iteration_gate_closed [OF assms, of vis known cam st] lock phone
    by (auto simp: list_all_iff lock_effect_def split: effect.splits)
qed

text \<open>
  A frame that cannot be read is not taken for an empty room: the pass logs the
  failure, sleeps for the poll interval and changes nothing; no lock command runs.
\<close>

theorem iteration_read_failure:
  assumes "outcome (phone_absent cfg (procs e)) = Inr False"
    and "outcome (latest_frame cam (frames e)) = Inr None"
  shows "iteration cfg vis known cam e st =
           (trace_of (phone_absent cfg (procs e)) @ trace_of (latest_frame cam (frames e)) @
            [Log Failed_to_read_webcam, Sleep (CHECK_INTERVAL cfg)], Inr st)"
proof -
  obtain tg tf where "phone_absent cfg (procs e) = (tg, Inr False)"
    "latest_frame cam (frames e) = (tf, Inr None)"
    using assms by (metis prod.collapse)
  then show ?thesis by (simp add: iteration_def)
qed

text \<open>
  C2. More than one face: the lock cascade runs at once, whoever the faces belong
  to and whenever somebody was last seen, followed by the cooldown and the poll
  sleep; the state is unchanged.
\<close>

theorem iteration_multiple_faces:
  assumes "sees cfg vis cam e t rgb locs" and "length locs > 1"
    and "outcome (lock_session (procs e)) = Inr b"
  shows "iteration cfg vis known cam e st =
           (t @ [Log Multiple_faces] @ trace_of (lock_session (procs e)) @
            [Sleep (LOCK_COOLDOWN cfg), Sleep (CHECK_INTERVAL cfg)], Inr st)"
  using assms(2)
  by (auto simp: iteration_sees [OF assms(1)] not_one_face_eq [OF assms(3)])

text \<open>
  C3. No face: the pass locks exactly when the time since \<^verbatim>\<open>last_seen_someone\<close> has
  reached the absence timeout; below it the pass only waits. In both cases
  \<^verbatim>\<open>last_seen_someone\<close> is left as it is, so once the timeout is reached every further
  pass without a face locks again.
\<close>

theorem iteration_no_face:
  assumes "sees cfg vis cam e t rgb []"
    and "outcome (lock_session (procs e)) = Inr b"
  shows "iteration cfg vis known cam e st =
           (if total_seconds (now e - last_seen_someone st) \<ge> ABSENCE_TIMEOUT cfg
            then (t @ [Log No_faces_for_timeout] @ trace_of (lock_session (procs e)) @
                  [Sleep (LOCK_COOLDOWN cfg), Sleep (CHECK_INTERVAL cfg)], Inr st)
            else (t @ [Log Waiting_for_timeout, Sleep (CHECK_INTERVAL cfg)], Inr st))"
  by (simp add: iteration_sees [OF assms(1)] not_one_face_eq [OF assms(2)])

text \<open>
  C4. One face that passes the identity check: no lock command runs,
  \<^verbatim>\<open>last_seen_someone\<close> becomes the time of this pass and the frame counter advances.
\<close>

theorem iteration_authorized:
  assumes "sees cfg vis cam e t rgb [l]"
    and "outcome (identity_check cfg vis known rgb [l] (frame_i st)) = Inr True"
  shows "iteration cfg vis known cam e st =
           (t @ trace_of (identity_check cfg vis known rgb [l] (frame_i st)) @
            [Log Authorized_face_present, Sleep (CHECK_INTERVAL cfg)],
            Inr \<lparr>last_seen_someone = now e, frame_i = frame_i st + 1\<rparr>) \<and>
         lock_attempts (trace_of (iteration cfg vis known cam e st)) = 0"
  using lock_attempts_sees [OF assms(1)]
  by (simp add: iteration_sees [OF assms(1)] one_face_authorized [OF assms(2)])

text \<open>
  C5. One face that does not pass the identity check (distance above the
  tolerance, no encoding, or a pass on which the check is skipped): the lock cascade
  runs at once, followed by the cooldown and the poll sleep; \<^verbatim>\<open>last_seen_someone\<close> is
  unchanged and the frame counter advances.
\<close>

theorem iteration_unauthorized:
  assumes "sees cfg vis cam e t rgb [l]"
    and "outcome (identity_check cfg vis known rgb [l] (frame_i st)) = Inr False"
    and "outcome (lock_session (procs e)) = Inr b"
  shows "iteration cfg vis known cam e st =
           (t @ trace_of (identity_check cfg vis known rgb [l] (frame_i st)) @
            [Log Single_face_not_authorized] @ trace_of (lock_session (procs e)) @
            [Sleep (LOCK_COOLDOWN cfg), Sleep (CHECK_INTERVAL cfg)],
            Inr \<lparr>last_seen_someone = last_seen_someone st, frame_i = frame_i st + 1\<rparr>)"
  by (simp add: iteration_sees [OF assms(1)] one_face_eq [OF assms(2,3)])

section \<open>A pass implements the decision rules\<close>

text \<open>
  What a pass establishes about the scene, read off the answers of its parts:
  \<open>None\<close> when no frame could be read or a part raised.
\<close>

definition sighting_in ::
    "config \<Rightarrow> vision \<Rightarrow> encoding list \<Rightarrow> int \<Rightarrow> env \<Rightarrow> guard_state \<Rightarrow> sighting option" where
  "sighting_in cfg vis known cam e st =
     (case outcome (phone_absent cfg (procs e)) of
        Inl ex \<Rightarrow> None
      | Inr True \<Rightarrow>
          Some \<lparr>companion_missing = True, face_count = 0, verdict = False, seen_at = now e\<rparr>
      | Inr False \<Rightarrow>
          (case outcome (latest_frame cam (frames e)) of
             Inr (Some f) \<Rightarrow>
               (case outcome (detect_faces_rgb cfg vis (detector_input f)) of
                  Inl ex \<Rightarrow> None
                | Inr locs \<Rightarrow>
                    if length locs = 1 then
                      (case outcome (identity_check cfg vis known (detector_input f) locs
                                       (frame_i st)) of
                         Inl ex \<Rightarrow> None
                       | Inr a \<Rightarrow>
                           Some \<lparr>companion_missing = False, face_count = 1, verdict = a,
                                 seen_at = now e\<rparr>)
                    else
                      Some \<lparr>companion_missing = False, face_count = length locs,
                            verdict = False, seen_at = now e\<rparr>)
           | _ \<Rightarrow> None))"

text \<open>A sighting with the phone present comes from a pass that saw the scene.\<close>

lemma sighting_in_sees:
  assumes "sighting_in cfg vis known cam e st = Some s" and "\<not> companion_missing s"
  shows "\<exists>t rgb locs. sees cfg vis cam e t rgb locs \<and>
           face_count s = length locs \<and> seen_at s = now e \<and>
           (if length locs = 1
            then outcome (identity_check cfg vis known rgb locs (frame_i st)) = Inr (verdict s)
            else \<not> verdict s)"
proof -
  from assms obtain f locs where gate: "outcome (phone_absent cfg (procs e)) = Inr False"
    and frame: "outcome (latest_frame cam (frames e)) = Inr (Some f)"
    and locs: "outcome (detect_faces_rgb cfg vis (detector_input f)) = Inr locs"
    by (auto simp: sighting_in_def split: sum.splits bool.splits option.splits)
  have "sees cfg vis cam e
          (trace_of (phone_absent cfg (procs e)) @ trace_of (latest_frame cam (frames e)) @
           trace_of (detect_faces_rgb cfg vis (detector_input f)) @
           [Log (Detected_faces (length locs))]) (detector_input f) locs"
    using gate frame locs by (auto simp: sees_iff)
  moreover from assms(1) gate frame locs
  have "face_count s = length locs \<and> seen_at s = now e \<and>
    (if length locs = 1
     then outcome (identity_check cfg vis known (detector_input f) locs (frame_i st)) =
            Inr (verdict s)
     else \<not> verdict s)"
    by (auto simp: sighting_in_def split: sum.splits if_splits)
  ultimately show ?thesis by blast
qed

lemma sighting_in_gate:
  assumes "sighting_in cfg vis known cam e st = Some s" and "companion_missing s"
  shows "USE_BLUETOOTH cfg \<and> outcome (is_phone_present (procs e) (PHONE_MAC cfg)) = Inr False"
  using assms
  by (auto simp: sighting_in_def phone_absent_True_iff [symmetric]
      split: sum.splits bool.splits option.splits if_splits)

text \<open>
  One pass implements the rules. Whenever a pass establishes a sighting and the
  lock cascade is not interrupted, the pass completes, it makes one lock attempt if
  the rules demand a lock and none otherwise, and the timestamp it keeps is the one
  the rules prescribe.
\<close>

lemma iteration_policy:
  assumes "sighting_in cfg vis known cam e st = Some s"
    and "outcome (lock_session (procs e)) = Inr b"
  shows "\<exists>tr st'. iteration cfg vis known cam e st = (tr, Inr st') \<and>
           lock_attempts tr =
             (if must_lock (ABSENCE_TIMEOUT cfg) (last_seen_someone st) s then 1 else 0) \<and>
           last_seen_someone st' = seen_after (last_seen_someone st) s"
proof (cases "companion_missing s")
  case True
  from sighting_in_gate [OF assms(1) True] have "USE_BLUETOOTH cfg"
    and "outcome (is_phone_present (procs e) (PHONE_MAC cfg)) = Inr False"
    by simp_all
  from iteration_gate_closed [OF this assms(2)] True show ?thesis
    by (simp add: must_lock_def seen_after_def)
next
  case False
  from sighting_in_sees [OF assms(1) False] obtain t rgb locs
    where sees: "sees cfg vis cam e t rgb locs"
      and s: "face_count s = length locs" "seen_at s = now e"
      and v: "if length locs = 1
              then outcome (identity_check cfg vis known rgb locs (frame_i st)) = Inr (verdict s)
              else \<not> verdict s"
    by blast
  note t0 = lock_attempts_sees [OF sees]
  show ?thesis
  proof (cases "length locs = 1")
    case True
    from v True
    have "outcome (identity_check cfg vis known rgb locs (frame_i st)) = Inr (verdict s)"
      by simp
    from one_face_eq [OF this assms(2)] True False s show ?thesis
      by (simp add: iteration_sees [OF sees] t0
          must_lock_def seen_after_def phase_of_def)
  next
    case False
    with \<open>\<not> companion_missing s\<close> s v show ?thesis
      by (auto simp: iteration_sees [OF sees] not_one_face_eq [OF assms(2)] t0
          must_lock_def seen_after_def phase_of_def total_seconds_def)
  qed
qed

section \<open>Scenarios\<close>

lemma detector_input_small [simp]:
  "detector_input [] = []" "detector_input [[p]] = [[p]]" "detector_input one_pixel = one_pixel"
  by (simp_all add: detector_input_def cvtColor_BGR2RGB_def reverse_channels_def one_pixel_def
      split: prod.splits)

text \<open>
  The configuration of the file, and variants with the slow detector switched off
  and with the phone check switched on. The guard has last seen somebody at second
  3 and the pass takes place at second 10. The camera delivers the one-pixel image,
  in which the fast detector of \<open>vis_demo\<close> sees one face, or the empty image, in
  which only the slow detector sees faces.
\<close>

definition cfg0 :: config where
  "cfg0 = presence_guard_config ''/home/u''"

definition cfg_hog_only :: config where
  "cfg_hog_only = cfg0 \<lparr>USE_CNN_FALLBACK := False\<rparr>"

definition cfg_phone :: config where
  "cfg_phone = cfg0 \<lparr>USE_BLUETOOTH := True\<rparr>"

definition st0 :: guard_state where
  "st0 = \<lparr>last_seen_someone = 3000000, frame_i = 0\<rparr>"

definition env_face :: env where
  "env_face = \<lparr>procs = os_gnome_only,
               frames = \<lparr>retrieved = Some one_pixel, read_back = None\<rparr>,
               now = 10000000\<rparr>"

definition env_empty :: env where
  "env_empty = env_face \<lparr>frames := \<lparr>retrieved = Some [], read_back = None\<rparr>\<rparr>"

definition env_blind :: env where
  "env_blind = env_face \<lparr>frames := \<lparr>retrieved = None, read_back = None\<rparr>\<rparr>"

lemmas scenario_defs =
  cfg0_def cfg_hog_only_def cfg_phone_def st0_def env_face_def env_empty_def env_blind_def

abbreviation grabbed :: "effect list" where
  "grabbed \<equiv> [Cam_grab 0, Cam_grab 0, Cam_grab 0, Cam_retrieve 0]"

lemma sees_one_face:
  "sees cfg0 vis_demo 0 env_face (grabbed @ [Detect Hog 1, Log (Detected_faces 1)])
     one_pixel [(0, 1, 1, 0)]"
  by (simp add: sees_iff scenario_defs latest_frame_eq
      detect_faces_rgb_def)

lemma sees_two_faces:
  "sees cfg0 vis_demo 0 env_empty
     (grabbed @ [Detect Hog 1, Detect Cnn 1, Log (Detected_faces 2)])
     [] [(0, 1, 1, 0), (0, 3, 1, 2)]"
  by (simp add: sees_iff scenario_defs latest_frame_eq
      detect_faces_rgb_def one_pixel_def)

lemma sees_no_face:
  "sees cfg_hog_only vis_demo 0 env_empty (grabbed @ [Detect Hog 1, Log (Detected_faces 0)]) [] []"
  by (simp add: sees_iff scenario_defs latest_frame_eq
      detect_faces_rgb_def one_pixel_def)

lemma lock_session_os_gnome_only:
  "lock_session os_gnome_only =
     ([Exec [''loginctl'', ''lock-sessions''] 5,
       Exec [''gnome-screensaver-command'', ''--lock''] 5,
       Log (Locked_via [''gnome-screensaver-command'', ''--lock''])], Inr True)"
  by (simp add: lock_session_def lock_cmds_def lock_loop_steps)

lemma identity_near:
  "outcome (identity_check cfg0 vis_demo [[0.3, 0]] one_pixel [(0, 1, 1, 0)] 0) = Inr True"
proof -
  have "sqrt (9 / 100) = 3 / 10"
    using real_sqrt_abs [of "3 / 10"] by (simp add: power2_eq_square)
  then show ?thesis
    by (simp add: identity_check_eq cfg0_def np_min_Cons row_norms_def sq_dist_def
        power2_eq_square)
qed

lemma identity_far:
  "outcome (identity_check cfg0 vis_demo [[1, 0]] one_pixel [(0, 1, 1, 0)] 0) = Inr False"
  by (auto simp: identity_check_eq cfg0_def np_min_Cons row_norms_def sq_dist_def)

theorem iteration_phone_missing_witness:
  "iteration cfg_phone vis_demo [[0.3, 0]] 0 env_face st0 =
     ([Exec [''bluetoothctl'', ''info'', ''AA:BB:CC:11:22:33''] 6,
       Log (Bluetooth_check_error FileNotFoundError),
       Log Phone_not_present,
       Exec [''loginctl'', ''lock-sessions''] 5,
       Exec [''gnome-screensaver-command'', ''--lock''] 5,
       Log (Locked_via [''gnome-screensaver-command'', ''--lock'']),
       Sleep 4], Inr st0)"
proof -
  have "is_phone_present os_gnome_only ''AA:BB:CC:11:22:33'' =
          ([Exec [''bluetoothctl'', ''info'', ''AA:BB:CC:11:22:33''] 6,
            Log (Bluetooth_check_error FileNotFoundError)], Inr False)"
    by (simp add: is_phone_present_eq os_gnome_only_def bluetooth_cmd_def)
  then show ?thesis
    using iteration_phone_missing [of cfg_phone env_face True vis_demo "[[0.3, 0]]" 0 st0]
    by (simp add: scenario_defs lock_session_os_gnome_only)
qed

theorem iteration_read_failure_witness:
  "iteration cfg0 vis_demo [[0.3, 0]] 0 env_blind st0 =
     (grabbed @ [Cam_read 0, Log Failed_to_read_webcam, Sleep 0.35], Inr st0)"
  using iteration_read_failure [of cfg0 env_blind 0 vis_demo "[[0.3, 0]]" st0]
  by (simp add: scenario_defs latest_frame_eq)

theorem iteration_multiple_faces_witness:
  "iteration cfg0 vis_demo [[0.3, 0]] 0 env_empty st0 =
     (grabbed @ [Detect Hog 1, Detect Cnn 1, Log (Detected_faces 2), Log Multiple_faces,
       Exec [''loginctl'', ''lock-sessions''] 5,
       Exec [''gnome-screensaver-command'', ''--lock''] 5,
       Log (Locked_via [''gnome-screensaver-command'', ''--lock'']),
       Sleep 4, Sleep 0.35], Inr st0)"
  using iteration_multiple_faces [OF sees_two_faces, of True "[[0.3, 0]]" st0]
  by (simp add: scenario_defs lock_session_os_gnome_only)

theorem iteration_no_face_witness:
  "iteration cfg_hog_only vis_demo [[0.3, 0]] 0 env_empty st0 =
     (grabbed @ [Detect Hog 1, Log (Detected_faces 0), Log No_faces_for_timeout,
       Exec [''loginctl'', ''lock-sessions''] 5,
       Exec [''gnome-screensaver-command'', ''--lock''] 5,
       Log (Locked_via [''gnome-screensaver-command'', ''--lock'']),
       Sleep 4, Sleep 0.35], Inr st0) \<and>
   iteration cfg_hog_only vis_demo [[0.3, 0]] 0 (env_empty \<lparr>now := 8999999\<rparr>) st0 =
     (grabbed @ [Detect Hog 1, Log (Detected_faces 0), Log Waiting_for_timeout, Sleep 0.35],
      Inr st0)"
proof -
  have "sees cfg_hog_only vis_demo 0 (env_empty \<lparr>now := 8999999\<rparr>)
          (grabbed @ [Detect Hog 1, Log (Detected_faces 0)]) [] []"
    using sees_no_face by (simp add: sees_iff)
  from iteration_no_face [OF sees_no_face, of True "[[0.3, 0]]" st0]
    iteration_no_face [OF this, of True "[[0.3, 0]]" st0]
  show ?thesis
    by (simp add: scenario_defs lock_session_os_gnome_only total_seconds_def)
qed

theorem iteration_authorized_witness:
  "iteration cfg0 vis_demo [[0.3, 0]] 0 env_face st0 =
     (grabbed @ [Detect Hog 1, Log (Detected_faces 1)] @
      trace_of (identity_check cfg0 vis_demo [[0.3, 0]] one_pixel [(0, 1, 1, 0)] 0) @
      [Log Authorized_face_present, Sleep 0.35],
      Inr \<lparr>last_seen_someone = 10000000, frame_i = 1\<rparr>)"
  using iteration_authorized [OF sees_one_face, of "[[0.3, 0]]" st0] identity_near
  by (simp add: scenario_defs)

theorem iteration_unauthorized_witness:
  "iteration cfg0 vis_demo [[1, 0]] 0 env_face st0 =
     (grabbed @ [Detect Hog 1, Log (Detected_faces 1)] @
      trace_of (identity_check cfg0 vis_demo [[1, 0]] one_pixel [(0, 1, 1, 0)] 0) @
      [Log Single_face_not_authorized,
       Exec [''loginctl'', ''lock-sessions''] 5,
       Exec [''gnome-screensaver-command'', ''--lock''] 5,
       Log (Locked_via [''gnome-screensaver-command'', ''--lock'']),
       Sleep 4, Sleep 0.35],
      Inr \<lparr>last_seen_someone = 3000000, frame_i = 1\<rparr>)"
  using iteration_unauthorized [OF sees_one_face, of "[[1, 0]]" st0 True] identity_far
  by (simp add: scenario_defs lock_session_os_gnome_only)


end
