(* ===== verification/Guard_Run.thy ===== *)
theory Guard_Run
  imports Presence_Loop
begin

text \<open>
  Whole runs of the decision loop of \<^verbatim>\<open>presence_guard.py\<close>: what holds of
  \<open>guard_loop\<close> for every list of inputs, every \<open>vision\<close> and every start state.

  \<^item> The loop ends only with an exception (\<^verbatim>\<open>while True\<close> has no \<^verbatim>\<open>break\<close>; in the
    model this holds by construction).
  \<^item> \<open>guard_effect\<close> lists the effects the loop can have, \<open>guard_log\<close> its log
    lines; every effect of every run is one of them, so the loop runs no command
    but the lock commands and the phone query and does not open, configure or
    release a camera.
  \<^item> \<open>cooled\<close>: every completed lock cascade is directly followed by the
    cooldown sleep.
  \<^item> \<open>reachable\<close>: the states the loop gets to, as an inductive relation with the
    inputs consumed, its executable form \<open>run_to\<close>, and the invariants of the two
    loop variables.
  \<^item> \<open>run_locks\<close> and \<open>run_sightings\<close>: the lock decisions of a run are the
    decisions of the rules of \<open>Presence_Policy\<close> on what the passes saw.
  \<^item> Absence and sampling over several passes.

  An interrupt arrives where the inputs say so: as the answer of a command or of a
  library call, or between two passes when the list of inputs is used up.
\<close>

section \<open>The loop, pass by pass\<close>

lemma guard_loop_pass:
  "guard_loop cfg vis known cam (e # es) st =
     (case outcome (iteration cfg vis known cam e st) of
        Inr st' \<Rightarrow>
          io_pre (trace_of (iteration cfg vis known cam e st)) (guard_loop cfg vis known cam es st')
      | Inl ex \<Rightarrow> (trace_of (iteration cfg vis known cam e st), Inl ex))"
  by (cases "iteration cfg vis known cam e st"; cases "outcome (iteration cfg vis known cam e st)")
    simp_all

declare guard_loop.simps(2) [simp del]

text \<open>A property of every effect of a run follows from the same property of every pass.\<close>

lemma list_all_guard_loop:
  assumes "\<And>e st. list_all P (trace_of (iteration cfg vis known cam e st))"
  shows "list_all P (trace_of (guard_loop cfg vis known cam es st))"
  by (induction es arbitrary: st) (simp_all add: guard_loop_pass assms split: sum.splits)

section \<open>The effects a pass can have\<close>

text \<open>The log lines of the loop.\<close>

definition guard_log :: "config \<Rightarrow> log_msg \<Rightarrow> bool" where
  "guard_log cfg m =
     (case m of
        Bluetooth_check_error ex \<Rightarrow> USE_BLUETOOTH cfg
      | Phone_not_present \<Rightarrow> USE_BLUETOOTH cfg
      | Locked_via c \<Rightarrow> c \<in> set lock_cmds
      | All_lock_commands_failed \<Rightarrow> True
      | Failed_to_read_webcam \<Rightarrow> True
      | Detected_faces k \<Rightarrow> True
      | No_faces_for_timeout \<Rightarrow> True
      | Waiting_for_timeout \<Rightarrow> True
      | Multiple_faces \<Rightarrow> True
      | Best_face_distance d \<Rightarrow> True
      | Could_not_compute_encoding \<Rightarrow> True
      | Authorized_face_present \<Rightarrow> True
      | Single_face_not_authorized \<Rightarrow> True
      | _ \<Rightarrow> False)"

definition guard_effect :: "config \<Rightarrow> int \<Rightarrow> effect \<Rightarrow> bool" where
  "guard_effect cfg cam ev =
     (case ev of
        Log m \<Rightarrow> guard_log cfg m
      | Exec c n \<Rightarrow>
          c \<in> set lock_cmds \<and> n = 5 \<or>
          USE_BLUETOOTH cfg \<and> c = bluetooth_cmd (PHONE_MAC cfg) \<and> n = 6
      | Sleep d \<Rightarrow> d = LOCK_COOLDOWN cfg \<or> d = CHECK_INTERVAL cfg
      | Cam_grab i \<Rightarrow> i = cam
      | Cam_retrieve i \<Rightarrow> i = cam
      | Cam_read i \<Rightarrow> i = cam
      | Detect dm u \<Rightarrow>
          dm = Hog \<and> u = HOG_UPSAMPLE cfg \<or> dm = Cnn \<and> u = 1 \<and> USE_CNN_FALLBACK cfg
      | Encode \<Rightarrow> True
      | _ \<Rightarrow> False)"

lemma guard_log_simps [simp]:
  "guard_log cfg (Bluetooth_check_error ex) \<longleftrightarrow> USE_BLUETOOTH cfg"
  "guard_log cfg Phone_not_present \<longleftrightarrow> USE_BLUETOOTH cfg"
  "guard_log cfg (Locked_via c) \<longleftrightarrow> c \<in> set lock_cmds"
  "guard_log cfg All_lock_commands_failed"
  "guard_log cfg Failed_to_read_webcam"
  "guard_log cfg (Detected_faces k)"
  "guard_log cfg No_faces_for_timeout"
  "guard_log cfg Waiting_for_timeout"
  "guard_log cfg Multiple_faces"
  "guard_log cfg (Best_face_distance d)"
  "guard_log cfg Could_not_compute_encoding"
  "guard_log cfg Authorized_face_present"
  "guard_log cfg Single_face_not_authorized"
  "\<not> guard_log cfg (Crashed ex)"
  "\<not> guard_log cfg Stopped_by_user"
  "\<not> guard_log cfg Starting_presence_guard"
  by (simp_all add: guard_log_def)

lemma guard_effect_simps [simp]:
  "guard_effect cfg cam (Log m) \<longleftrightarrow> guard_log cfg m"
  "guard_effect cfg cam (Exec c n) \<longleftrightarrow>
     c \<in> set lock_cmds \<and> n = 5 \<or> USE_BLUETOOTH cfg \<and> c = bluetooth_cmd (PHONE_MAC cfg) \<and> n = 6"
  "guard_effect cfg cam (Sleep d) \<longleftrightarrow> d = LOCK_COOLDOWN cfg \<or> d = CHECK_INTERVAL cfg"
  "guard_effect cfg cam (Cam_grab i) \<longleftrightarrow> i = cam"
  "guard_effect cfg cam (Cam_retrieve i) \<longleftrightarrow> i = cam"
  "guard_effect cfg cam (Cam_read i) \<longleftrightarrow> i = cam"
  "guard_effect cfg cam (Detect dm u) \<longleftrightarrow>
     dm = Hog \<and> u = HOG_UPSAMPLE cfg \<or> dm = Cnn \<and> u = 1 \<and> USE_CNN_FALLBACK cfg"
  "guard_effect cfg cam Encode"
  "\<not> guard_effect cfg cam (Cam_open i)"
  "\<not> guard_effect cfg cam (Cam_set i p v)"
  "\<not> guard_effect cfg cam (Cam_release i)"
  "\<not> guard_effect cfg cam (Load_image f)"
  by (simp_all add: guard_effect_def)

lemma guard_effect_neutral: "guard_effect cfg cam ev \<Longrightarrow> camera_neutral ev"
  by (cases ev) simp_all

subsection \<open>The parts of a pass\<close>

lemma lock_loop_guard_effects:
  "set cmds \<subseteq> set lock_cmds \<Longrightarrow> list_all (guard_effect cfg cam) (trace_of (lock_loop run cmds))"
proof (induction cmds)
  case Nil
  show ?case by simp
next
  case (Cons cmd cmds)
  then show ?case
    by (cases "attempt run cmd") (simp_all add: lock_loop_steps)
qed

lemma lock_session_guard_effects [simp]:
  "list_all (guard_effect cfg cam) (trace_of (lock_session run))"
  by (simp add: lock_session_def lock_loop_guard_effects)

lemma lock_and_cooldown_guard_effects [simp]:
  "list_all (guard_effect cfg cam) (trace_of (lock_and_cooldown cfg run))"
  by (simp add: lock_and_cooldown_eq split: sum.splits)

lemma phone_absent_guard_effects [simp]:
  "list_all (guard_effect cfg cam) (trace_of (phone_absent cfg run))"
  by (simp add: trace_phone_absent is_phone_present_eq split: sum.splits)

lemma latest_frame_guard_effects [simp]:
  "list_all (guard_effect cfg cam) (trace_of (latest_frame cam fio))"
  by (simp add: latest_frame_eq split: option.splits)

lemma detect_faces_rgb_guard_effects [simp]:
  "list_all (guard_effect cfg cam) (trace_of (detect_faces_rgb cfg vis rgb))"
  by (cases "face_locations vis rgb (HOG_UPSAMPLE cfg) Hog")
    (simp_all add: detect_faces_rgb_def)

lemma identity_check_guard_effects [simp]:
  "list_all (guard_effect cfg cam) (trace_of (identity_check cfg vis known rgb locs i))"
  by (simp add: identity_check_eq split: sum.splits list.splits)

lemma not_one_face_guard_effects [simp]:
  "list_all (guard_effect cfg cam) (trace_of (not_one_face cfg run last_seen now_t n))"
  unfolding not_one_face_def by (intro trace_intros) (simp_all split: if_splits)

lemma one_face_guard_effects [simp]:
  "list_all (guard_effect cfg cam) (trace_of (one_face cfg vis known run rgb locs now_t st))"
  unfolding one_face_def by (intro trace_intros) (auto split: if_splits intro!: trace_intros)

lemma iteration_guard_effects:
  "list_all (guard_effect cfg cam) (trace_of (iteration cfg vis known cam e st))"
  unfolding iteration_def
  by (intro trace_intros)
    (auto simp: phone_absent_True_iff split: option.splits intro!: trace_intros)

lemma iteration_neutral:
  "list_all camera_neutral (trace_of (iteration cfg vis known cam e st))"
  using iteration_guard_effects [of cfg cam vis known e st]
  by (auto simp: list_all_iff intro: guard_effect_neutral)

section \<open>Every run\<close>

lemma guard_loop_stops: "\<exists>ex. outcome (guard_loop cfg vis known cam es st) = Inl ex"
  by (induction es arbitrary: st) (simp_all add: guard_loop_pass split: sum.splits)

text \<open>
  C12. Every effect of every run of the loop is one of \<open>guard_effect\<close>: the only
  commands run are the four lock commands, with a timeout of 5 seconds, and, if the
  phone check is enabled, the \<^verbatim>\<open>bluetoothctl info\<close> query with a timeout of 6; the loop
  sleeps only for the cooldown or the poll interval; it grabs, retrieves and reads
  only on the camera it was given, and never opens, configures or releases a camera
  or loads an image file; the slow detector runs only if the fallback is enabled.
\<close>

theorem guard_loop_effects:
  "list_all (guard_effect cfg cam) (trace_of (guard_loop cfg vis known cam es st))"
  by (rule list_all_guard_loop) (rule iteration_guard_effects)

text \<open>
  The loop leaves the set of open capture objects as it found it: the camera
  opened before the loop is still held when the loop ends, and no other one is.
\<close>

theorem guard_loop_held:
  "held_from h (trace_of (guard_loop cfg vis known cam es st)) = h"
  by (simp add: list_all_guard_loop iteration_neutral)

section \<open>The cooldown after a lock\<close>

text \<open>
  \<open>lock_end ev\<close>: \<open>ev\<close> is the log line with which a completed lock cascade ends.
  \<open>cooled cd t\<close>: in \<open>t\<close> every such line is directly followed by a sleep of \<open>cd\<close>
  seconds.
\<close>

definition lock_end :: "effect \<Rightarrow> bool" where
  "lock_end ev =
     (case ev of Log (Locked_via c) \<Rightarrow> True | Log All_lock_commands_failed \<Rightarrow> True | _ \<Rightarrow> False)"

fun cooled :: "real \<Rightarrow> effect list \<Rightarrow> bool" where
  "cooled cd [] = True"
| "cooled cd [ev] = (\<not> lock_end ev)"
| "cooled cd (ev # ev' # t) = ((if lock_end ev then ev' = Sleep cd else True) \<and> cooled cd (ev' # t))"

lemma lock_end_simps [simp]:
  "lock_end (Log (Locked_via c))" "lock_end (Log All_lock_commands_failed)"
  "\<not> lock_end (Exec c n)" "\<not> lock_end (Sleep d)" "\<not> lock_end (Cam_grab i)"
  "\<not> lock_end (Cam_retrieve i)" "\<not> lock_end (Cam_read i)" "\<not> lock_end (Detect dm u)"
  "\<not> lock_end Encode"
  "\<not> lock_end (Log Phone_not_present)" "\<not> lock_end (Log Failed_to_read_webcam)"
  "\<not> lock_end (Log (Detected_faces k))" "\<not> lock_end (Log No_faces_for_timeout)"
  "\<not> lock_end (Log Waiting_for_timeout)" "\<not> lock_end (Log Multiple_faces)"
  "\<not> lock_end (Log (Best_face_distance d))" "\<not> lock_end (Log Could_not_compute_encoding)"
  "\<not> lock_end (Log Authorized_face_present)" "\<not> lock_end (Log Single_face_not_authorized)"
  "\<not> lock_end (Log (Bluetooth_check_error ex))"
  by (simp_all add: lock_end_def)

lemma cooled_Cons:
  "cooled cd (ev # t) \<longleftrightarrow>
     (if lock_end ev then \<exists>t'. t = Sleep cd # t' \<and> cooled cd t else cooled cd t)"
  by (cases t) auto

lemma cooled_plain: "list_all (\<lambda>ev. \<not> lock_end ev) t \<Longrightarrow> cooled cd t"
  by (induction t) (simp_all add: cooled_Cons)

lemma cooled_append: "cooled cd t \<Longrightarrow> cooled cd t' \<Longrightarrow> cooled cd (t @ t')"
  by (induction t) (auto simp: cooled_Cons)

lemma cooled_then_sleep:
  "list_all (\<lambda>ev. \<not> lock_end ev) t \<Longrightarrow> cooled cd (t @ [ev, Sleep cd])"
  by (induction t) (simp_all add: cooled_Cons)

subsection \<open>Composed code\<close>

lemma cooled_io_bind:
  assumes "cooled cd (trace_of m)"
    and "\<And>x. outcome m = Inr x \<Longrightarrow> cooled cd (trace_of (f x))"
  shows "cooled cd (trace_of (io_bind m f))"
  using assms by (auto simp: trace_io_bind cooled_append split: sum.splits)

lemma cooled_io_then:
  assumes "cooled cd (trace_of m)"
    and "\<And>x. outcome m = Inr x \<Longrightarrow> cooled cd (trace_of k)"
  shows "cooled cd (trace_of (io_then m k))"
  using assms by (auto simp: trace_io_then cooled_append split: sum.splits)

lemma cooled_io_pre: "cooled cd t \<Longrightarrow> cooled cd (trace_of m) \<Longrightarrow> cooled cd (trace_of (io_pre t m))"
  by (simp add: cooled_append)

lemmas cooled_intros = cooled_io_bind cooled_io_then cooled_io_pre

subsection \<open>The cascade followed by the cooldown\<close>

lemma cooled_Cons_plain: "\<not> lock_end ev \<Longrightarrow> cooled cd (ev # t) = cooled cd t"
  by (simp add: cooled_Cons)

lemma trace_io_then_return [simp]: "trace_of (io_then m ([], Inr x)) = trace_of m"
  by (simp add: trace_io_then split: sum.splits)

text \<open>
  A cascade that completes ends with its lock line and has none before it; a
  cascade that is interrupted has none at all.
\<close>

lemma lock_loop_cooled:
  "(case outcome (lock_loop run cmds) of
      Inr b \<Rightarrow> cooled cd (trace_of (lock_loop run cmds) @ [Sleep cd])
    | Inl ex \<Rightarrow> cooled cd (trace_of (lock_loop run cmds)))"
proof (induction cmds)
  case Nil
  show ?case by simp
next
  case (Cons cmd cmds)
  then show ?case
    by (cases "attempt run cmd")
      (simp_all add: lock_loop_steps cooled_Cons_plain split: sum.splits)
qed

lemma lock_and_cooldown_cooled [simp]:
  "cooled (LOCK_COOLDOWN cfg) (trace_of (lock_and_cooldown cfg run))"
  using lock_loop_cooled [where run = run and cmds = lock_cmds and cd = "LOCK_COOLDOWN cfg"]
  by (simp add: lock_and_cooldown_eq lock_session_def split: sum.splits)

subsection \<open>The other parts of a pass write no lock line\<close>

lemma phone_absent_cooled [simp]: "cooled cd (trace_of (phone_absent cfg run))"
  by (rule cooled_plain)
    (simp add: trace_phone_absent is_phone_present_eq subprocess_run_def split: sum.splits)

lemma latest_frame_cooled [simp]: "cooled cd (trace_of (latest_frame cam fio))"
  by (rule cooled_plain) (simp add: latest_frame_eq split: option.splits)

lemma detect_faces_rgb_cooled [simp]: "cooled cd (trace_of (detect_faces_rgb cfg vis rgb))"
  using trace_detect_faces_rgb [of cfg vis rgb] by (auto intro!: cooled_plain)

lemma identity_check_cooled [simp]:
  "cooled cd (trace_of (identity_check cfg vis known rgb locs i))"
  by (rule cooled_plain) (simp add: identity_check_eq split: sum.splits list.splits)

lemma iteration_cooled:
  "cooled (LOCK_COOLDOWN cfg) (trace_of (iteration cfg vis known cam e st))"
  unfolding iteration_def one_face_def not_one_face_def
  by (intro cooled_intros)
    (auto simp: cooled_Cons_plain split: option.splits if_splits intro!: cooled_intros)

text \<open>
  C13. After every completed lock cascade of a run, successful or not, the very next
  thing the loop does is to sleep for \<^verbatim>\<open>LOCK_COOLDOWN\<close> seconds: no command is run and
  no frame is read in between, so the guard cannot lock in a tight loop.
\<close>

theorem guard_loop_cooled:
  "cooled (LOCK_COOLDOWN cfg) (trace_of (guard_loop cfg vis known cam es st))"
  by (induction es arbitrary: st)
    (auto simp: guard_loop_pass iteration_cooled cooled_append split: sum.splits)

section \<open>The states of a run\<close>

text \<open>
  \<open>reachable cfg vis known cam st0 es st\<close>: started in \<open>st0\<close>, the loop has
  completed one pass for each of the inputs \<open>es\<close>, in order, and is in state \<open>st\<close>.
  \<open>run_to\<close> computes that state.
\<close>

inductive reachable ::
    "config \<Rightarrow> vision \<Rightarrow> encoding list \<Rightarrow> int \<Rightarrow> guard_state \<Rightarrow> env list \<Rightarrow> guard_state \<Rightarrow> bool"
  for cfg vis known cam st0 where
    reachable_start: "reachable cfg vis known cam st0 [] st0"
  | reachable_pass:
      "reachable cfg vis known cam st0 es st \<Longrightarrow>
       outcome (iteration cfg vis known cam e st) = Inr st' \<Longrightarrow>
       reachable cfg vis known cam st0 (es @ [e]) st'"

fun run_to ::
    "config \<Rightarrow> vision \<Rightarrow> encoding list \<Rightarrow> int \<Rightarrow> env list \<Rightarrow> guard_state \<Rightarrow> guard_state option" where
  "run_to cfg vis known cam [] st = Some st"
| "run_to cfg vis known cam (e # es) st =
     (case outcome (iteration cfg vis known cam e st) of
        Inr st' \<Rightarrow> run_to cfg vis known cam es st'
      | Inl ex \<Rightarrow> None)"

inductive_cases reachable_NilE: "reachable cfg vis known cam st0 [] st"
inductive_cases reachable_snocE: "reachable cfg vis known cam st0 (es @ [e]) st"

lemma run_to_snoc:
  "run_to cfg vis known cam (es @ [e]) st =
     (case run_to cfg vis known cam es st of
        None \<Rightarrow> None
      | Some st1 \<Rightarrow>
          (case outcome (iteration cfg vis known cam e st1) of Inr st' \<Rightarrow> Some st' | Inl ex \<Rightarrow> None))"
  by (induction es arbitrary: st) (simp_all split: sum.splits)

lemma reachable_iff_run_to:
  "reachable cfg vis known cam st0 es st \<longleftrightarrow> run_to cfg vis known cam es st0 = Some st"
proof
  show "reachable cfg vis known cam st0 es st \<Longrightarrow> run_to cfg vis known cam es st0 = Some st"
    by (induction rule: reachable.induct) (simp_all add: run_to_snoc)
  show "run_to cfg vis known cam es st0 = Some st \<Longrightarrow> reachable cfg vis known cam st0 es st"
  proof (induction es arbitrary: st rule: rev_induct)
    case Nil
    then show ?case by (simp add: reachable_start)
  next
    case (snoc e es)
    then show ?case
      by (auto simp: run_to_snoc split: option.splits sum.splits intro: reachable_pass)
  qed
qed

text \<open>A run over \<open>es @ es'\<close> whose first passes complete goes on from the state reached.\<close>

lemma guard_loop_append:
  assumes "run_to cfg vis known cam es st = Some st'"
  shows "\<exists>t. guard_loop cfg vis known cam (es @ es') st =
              io_pre t (guard_loop cfg vis known cam es' st')"
  using assms
proof (induction es arbitrary: st)
  case Nil
  then show ?case by (auto intro: exI [of _ "[]"])
next
  case (Cons e es)
  then obtain st1 where st1: "outcome (iteration cfg vis known cam e st) = Inr st1"
    and "run_to cfg vis known cam es st1 = Some st'"
    by (auto split: sum.splits)
  with Cons.IH obtain t where
    "guard_loop cfg vis known cam (es @ es') st1 = io_pre t (guard_loop cfg vis known cam es' st')"
    by blast
  with st1 show ?case
    by (auto simp: guard_loop_pass io_pre_def)
qed

subsection \<open>What one pass does to the state\<close>

lemma iteration_state:
  assumes "outcome (iteration cfg vis known cam e st) = Inr st'"
  shows "st' = st \<or>
         st' = st\<lparr>frame_i := frame_i st + 1\<rparr> \<or>
         st' = \<lparr>last_seen_someone = now e, frame_i = frame_i st + 1\<rparr>"
  using assms
  by (auto simp: iteration_def one_face_def outcome_io_bind outcome_io_then
      split: sum.splits option.splits if_splits)

text \<open>The frame counter advances exactly on the passes that see exactly one face.\<close>

definition single_face_pass ::
    "config \<Rightarrow> vision \<Rightarrow> encoding list \<Rightarrow> int \<Rightarrow> env \<Rightarrow> guard_state \<Rightarrow> bool" where
  "single_face_pass cfg vis known cam e st =
     (case sighting_in cfg vis known cam e st of
        Some s \<Rightarrow> \<not> companion_missing s \<and> face_count s = 1
      | None \<Rightarrow> False)"

lemma iteration_frame_i:
  assumes "outcome (iteration cfg vis known cam e st) = Inr st'"
  shows "frame_i st' = frame_i st + (if single_face_pass cfg vis known cam e st then 1 else 0)"
  using assms
  by (auto simp: iteration_def one_face_def single_face_pass_def sighting_in_def
      outcome_io_bind outcome_io_then
      split: sum.splits option.splits if_splits bool.splits)

subsection \<open>Invariants\<close>

text \<open>
  The frame counter never decreases and advances by at most one per pass: after
  the passes \<open>es\<close> it lies between its start value and its start value plus the
  number of passes.
\<close>

theorem reachable_frame_i:
  assumes "reachable cfg vis known cam st0 es st"
  shows "frame_i st0 \<le> frame_i st \<and> frame_i st \<le> frame_i st0 + int (length es)"
  using assms
proof (induction rule: reachable.induct)
  case reachable_start
  show ?case by simp
next
  case (reachable_pass es st e st')
  from iteration_state [OF reachable_pass.hyps(2)] reachable_pass.IH show ?case
    by auto
qed

text \<open>
  C31. \<^verbatim>\<open>last_seen_someone\<close> is the start value or the clock reading of one of the
  passes made; if the clock readings never go back, it is never later than the
  reading of the last pass, so the elapsed time the absence rule computes is never
  negative.
\<close>

theorem reachable_last_seen:
  assumes "reachable cfg vis known cam st0 es st"
    and "sorted (last_seen_someone st0 # map now es)"
  shows "last_seen_someone st \<in> insert (last_seen_someone st0) (now ` set es) \<and>
         last_seen_someone st \<le> last (last_seen_someone st0 # map now es)"
  using assms
proof (induction rule: reachable.induct)
  case reachable_start
  show ?case by simp
next
  case (reachable_pass es st e st')
  from reachable_pass.prems have sorted: "sorted (last_seen_someone st0 # map now es)"
    and le: "\<forall>x\<in>set (last_seen_someone st0 # map now es). x \<le> now e"
    by (auto simp: sorted_append)
  from reachable_pass.IH [OF sorted]
  have "last_seen_someone st \<in> insert (last_seen_someone st0) (now ` set es)" by simp
  with le have "last_seen_someone st \<le> now e" by auto
  with iteration_state [OF reachable_pass.hyps(2)] reachable_pass.IH [OF sorted]
  show ?case by auto
qed

text \<open>The number of passes of a run that see exactly one face.\<close>

fun run_singles ::
    "config \<Rightarrow> vision \<Rightarrow> encoding list \<Rightarrow> int \<Rightarrow> env list \<Rightarrow> guard_state \<Rightarrow> nat" where
  "run_singles cfg vis known cam [] st = 0"
| "run_singles cfg vis known cam (e # es) st =
     (if single_face_pass cfg vis known cam e st then 1 else 0) +
     (case outcome (iteration cfg vis known cam e st) of
        Inr st' \<Rightarrow> run_singles cfg vis known cam es st'
      | Inl ex \<Rightarrow> 0)"

text \<open>
  C32. The frame counter counts the passes with exactly one face, not the passes:
  after a run it has advanced by the number of passes in which the phone check
  passed, a frame was read and the detectors found exactly one face. Passes that
  end with \<^verbatim>\<open>continue\<close> leave it as it is.
\<close>

theorem frame_i_counts_single_faces:
  assumes "run_to cfg vis known cam es st = Some st'"
  shows "frame_i st' = frame_i st + int (run_singles cfg vis known cam es st)"
  using assms
proof (induction es arbitrary: st)
  case Nil
  then show ?case by simp
next
  case (Cons e es)
  then obtain st1 where pass: "outcome (iteration cfg vis known cam e st) = Inr st1"
    and rest: "run_to cfg vis known cam es st1 = Some st'"
    by (auto split: sum.splits)
  from Cons.IH [OF rest] iteration_frame_i [OF pass] pass show ?case
    by simp
qed

section \<open>A run implements the decision rules\<close>

text \<open>
  What the passes of a run establish (\<open>run_sightings\<close>) and how many lock attempts
  each of them makes (\<open>run_locks\<close>), for the passes the run gets to.
\<close>

fun run_sightings ::
    "config \<Rightarrow> vision \<Rightarrow> encoding list \<Rightarrow> int \<Rightarrow> env list \<Rightarrow> guard_state \<Rightarrow> sighting option list" where
  "run_sightings cfg vis known cam [] st = []"
| "run_sightings cfg vis known cam (e # es) st =
     sighting_in cfg vis known cam e st #
     (case outcome (iteration cfg vis known cam e st) of
        Inr st' \<Rightarrow> run_sightings cfg vis known cam es st'
      | Inl ex \<Rightarrow> [])"

fun run_locks ::
    "config \<Rightarrow> vision \<Rightarrow> encoding list \<Rightarrow> int \<Rightarrow> env list \<Rightarrow> guard_state \<Rightarrow> nat list" where
  "run_locks cfg vis known cam [] st = []"
| "run_locks cfg vis known cam (e # es) st =
     lock_attempts (trace_of (iteration cfg vis known cam e st)) #
     (case outcome (iteration cfg vis known cam e st) of
        Inr st' \<Rightarrow> run_locks cfg vis known cam es st'
      | Inl ex \<Rightarrow> [])"

text \<open>The lock attempts of a run are those of its passes.\<close>

lemma lock_attempts_guard_loop:
  "lock_attempts (trace_of (guard_loop cfg vis known cam es st)) =
     sum_list (run_locks cfg vis known cam es st)"
  by (induction es arbitrary: st) (simp_all add: guard_loop_pass split: sum.splits)

text \<open>
  Pass by pass: the lock attempts of the passes are the decisions of the rules,
  applied to the sightings with the timestamp the rules prescribe.
\<close>

lemma run_refines_policy:
  assumes "list_all (\<lambda>e. \<exists>b. outcome (lock_session (procs e)) = Inr b) es"
    and "list_all (\<lambda>s. s \<noteq> None) (run_sightings cfg vis known cam es st)"
  shows "run_locks cfg vis known cam es st =
           map (\<lambda>d. if d then 1 else 0)
             (decisions (ABSENCE_TIMEOUT cfg) (last_seen_someone st)
                (map the (run_sightings cfg vis known cam es st))) \<and>
         length (run_sightings cfg vis known cam es st) = length es \<and>
         run_to cfg vis known cam es st \<noteq> None"
  using assms
proof (induction es arbitrary: st)
  case Nil
  show ?case by simp
next
  case (Cons e es)
  from Cons.prems obtain s b where s: "sighting_in cfg vis known cam e st = Some s"
    and b: "outcome (lock_session (procs e)) = Inr b"
    by auto
  from iteration_policy [OF s b] obtain tr st' where
    pass: "iteration cfg vis known cam e st = (tr, Inr st')"
    and locks: "lock_attempts tr =
        (if must_lock (ABSENCE_TIMEOUT cfg) (last_seen_someone st) s then 1 else 0)"
    and seen: "last_seen_someone st' = seen_after (last_seen_someone st) s"
    by blast
  from Cons.prems pass have "list_all (\<lambda>e. \<exists>b. outcome (lock_session (procs e)) = Inr b) es"
    and "list_all (\<lambda>s. s \<noteq> None) (run_sightings cfg vis known cam es st')"
    by simp_all
  from Cons.IH [OF this] s pass locks seen show ?case
    by simp
qed

lemma sum_list_decisions:
  "sum_list (map (\<lambda>d. if d then 1 else 0) ds) = length (filter id ds)"
  by (induction ds) simp_all

text \<open>
  C1. Refinement of the decision rules by a run. If the lock cascade is never
  interrupted and every pass establishes a sighting (the phone check answers, a
  frame is read, the detector and the encoder return), then every pass completes,
  and pass by pass the loop makes exactly one lock attempt where the rules of the
  specification demand a lock and none where they do not, the rules being applied
  to the sightings with the timestamp they prescribe; the lock attempts in the
  trace of the loop are as many as the rules demand.
\<close>

theorem guard_run_refines_policy:
  assumes "list_all (\<lambda>e. \<exists>b. outcome (lock_session (procs e)) = Inr b) es"
    and "list_all (\<lambda>s. s \<noteq> None) (run_sightings cfg vis known cam es st)"
  shows "run_locks cfg vis known cam es st =
           map (\<lambda>d. if d then 1 else 0)
             (decisions (ABSENCE_TIMEOUT cfg) (last_seen_someone st)
                (map the (run_sightings cfg vis known cam es st))) \<and>
         lock_attempts (trace_of (guard_loop cfg vis known cam es st)) =
           length (filter id
             (decisions (ABSENCE_TIMEOUT cfg) (last_seen_someone st)
                (map the (run_sightings cfg vis known cam es st)))) \<and>
         length (run_sightings cfg vis known cam es st) = length es \<and>
         run_to cfg vis known cam es st \<noteq> None"
  using run_refines_policy [OF assms]
  by (simp add: lock_attempts_guard_loop sum_list_decisions)

section \<open>Absence and sampling over several passes\<close>

text \<open>\<open>sees_nobody\<close>: the pass gets a frame and the detectors find no face in it.\<close>

definition sees_nobody :: "config \<Rightarrow> vision \<Rightarrow> int \<Rightarrow> env \<Rightarrow> bool" where
  "sees_nobody cfg vis cam e \<longleftrightarrow>
     outcome (phone_absent cfg (procs e)) = Inr False \<and>
     (case outcome (latest_frame cam (frames e)) of
        Inr (Some f) \<Rightarrow> outcome (detect_faces_rgb cfg vis (detector_input f)) = Inr []
      | _ \<Rightarrow> False)"

lemma sees_nobody_sees:
  "sees_nobody cfg vis cam e \<Longrightarrow> \<exists>t rgb. sees cfg vis cam e t rgb []"
  by (auto simp: sees_nobody_def sees_iff split: sum.splits option.splits)

lemma iteration_nobody:
  assumes "sees_nobody cfg vis cam e"
    and "outcome (lock_session (procs e)) = Inr b"
    and "ABSENCE_TIMEOUT cfg \<le> total_seconds (now e - last_seen_someone st)"
  shows "outcome (iteration cfg vis known cam e st) = Inr st \<and>
         lock_attempts (trace_of (iteration cfg vis known cam e st)) = 1"
proof -
  from sees_nobody_sees [OF assms(1)] obtain t rgb where sees: "sees cfg vis cam e t rgb []"
    by blast
  from assms(3) lock_attempts_sees [OF sees] show ?thesis
    by (simp add: iteration_sees [OF sees] not_one_face_eq [OF assms(2)])
qed

text \<open>
  C14. Absence latches. While the detectors find nobody and the absence timeout has
  been reached, every pass runs the lock cascade again and leaves the state as it
  is: \<^verbatim>\<open>last_seen_someone\<close> is not refreshed by locking, so the guard keeps locking,
  once per pass, until an authorized face is seen.
\<close>

theorem absence_latches_in_run:
  assumes "list_all (sees_nobody cfg vis cam) es"
    and "list_all (\<lambda>e. \<exists>b. outcome (lock_session (procs e)) = Inr b) es"
    and "list_all (\<lambda>e. ABSENCE_TIMEOUT cfg \<le> total_seconds (now e - last_seen_someone st)) es"
  shows "run_locks cfg vis known cam es st = replicate (length es) 1 \<and>
         run_to cfg vis known cam es st = Some st"
  using assms
proof (induction es)
  case Nil
  show ?case by simp
next
  case (Cons e es)
  then obtain b where "outcome (lock_session (procs e)) = Inr b"
    by auto
  with Cons.prems have "outcome (iteration cfg vis known cam e st) = Inr st \<and>
      lock_attempts (trace_of (iteration cfg vis known cam e st)) = 1"
    by (intro iteration_nobody) simp_all
  with Cons show ?case by simp
qed

text \<open>
  C16. Sampling. On a pass with exactly one face whose frame counter is not a
  multiple of \<^verbatim>\<open>ENCODING_EVERY_N\<close> the encoder is not run and the pass locks, whoever
  the face belongs to: the verdict of an earlier pass is not carried over.
\<close>

theorem skipped_sample_locks:
  assumes "sees cfg vis cam e t rgb [l]"
    and "ENCODING_EVERY_N cfg \<noteq> 0" and "frame_i st mod ENCODING_EVERY_N cfg \<noteq> 0"
    and "outcome (lock_session (procs e)) = Inr b"
  shows "iteration cfg vis known cam e st =
           (t @ [Log Single_face_not_authorized] @ trace_of (lock_session (procs e)) @
            [Sleep (LOCK_COOLDOWN cfg), Sleep (CHECK_INTERVAL cfg)],
            Inr \<lparr>last_seen_someone = last_seen_someone st, frame_i = frame_i st + 1\<rparr>)"
proof -
  from assms(2,3) have skip: "identity_check cfg vis known rgb [l] (frame_i st) = ([], Inr False)"
    by (simp add: identity_check_eq)
  then have "outcome (identity_check cfg vis known rgb [l] (frame_i st)) = Inr False"
    by simp
  from one_face_eq [OF this assms(4)] skip show ?thesis
    by (simp add: iteration_sees [OF assms(1)])
qed

section \<open>Scenarios\<close>

text \<open>
  The user leaves. With the slow detector switched off and one enrolled encoding at
  distance 0.3: at second 10 the user is in front of the camera, at second 12 and at
  second 17 nobody is. The guard has last seen somebody at second 3.
\<close>

definition known_user :: "encoding list" where
  "known_user = [[0.3, 0]]"

definition es_leave :: "env list" where
  "es_leave = [env_face, env_empty \<lparr>now := 12000000\<rparr>, env_empty \<lparr>now := 17000000\<rparr>]"

definition st_seen :: guard_state where
  "st_seen = \<lparr>last_seen_someone = 10000000, frame_i = 1\<rparr>"

lemma sqrt_9_100 [simp]: "sqrt (9 / 100) = 3 / 10"
  using real_sqrt_abs [of "3 / 10"] by (simp add: power2_eq_square)

lemmas pass_eval =
  iteration_def one_face_def not_one_face_def sighting_in_def scenario_defs latest_frame_eq
  detect_faces_rgb_def identity_check_eq np_min_Cons row_norms_def sq_dist_def
  lock_and_cooldown_eq lock_session_os_gnome_only total_seconds_def one_pixel_def
  known_user_def st_seen_def

lemma pass_user_present:
  "outcome (iteration cfg_hog_only vis_demo known_user 0 env_face st0) = Inr st_seen"
  "lock_attempts (trace_of (iteration cfg_hog_only vis_demo known_user 0 env_face st0)) = 0"
  "sighting_in cfg_hog_only vis_demo known_user 0 env_face st0 =
     Some \<lparr>companion_missing = False, face_count = 1, verdict = True, seen_at = 10000000\<rparr>"
  by (simp_all add: pass_eval power2_eq_square)

lemma pass_nobody:
  "outcome (iteration cfg_hog_only vis_demo known_user 0 (env_empty \<lparr>now := t\<rparr>) st) = Inr st"
  "lock_attempts (trace_of (iteration cfg_hog_only vis_demo known_user 0 (env_empty \<lparr>now := t\<rparr>) st)) =
     (if 6 \<le> real_of_int (t - last_seen_someone st) / 1000000 then 1 else 0)"
  "sighting_in cfg_hog_only vis_demo known_user 0 (env_empty \<lparr>now := t\<rparr>) st =
     Some \<lparr>companion_missing = False, face_count = 0, verdict = False, seen_at = t\<rparr>"
  by (simp_all add: pass_eval lock_attempts_def lock_cmds_def)

lemma run_leave:
  "run_to cfg_hog_only vis_demo known_user 0 es_leave st0 = Some st_seen"
  "run_locks cfg_hog_only vis_demo known_user 0 es_leave st0 = [0, 0, 1]"
  "run_sightings cfg_hog_only vis_demo known_user 0 es_leave st0 =
     [Some \<lparr>companion_missing = False, face_count = 1, verdict = True, seen_at = 10000000\<rparr>,
      Some \<lparr>companion_missing = False, face_count = 0, verdict = False, seen_at = 12000000\<rparr>,
      Some \<lparr>companion_missing = False, face_count = 0, verdict = False, seen_at = 17000000\<rparr>]"
  by (simp_all add: es_leave_def pass_user_present pass_nobody) (simp_all add: st_seen_def)

lemma lock_completes_leave:
  "list_all (\<lambda>e. \<exists>b. outcome (lock_session (procs e)) = Inr b) es_leave"
  by (auto simp: es_leave_def scenario_defs lock_session_os_gnome_only)

lemma reachable_leave: "reachable cfg_hog_only vis_demo known_user 0 st0 es_leave st_seen"
  by (simp add: reachable_iff_run_to run_leave)

theorem guard_run_refines_policy_witness:
  "run_locks cfg_hog_only vis_demo known_user 0 es_leave st0 = [0, 0, 1] \<and>
   lock_attempts (trace_of (guard_loop cfg_hog_only vis_demo known_user 0 es_leave st0)) = 1 \<and>
   decisions 6 3000000
     [\<lparr>companion_missing = False, face_count = 1, verdict = True, seen_at = 10000000\<rparr>,
      \<lparr>companion_missing = False, face_count = 0, verdict = False, seen_at = 12000000\<rparr>,
      \<lparr>companion_missing = False, face_count = 0, verdict = False, seen_at = 17000000\<rparr>] =
     [False, False, True]"
  using guard_run_refines_policy [of es_leave cfg_hog_only vis_demo known_user 0 st0]
    lock_completes_leave
  by (simp add: run_leave) (simp add: scenario_defs must_lock_def seen_after_def phase_of_def)

theorem frame_i_counts_single_faces_witness:
  "run_to cfg_hog_only vis_demo known_user 0 es_leave st0 = Some st_seen \<and>
   run_singles cfg_hog_only vis_demo known_user 0 es_leave st0 = 1 \<and>
   frame_i st_seen = frame_i st0 + 1"
  using frame_i_counts_single_faces [of cfg_hog_only vis_demo known_user 0 es_leave st0 st_seen]
  by (simp add: run_leave)
    (simp add: es_leave_def single_face_pass_def pass_user_present pass_nobody)

theorem reachable_frame_i_witness:
  "reachable cfg_hog_only vis_demo known_user 0 st0 es_leave st_seen \<and>
   frame_i st0 \<le> frame_i st_seen \<and> frame_i st_seen \<le> frame_i st0 + 3"
  using reachable_frame_i [OF reachable_leave] reachable_leave
  by (simp add: es_leave_def)

theorem reachable_last_seen_witness:
  "reachable cfg_hog_only vis_demo known_user 0 st0 es_leave st_seen \<and>
   last_seen_someone st_seen = 10000000 \<and> last_seen_someone st_seen \<le> 17000000"
proof -
  have "sorted (last_seen_someone st0 # map now es_leave)"
    by (simp add: es_leave_def scenario_defs)
  from reachable_last_seen [OF reachable_leave this] reachable_leave show ?thesis
    by (simp add: es_leave_def scenario_defs st_seen_def)
qed

text \<open>Nobody in front of the camera at seconds 10, 14 and 18, last seen at second 3.\<close>

definition es_nobody :: "env list" where
  "es_nobody = map (\<lambda>t. env_empty \<lparr>now := t\<rparr>) [10000000, 14000000, 18000000]"

lemma length_es_nobody: "length es_nobody = 3"
  by (simp add: es_nobody_def)

lemma sees_nobody_env_empty [simp]:
  "sees_nobody cfg_hog_only vis_demo 0 (env_empty \<lparr>now := t\<rparr>)"
  by (simp add: sees_nobody_def scenario_defs latest_frame_eq detect_faces_rgb_def one_pixel_def)

theorem absence_latches_in_run_witness:
  "run_locks cfg_hog_only vis_demo known_user 0 es_nobody st0 = [1, 1, 1] \<and>
   run_to cfg_hog_only vis_demo known_user 0 es_nobody st0 = Some st0"
proof -
  have "list_all (sees_nobody cfg_hog_only vis_demo 0) es_nobody"
    by (simp add: es_nobody_def)
  moreover have "list_all (\<lambda>e. \<exists>b. outcome (lock_session (procs e)) = Inr b) es_nobody"
    by (auto simp: es_nobody_def scenario_defs lock_session_os_gnome_only)
  moreover have "list_all (\<lambda>e. ABSENCE_TIMEOUT cfg_hog_only \<le>
      total_seconds (now e - last_seen_someone st0)) es_nobody"
    by (simp add: es_nobody_def scenario_defs total_seconds_def)
  ultimately show ?thesis
    using absence_latches_in_run [of cfg_hog_only vis_demo 0 es_nobody st0 known_user]
    by (simp add: length_es_nobody numeral_3_eq_3)
qed

text \<open>
  Sampling every second frame: the enrolled user sits still, and the second pass
  locks.
\<close>

definition cfg_every_2 :: config where
  "cfg_every_2 = cfg0 \<lparr>ENCODING_EVERY_N := 2\<rparr>"

lemma sees_one_face_every_2:
  "sees cfg_every_2 vis_demo 0 env_face (grabbed @ [Detect Hog 1, Log (Detected_faces 1)])
     one_pixel [(0, 1, 1, 0)]"
  by (simp add: sees_iff cfg_every_2_def scenario_defs latest_frame_eq detect_faces_rgb_def)

theorem skipped_sample_locks_witness:
  "iteration cfg_every_2 vis_demo known_user 0 env_face st_seen =
     (grabbed @ [Detect Hog 1, Log (Detected_faces 1), Log Single_face_not_authorized,
       Exec [''loginctl'', ''lock-sessions''] 5,
       Exec [''gnome-screensaver-command'', ''--lock''] 5,
       Log (Locked_via [''gnome-screensaver-command'', ''--lock'']),
       Sleep 4, Sleep 0.35],
      Inr \<lparr>last_seen_someone = 10000000, frame_i = 2\<rparr>)"
  using skipped_sample_locks [OF sees_one_face_every_2, of st_seen True known_user]
  by (simp add: cfg_every_2_def scenario_defs st_seen_def lock_session_os_gnome_only)

end
