(* ===== verification/Enrollment.thy ===== *)
theory Enrollment
  imports Face_Locator Identity_Matcher
begin

text \<open>
  The enrollment store: \<^verbatim>\<open>load_known_encodings(enroll_dir)\<close> of
  \<^verbatim>\<open>presence_guard.py\<close> (\<open>load_known_encodings\<close>) and of \<^verbatim>\<open>face_detect.py\<close>
  (\<open>fd_load_known_encodings\<close>).

  The file system is an input (\<open>fsys\<close>): what \<^verbatim>\<open>glob.glob\<close> returns for a pattern and
  what \<^verbatim>\<open>os.path.isfile\<close> and \<^verbatim>\<open>os.path.isdir\<close> answer. The body of the \<^verbatim>\<open>try\<close> for one
  file is \<open>enroll_one\<close>; it returns the encoding the file contributes, if any. The
  \<^verbatim>\<open>for\<close> loop with its handler is \<open>enroll_loop\<close>, which carries the list
  \<^verbatim>\<open>encodings\<close>.

  \<open>enrolled\<close> is the contract: the encoding a file contributes, as a function of
  what the library answers for it. \<open>enroll_loop_outcome\<close> shows that the loop
  computes it file by file.
\<close>

section \<open>Paths and the file system\<close>

record fsys =
  glob :: "path \<Rightarrow> path list"
  isfile :: "path \<Rightarrow> bool"
  isdir :: "path \<Rightarrow> bool"

text \<open>\<^verbatim>\<open>os.path.join(a, b)\<close> and \<^verbatim>\<open>os.path.basename(p)\<close> on POSIX paths.\<close>

definition path_join :: "path \<Rightarrow> path \<Rightarrow> path" where
  "path_join a b =
     (if b \<noteq> [] \<and> hd b = CHR ''/'' then b
      else if a = [] \<or> last a = CHR ''/'' then a @ b
      else a @ ''/'' @ b)"

definition basename :: "path \<Rightarrow> string" where
  "basename p = rev (takeWhile (\<lambda>c. c \<noteq> CHR ''/'') (rev p))"

text \<open>The files the loop goes through: every match of \<^verbatim>\<open>enroll_dir/*\<close> that is a regular file.\<close>

definition enroll_files :: "fsys \<Rightarrow> path \<Rightarrow> path list" where
  "enroll_files fs enroll_dir = filter (isfile fs) (glob fs (path_join enroll_dir ''*''))"

section \<open>One file\<close>

definition call_load_image_file :: "vision \<Rightarrow> path \<Rightarrow> image io" where
  "call_load_image_file vis f = io_pre [Load_image f] (io_lift (load_image_file vis f))"

text \<open>The body of the \<^verbatim>\<open>try\<close> in \<^verbatim>\<open>presence_guard.py\<close>.\<close>

definition enroll_one :: "vision \<Rightarrow> path \<Rightarrow> encoding option io" where
  "enroll_one vis f =
     io_bind (call_load_image_file vis f) (\<lambda>img.
     io_bind (call_face_locations vis img 1 Hog) (\<lambda>locs.
       if locs = [] then io_then (log (No_face_in_enroll_image f)) (io_return None)
       else
         io_bind (call_face_encodings vis img locs) (\<lambda>enc.
           case enc of
             [] \<Rightarrow> io_return None
           | e # _ \<Rightarrow> io_then (log (Loaded_enrollment_face (basename f))) (io_return (Some e)))))"

text \<open>
  The body of the \<^verbatim>\<open>try\<close> in \<^verbatim>\<open>face_detect.py\<close>: \<^verbatim>\<open>face_encodings(...)[0]\<close> raises
  \<^verbatim>\<open>IndexError\<close> on an empty list.
\<close>

definition fd_enroll_one :: "vision \<Rightarrow> path \<Rightarrow> encoding option io" where
  "fd_enroll_one vis f =
     io_bind (call_load_image_file vis f) (\<lambda>img.
     io_bind (call_face_locations vis img 1 Hog) (\<lambda>locs.
       if locs = [] then io_then (log (No_face_in_enroll_image f)) (io_return None)
       else
         io_bind (call_face_encodings vis img locs) (\<lambda>enc.
           case enc of
             [] \<Rightarrow> io_raise IndexError
           | e # _ \<Rightarrow> io_then (log (Loaded_enrollment_face (basename f))) (io_return (Some e)))))"

section \<open>The loop\<close>

text \<open>\<^verbatim>\<open>encodings.append\<close> when the file contributed an encoding.\<close>

definition append_opt :: "encoding list \<Rightarrow> encoding option \<Rightarrow> encoding list" where
  "append_opt encs r = (case r of None \<Rightarrow> encs | Some e \<Rightarrow> encs @ [e])"

text \<open>
  The \<^verbatim>\<open>for\<close> loop over the files, parameterised by the body of the \<^verbatim>\<open>try\<close>; the
  handler logs the exception and the loop goes on with the next file.
\<close>

fun enroll_loop ::
    "(path \<Rightarrow> encoding option io) \<Rightarrow> path list \<Rightarrow> encoding list \<Rightarrow> encoding list io" where
  "enroll_loop body [] encs = io_return encs"
| "enroll_loop body (f # fs) encs =
     io_bind
       (io_try (body f)
          (except_Exception (\<lambda>e. io_then (log (Error_loading f e)) (io_return None))))
       (\<lambda>r. enroll_loop body fs (append_opt encs r))"

text \<open>\<^verbatim>\<open>return np.array(encodings) if encodings else None\<close>.\<close>

definition load_known_encodings :: "fsys \<Rightarrow> vision \<Rightarrow> path \<Rightarrow> encoding list option io" where
  "load_known_encodings fs vis enroll_dir =
     io_bind (enroll_loop (enroll_one vis) (enroll_files fs enroll_dir) [])
       (\<lambda>encs. io_return (if encs = [] then None else Some encs))"

text \<open>\<^verbatim>\<open>face_detect.py\<close>: no \<^verbatim>\<open>isfile\<close> filter, and the list itself is returned.\<close>

definition fd_load_known_encodings :: "fsys \<Rightarrow> vision \<Rightarrow> path \<Rightarrow> encoding list io" where
  "fd_load_known_encodings fs vis enroll_dir =
     enroll_loop (fd_enroll_one vis) (glob fs (path_join enroll_dir ''*'')) []"

lemmas enroll_defs [guard_defs] =
  path_join_def basename_def enroll_files_def call_load_image_file_def enroll_one_def
  fd_enroll_one_def append_opt_def load_known_encodings_def fd_load_known_encodings_def

section \<open>Paths\<close>

lemma no_slash_rev: "CHR ''/'' \<notin> set name \<Longrightarrow> x \<in> set (rev name) \<Longrightarrow> x \<noteq> CHR ''/''"
  by (metis set_rev)

lemma basename_plain: "CHR ''/'' \<notin> set name \<Longrightarrow> basename name = name"
  using takeWhile_eq_all_conv [of "\<lambda>c. c \<noteq> CHR ''/''" "rev name"]
  by (simp only: basename_def) (metis no_slash_rev rev_rev_ident)

lemma basename_after_slash:
  assumes "CHR ''/'' \<notin> set name"
  shows "basename (d @ CHR ''/'' # name) = name"
proof -
  have "takeWhile (\<lambda>c. c \<noteq> CHR ''/'') (rev name @ CHR ''/'' # rev d) = rev name"
    by (subst takeWhile_append2) (simp_all add: no_slash_rev [OF assms])
  then show ?thesis by (simp add: basename_def)
qed

text \<open>The name logged for an enrolled file is the name it has in the directory.\<close>

lemma basename_path_join:
  assumes "CHR ''/'' \<notin> set name"
  shows "basename (path_join dir name) = name"
proof -
  have rel: "\<not> (name \<noteq> [] \<and> hd name = CHR ''/'')"
    using assms by (metis hd_in_set)
  consider "dir = []" | "dir \<noteq> []" "last dir = CHR ''/''" | "dir \<noteq> []" "last dir \<noteq> CHR ''/''"
    by blast
  then show ?thesis
  proof cases
    case 1
    with rel assms show ?thesis
      by (simp only: path_join_def basename_plain if_False if_True simp_thms append_Nil)
  next
    case 2
    then have "dir = butlast dir @ [CHR ''/'']"
      by (metis append_butlast_last_id)
    then have "path_join dir name = butlast dir @ CHR ''/'' # name"
      using rel 2 by (simp only: path_join_def if_False if_True simp_thms) (metis append.assoc append_Cons append_Nil)
    with assms show ?thesis
      by (simp add: basename_after_slash)
  next
    case 3
    with rel have "path_join dir name = dir @ CHR ''/'' # name"
      by (simp only: path_join_def if_False if_True simp_thms append_Cons append_Nil)
    with assms show ?thesis
      by (simp add: basename_after_slash)
  qed
qed

section \<open>The contract of one file\<close>

text \<open>
  What the library answers for a file decides what the file contributes: the first
  encoding of the faces found, nothing because no face was found, nothing because
  no encoding was computed, or the exception of the first call that raised.
\<close>

datatype enroll_result = Enrolled encoding | No_face | No_encoding | Raised exn

definition enrolled :: "vision \<Rightarrow> path \<Rightarrow> enroll_result" where
  "enrolled vis f =
     (case load_image_file vis f of
        Inl e \<Rightarrow> Raised e
      | Inr img \<Rightarrow>
          (case face_locations vis img 1 Hog of
             Inl e \<Rightarrow> Raised e
           | Inr [] \<Rightarrow> No_face
           | Inr locs \<Rightarrow>
               (case face_encodings vis img locs of
                  Inl e \<Rightarrow> Raised e
                | Inr [] \<Rightarrow> No_encoding
                | Inr (e # _) \<Rightarrow> Enrolled e)))"

text \<open>
  The effects of the body: load, detect and encode, as far as it gets, and the
  log line of the case.
\<close>

definition enroll_trace :: "vision \<Rightarrow> path \<Rightarrow> effect list" where
  "enroll_trace vis f =
     Load_image f #
     (case load_image_file vis f of
        Inl e \<Rightarrow> []
      | Inr img \<Rightarrow>
          Detect Hog 1 #
          (case face_locations vis img 1 Hog of
             Inl e \<Rightarrow> []
           | Inr [] \<Rightarrow> [Log (No_face_in_enroll_image f)]
           | Inr locs \<Rightarrow>
               Encode #
               (case face_encodings vis img locs of
                  Inr (e # _) \<Rightarrow> [Log (Loaded_enrollment_face (basename f))]
                | _ \<Rightarrow> [])))"

section \<open>One file, in closed form\<close>

lemma call_load_image_file_eval [simp]:
  "call_load_image_file vis f = ([Load_image f], load_image_file vis f)"
  by (simp add: call_load_image_file_def)

text \<open>The two bodies differ in what they do with an empty list of encodings.\<close>

definition enroll_body :: "encoding option io \<Rightarrow> vision \<Rightarrow> path \<Rightarrow> encoding option io" where
  "enroll_body on_empty vis f =
     io_bind (call_load_image_file vis f) (\<lambda>img.
     io_bind (call_face_locations vis img 1 Hog) (\<lambda>locs.
       if locs = [] then io_then (log (No_face_in_enroll_image f)) (io_return None)
       else
         io_bind (call_face_encodings vis img locs) (\<lambda>enc.
           case enc of
             [] \<Rightarrow> on_empty
           | e # _ \<Rightarrow> io_then (log (Loaded_enrollment_face (basename f))) (io_return (Some e)))))"

lemma enroll_one_body: "enroll_one vis f = enroll_body (io_return None) vis f"
  by (simp only: enroll_one_def enroll_body_def)

lemma fd_enroll_one_body: "fd_enroll_one vis f = enroll_body (io_raise IndexError) vis f"
  by (simp only: fd_enroll_one_def enroll_body_def)

lemma enroll_body_eq:
  "enroll_body ([], r) vis f =
     (enroll_trace vis f,
      case enrolled vis f of
        Enrolled e \<Rightarrow> Inr (Some e) | No_face \<Rightarrow> Inr None | No_encoding \<Rightarrow> r | Raised ex \<Rightarrow> Inl ex)"
proof (cases "load_image_file vis f")
  case (Inl e)
  then show ?thesis
    by (simp add: enroll_body_def enroll_trace_def enrolled_def)
next
  case img: (Inr img)
  show ?thesis
  proof (cases "face_locations vis img 1 Hog")
    case (Inl e)
    with img show ?thesis
      by (simp add: enroll_body_def enroll_trace_def enrolled_def)
  next
    case locs: (Inr locs)
    show ?thesis
    proof (cases locs)
      case Nil
      with img locs show ?thesis
        by (simp add: enroll_body_def enroll_trace_def enrolled_def)
    next
      case (Cons l ls)
      with img locs show ?thesis
        by (cases "face_encodings vis img (l # ls)"; cases "projr (face_encodings vis img (l # ls))")
          (simp_all add: enroll_body_def enroll_trace_def enrolled_def call_face_encodings_def)
    qed
  qed
qed

lemma enroll_one_eq:
  "enroll_one vis f =
     (enroll_trace vis f,
      case enrolled vis f of
        Enrolled e \<Rightarrow> Inr (Some e) | No_face \<Rightarrow> Inr None | No_encoding \<Rightarrow> Inr None
      | Raised ex \<Rightarrow> Inl ex)"
  by (simp add: enroll_one_body enroll_body_eq)

lemma fd_enroll_one_eq:
  "fd_enroll_one vis f =
     (enroll_trace vis f,
      case enrolled vis f of
        Enrolled e \<Rightarrow> Inr (Some e) | No_face \<Rightarrow> Inr None | No_encoding \<Rightarrow> Inl IndexError
      | Raised ex \<Rightarrow> Inl ex)"
  by (simp add: fd_enroll_one_body enroll_body_eq)

section \<open>The guarded body\<close>

text \<open>
  What the \<^verbatim>\<open>try\<close> statement as a whole yields for a file: the handler turns every
  \<^verbatim>\<open>Exception\<close> into ``nothing'' and lets the interrupt through.
\<close>

definition contributes :: "enroll_result \<Rightarrow> encoding option res" where
  "contributes r =
     (case r of
        Enrolled e \<Rightarrow> Inr (Some e)
      | No_face \<Rightarrow> Inr None
      | No_encoding \<Rightarrow> Inr None
      | Raised ex \<Rightarrow> if is_Exception ex then Inr None else Inl ex)"

text \<open>The log line of the handler, in each of the two scripts.\<close>

definition error_log :: "path \<Rightarrow> enroll_result \<Rightarrow> effect list" where
  "error_log f r =
     (case r of Raised ex \<Rightarrow> if is_Exception ex then [Log (Error_loading f ex)] else [] | _ \<Rightarrow> [])"

definition fd_error_log :: "path \<Rightarrow> enroll_result \<Rightarrow> effect list" where
  "fd_error_log f r =
     (case r of No_encoding \<Rightarrow> [Log (Error_loading f IndexError)] | _ \<Rightarrow> error_log f r)"

definition guarded :: "(path \<Rightarrow> encoding option io) \<Rightarrow> path \<Rightarrow> encoding option io" where
  "guarded body f =
     io_try (body f) (except_Exception (\<lambda>e. io_then (log (Error_loading f e)) (io_return None)))"

lemma guarded_enroll_one:
  "guarded (enroll_one vis) f =
     (enroll_trace vis f @ error_log f (enrolled vis f), contributes (enrolled vis f))"
  by (cases "enrolled vis f")
    (simp_all add: guarded_def enroll_one_eq contributes_def error_log_def except_Exception_def)

lemma guarded_fd_enroll_one:
  "guarded (fd_enroll_one vis) f =
     (enroll_trace vis f @ fd_error_log f (enrolled vis f), contributes (enrolled vis f))"
  by (cases "enrolled vis f")
    (simp_all add: guarded_def fd_enroll_one_eq contributes_def error_log_def fd_error_log_def
      except_Exception_def)

lemma enroll_loop_Cons:
  "enroll_loop body (f # fs) encs =
     io_bind (guarded body f) (\<lambda>r. enroll_loop body fs (append_opt encs r))"
  by (simp add: guarded_def)

declare enroll_loop.simps(2) [simp del]

section \<open>The contract of the loop\<close>

fun enroll_spec :: "vision \<Rightarrow> path list \<Rightarrow> encoding list \<Rightarrow> encoding list res" where
  "enroll_spec vis [] encs = Inr encs"
| "enroll_spec vis (f # fs) encs =
     (case contributes (enrolled vis f) of
        Inl ex \<Rightarrow> Inl ex
      | Inr r \<Rightarrow> enroll_spec vis fs (append_opt encs r))"

lemma enroll_loop_outcome:
  "outcome (enroll_loop (enroll_one vis) fs encs) = enroll_spec vis fs encs"
  by (induction fs arbitrary: encs)
    (simp_all add: enroll_loop_Cons guarded_enroll_one split: sum.splits)

lemma fd_enroll_loop_outcome:
  "outcome (enroll_loop (fd_enroll_one vis) fs encs) = enroll_spec vis fs encs"
  by (induction fs arbitrary: encs)
    (simp_all add: enroll_loop_Cons guarded_fd_enroll_one split: sum.splits)

text \<open>The encodings of the files that contribute one, in the order of the files.\<close>

definition enrolled_encodings :: "vision \<Rightarrow> path list \<Rightarrow> encoding list" where
  "enrolled_encodings vis fs =
     List.map_filter (\<lambda>f. case enrolled vis f of Enrolled e \<Rightarrow> Some e | _ \<Rightarrow> None) fs"

text \<open>No library call is interrupted while the files \<open>fs\<close> are processed.\<close>

definition uninterrupted :: "vision \<Rightarrow> path list \<Rightarrow> bool" where
  "uninterrupted vis fs = list_all (\<lambda>f. enrolled vis f \<noteq> Raised KeyboardInterrupt) fs"

lemma contributes_uninterrupted:
  "enrolled vis f \<noteq> Raised KeyboardInterrupt \<Longrightarrow>
     contributes (enrolled vis f) =
       Inr (case enrolled vis f of Enrolled e \<Rightarrow> Some e | _ \<Rightarrow> None)"
  by (cases "enrolled vis f") (auto simp: contributes_def is_Exception_iff)

lemma enrolled_encodings_simps [simp]:
  "enrolled_encodings vis [] = []"
  "enrolled_encodings vis (f # fs) =
     (case enrolled vis f of Enrolled e \<Rightarrow> [e] | _ \<Rightarrow> []) @ enrolled_encodings vis fs"
  by (simp_all add: enrolled_encodings_def List.map_filter_def split: enroll_result.splits)

lemma uninterrupted_simps [simp]:
  "uninterrupted vis []"
  "uninterrupted vis (f # fs) \<longleftrightarrow>
     enrolled vis f \<noteq> Raised KeyboardInterrupt \<and> uninterrupted vis fs"
  by (simp_all add: uninterrupted_def)

lemma enroll_spec_uninterrupted:
  "uninterrupted vis fs \<Longrightarrow> enroll_spec vis fs encs = Inr (encs @ enrolled_encodings vis fs)"
proof (induction fs arbitrary: encs)
  case Nil
  show ?case by simp
next
  case (Cons f fs)
  then have "enroll_spec vis (f # fs) encs =
      Inr (append_opt encs (case enrolled vis f of Enrolled e \<Rightarrow> Some e | _ \<Rightarrow> None) @
           enrolled_encodings vis fs)"
    by (simp add: contributes_uninterrupted)
  then show ?case
    by (simp add: append_opt_def split: enroll_result.splits)
qed

lemma enroll_spec_Inr:
  "enroll_spec vis fs encs = Inr r \<Longrightarrow> uninterrupted vis fs \<and> r = encs @ enrolled_encodings vis fs"
proof (induction fs arbitrary: encs)
  case Nil
  then show ?case by simp
next
  case (Cons f fs)
  from Cons.prems obtain x where x: "contributes (enrolled vis f) = Inr x"
    and rest: "enroll_spec vis fs (append_opt encs x) = Inr r"
    by (auto split: sum.splits)
  from x have "enrolled vis f \<noteq> Raised KeyboardInterrupt"
    and "append_opt encs x = encs @ (case enrolled vis f of Enrolled e \<Rightarrow> [e] | _ \<Rightarrow> [])"
    by (auto simp: contributes_def append_opt_def split: enroll_result.splits if_splits)
  with Cons.IH [OF rest] show ?case by simp
qed

lemma enroll_spec_Inl: "enroll_spec vis fs encs = Inl ex \<Longrightarrow> ex = KeyboardInterrupt"
proof (induction fs arbitrary: encs)
  case Nil
  then show ?case by simp
next
  case (Cons f fs)
  then show ?case
    by (cases "enrolled vis f")
      (auto simp: contributes_def not_is_Exception_iff split: if_splits)
qed

section \<open>What enrollment returns\<close>

lemma load_known_encodings_eq:
  "outcome (load_known_encodings fs vis enroll_dir) =
     (case enroll_spec vis (enroll_files fs enroll_dir) [] of
        Inl ex \<Rightarrow> Inl ex
      | Inr encs \<Rightarrow> Inr (if encs = [] then None else Some encs))"
  by (simp add: load_known_encodings_def outcome_io_bind enroll_loop_outcome split: sum.splits)

text \<open>
  C23. Unless a library call is interrupted, \<^verbatim>\<open>load_known_encodings\<close> returns the
  first encodings of the regular files matching \<^verbatim>\<open>enroll_dir/*\<close> in which a face is
  found and encoded, in the order of the files, and \<^verbatim>\<open>None\<close> if there is no such
  file. Files that cannot be loaded, that show no face or that raise in the detector
  or the encoder are skipped.
\<close>

theorem load_known_encodings_result:
  assumes "uninterrupted vis (enroll_files fs enroll_dir)"
  shows "outcome (load_known_encodings fs vis enroll_dir) =
           Inr (if enrolled_encodings vis (enroll_files fs enroll_dir) = [] then None
                else Some (enrolled_encodings vis (enroll_files fs enroll_dir)))"
  by (simp add: load_known_encodings_eq enroll_spec_uninterrupted [OF assms])

text \<open>
  Enrollment absorbs every \<^verbatim>\<open>Exception\<close>: it ends with the interrupt or it
  returns, and what it returns is \<^verbatim>\<open>None\<close> or a non-empty list, never an empty one.
\<close>

theorem load_known_encodings_outcome:
  "(case outcome (load_known_encodings fs vis enroll_dir) of
      Inl ex \<Rightarrow> ex = KeyboardInterrupt
    | Inr None \<Rightarrow> True
    | Inr (Some encs) \<Rightarrow> encs \<noteq> [])"
  by (auto simp: load_known_encodings_eq split: sum.splits option.splits if_splits
      dest: enroll_spec_Inl)

lemma load_known_encodings_interrupt:
  "outcome (load_known_encodings fs vis enroll_dir) = Inl ex \<Longrightarrow> ex = KeyboardInterrupt"
  by (auto simp: load_known_encodings_eq split: sum.splits dest: enroll_spec_Inl)

lemma load_known_encodings_Some:
  assumes "outcome (load_known_encodings fs vis enroll_dir) = Inr (Some known)"
  shows "known \<noteq> [] \<and> known = enrolled_encodings vis (enroll_files fs enroll_dir)"
  using assms
  by (auto simp: load_known_encodings_eq split: sum.splits if_splits dest: enroll_spec_Inr)

section \<open>The two versions\<close>

lemma fd_load_known_encodings_eq:
  "outcome (fd_load_known_encodings fs vis enroll_dir) =
     enroll_spec vis (glob fs (path_join enroll_dir ''*'')) []"
  by (simp add: fd_load_known_encodings_def fd_enroll_loop_outcome)

text \<open>Files that contribute nothing can be left out.\<close>

lemma enroll_spec_filter:
  assumes "\<And>f. f \<in> set fs \<Longrightarrow> \<not> P f \<Longrightarrow> contributes (enrolled vis f) = Inr None"
  shows "enroll_spec vis (filter P fs) encs = enroll_spec vis fs encs"
  using assms
proof (induction fs arbitrary: encs)
  case Nil
  show ?case by simp
next
  case (Cons f fs)
  then show ?case
    by (cases "P f") (simp_all add: append_opt_def split: sum.splits)
qed

text \<open>
  The two scripts enroll the same encodings, provided that the matches of
  \<^verbatim>\<open>enroll_dir/*\<close> that are not regular files contribute nothing (loading a directory
  raises): \<^verbatim>\<open>presence_guard.py\<close> filters them out beforehand, \<^verbatim>\<open>face_detect.py\<close>
  tries them and logs the error.
\<close>

theorem fd_load_same_encodings:
  assumes "\<forall>f\<in>set (glob fs (path_join enroll_dir ''*'')).
             \<not> isfile fs f \<longrightarrow> contributes (enrolled vis f) = Inr None"
  shows "outcome (load_known_encodings fs vis enroll_dir) =
           (case outcome (fd_load_known_encodings fs vis enroll_dir) of
              Inl ex \<Rightarrow> Inl ex
            | Inr encs \<Rightarrow> Inr (if encs = [] then None else Some encs))"
  using assms
  by (simp add: load_known_encodings_eq fd_load_known_encodings_eq enroll_files_def
      enroll_spec_filter)

section \<open>The effects of enrollment\<close>

definition enroll_log :: "path list \<Rightarrow> log_msg \<Rightarrow> bool" where
  "enroll_log files m =
     (case m of
        No_face_in_enroll_image f \<Rightarrow> f \<in> set files
      | Loaded_enrollment_face name \<Rightarrow> name \<in> basename ` set files
      | Error_loading f ex \<Rightarrow> f \<in> set files \<and> is_Exception ex
      | _ \<Rightarrow> False)"

definition enroll_effect :: "path list \<Rightarrow> effect \<Rightarrow> bool" where
  "enroll_effect files ev =
     (case ev of
        Load_image f \<Rightarrow> f \<in> set files
      | Detect dm u \<Rightarrow> dm = Hog \<and> u = 1
      | Encode \<Rightarrow> True
      | Log m \<Rightarrow> enroll_log files m
      | _ \<Rightarrow> False)"

lemma enroll_log_simps [simp]:
  "enroll_log files (No_face_in_enroll_image f) \<longleftrightarrow> f \<in> set files"
  "enroll_log files (Loaded_enrollment_face name) \<longleftrightarrow> name \<in> basename ` set files"
  "enroll_log files (Error_loading f ex) \<longleftrightarrow> f \<in> set files \<and> is_Exception ex"
  "\<not> enroll_log files (Crashed ex)"
  "\<not> enroll_log files Stopped_by_user"
  by (simp_all add: enroll_log_def)

lemma enroll_effect_simps [simp]:
  "enroll_effect files (Load_image f) \<longleftrightarrow> f \<in> set files"
  "enroll_effect files (Detect dm u) \<longleftrightarrow> dm = Hog \<and> u = 1"
  "enroll_effect files Encode"
  "enroll_effect files (Log m) \<longleftrightarrow> enroll_log files m"
  by (simp_all add: enroll_effect_def)

lemma enroll_log_mono:
  "set files \<subseteq> set files' \<Longrightarrow> enroll_log files m \<Longrightarrow> enroll_log files' m"
  by (cases m) (auto simp: enroll_log_def)

lemma enroll_effect_mono:
  "set files \<subseteq> set files' \<Longrightarrow> enroll_effect files ev \<Longrightarrow> enroll_effect files' ev"
  by (cases ev) (auto simp: enroll_effect_def intro: enroll_log_mono)

lemma enroll_effect_hd:
  "list_all (enroll_effect [f]) t \<Longrightarrow> list_all (enroll_effect (f # fs)) t"
  by (erule list.pred_mono_strong) (rule enroll_effect_mono [of "[f]"], simp_all)

lemma enroll_effect_tl:
  "list_all (enroll_effect fs) t \<Longrightarrow> list_all (enroll_effect (f # fs)) t"
  by (erule list.pred_mono_strong) (rule enroll_effect_mono [of fs], auto)

lemma enroll_trace_effects: "list_all (enroll_effect [f]) (enroll_trace vis f)"
  by (simp add: enroll_trace_def split: sum.splits list.splits)

lemma error_log_effects [simp]:
  "list_all (enroll_effect [f]) (error_log f r)"
  "list_all (enroll_effect [f]) (fd_error_log f r)"
  by (simp_all add: error_log_def fd_error_log_def split: enroll_result.splits)

lemma enroll_loop_effects:
  assumes "\<And>f. \<exists>t. trace_of (guarded body f) = enroll_trace vis f @ t \<and> list_all (enroll_effect [f]) t"
  shows "list_all (enroll_effect fs) (trace_of (enroll_loop body fs encs))"
proof (induction fs arbitrary: encs)
  case Nil
  show ?case by simp
next
  case (Cons f fs)
  have step: "list_all (enroll_effect (f # fs)) (trace_of (guarded body f))"
    using assms [of f] enroll_trace_effects [of f vis]
    by (auto intro!: enroll_effect_hd [of f _ fs])
  have rest: "list_all (enroll_effect (f # fs)) (trace_of (enroll_loop body fs encs'))" for encs'
    by (rule enroll_effect_tl) (rule Cons.IH)
  show ?case
    unfolding enroll_loop_Cons by (intro trace_intros step rest)
qed

lemma enroll_effect_quiet: "enroll_effect files ev \<Longrightarrow> quiet ev \<and> camera_neutral ev"
  by (cases ev) (simp_all add: enroll_effect_def)

text \<open>
  Enrollment only reads: it loads files of the enrollment listing, runs the
  fast detector with upsampling 1 and the encoder, and writes its three kinds of log
  lines about these files. It runs no command and does not touch the camera.
\<close>

lemma load_known_encodings_trace:
  "list_all (enroll_effect (enroll_files fs enroll_dir))
     (trace_of (load_known_encodings fs vis enroll_dir))"
proof -
  have "list_all (enroll_effect fs') (trace_of (enroll_loop (enroll_one vis) fs' []))" for fs'
    by (rule enroll_loop_effects [where vis = vis]) (simp add: guarded_enroll_one)
  then show ?thesis
    by (simp add: load_known_encodings_def trace_io_bind split: sum.splits)
qed

lemma load_known_encodings_quiet [simp]:
  "list_all quiet (trace_of (load_known_encodings fs vis enroll_dir))"
  "list_all camera_neutral (trace_of (load_known_encodings fs vis enroll_dir))"
  using load_known_encodings_trace [of fs enroll_dir vis]
  by (auto simp: list_all_iff dest: enroll_effect_quiet)

text \<open>\<^verbatim>\<open>face_detect.py\<close> does the same over every match of the pattern.\<close>

lemma fd_load_known_encodings_trace:
  "list_all (enroll_effect (glob fs (path_join enroll_dir ''*'')))
     (trace_of (fd_load_known_encodings fs vis enroll_dir))"
  unfolding fd_load_known_encodings_def
  by (rule enroll_loop_effects [where vis = vis])
    (auto simp: guarded_fd_enroll_one fd_error_log_def error_log_def split: enroll_result.splits)

lemma fd_load_known_encodings_quiet [simp]:
  "list_all quiet (trace_of (fd_load_known_encodings fs vis enroll_dir))"
  "list_all camera_neutral (trace_of (fd_load_known_encodings fs vis enroll_dir))"
  using fd_load_known_encodings_trace [of fs enroll_dir vis]
  by (auto simp: list_all_iff dest: enroll_effect_quiet)

section \<open>The log of enrollment\<close>

text \<open>
  The log lines a file leaves in \<^verbatim>\<open>presence_guard.py\<close>: its name when it was enrolled,
  a warning when no face was found, the error when a call raised an \<^verbatim>\<open>Exception\<close>, and
  nothing when the encoder returned an empty list.
\<close>

definition enroll_lines :: "vision \<Rightarrow> path \<Rightarrow> log_msg list" where
  "enroll_lines vis f =
     (case enrolled vis f of
        Enrolled e \<Rightarrow> [Loaded_enrollment_face (basename f)]
      | No_face \<Rightarrow> [No_face_in_enroll_image f]
      | No_encoding \<Rightarrow> []
      | Raised ex \<Rightarrow> if is_Exception ex then [Error_loading f ex] else [])"

lemma logs_enroll_trace:
  "logs (enroll_trace vis f) @ logs (error_log f (enrolled vis f)) @ ms = enroll_lines vis f @ ms"
  by (simp add: enroll_trace_def enroll_lines_def enrolled_def error_log_def
      split: sum.splits list.splits)

text \<open>The trace of the loop, file by file.\<close>

lemma enroll_loop_trace:
  assumes "\<And>f. guarded body f = (tr f, contributes (enrolled vis f))"
    and "uninterrupted vis fs"
  shows "trace_of (enroll_loop body fs encs) = concat (map tr fs)"
  using assms(2)
  by (induction fs arbitrary: encs)
    (simp_all add: enroll_loop_Cons assms(1) contributes_uninterrupted)

lemma load_known_encodings_trace_eq:
  assumes "uninterrupted vis (enroll_files fs enroll_dir)"
  shows "trace_of (load_known_encodings fs vis enroll_dir) =
           concat (map (\<lambda>f. enroll_trace vis f @ error_log f (enrolled vis f))
             (enroll_files fs enroll_dir))"
  using assms
  by (simp add: load_known_encodings_def trace_io_bind
      enroll_loop_trace [where vis = vis, OF guarded_enroll_one] enroll_loop_outcome
      enroll_spec_uninterrupted)

lemma logs_enroll_files:
  "logs (concat (map (\<lambda>f. enroll_trace vis f @ error_log f (enrolled vis f)) files)) =
     concat (map (enroll_lines vis) files)"
  by (induction files) (simp_all add: logs_enroll_trace)

text \<open>
  C33. Every file of the listing is accounted for in the log, in the order of the
  listing: its name when it was enrolled, a warning with its path when no face was
  found in it, the error when a call raised an \<^verbatim>\<open>Exception\<close>; only a file whose face
  the encoder returned nothing for leaves no line.
\<close>

theorem enrollment_log:
  assumes "uninterrupted vis (enroll_files fs enroll_dir)"
  shows "logs (trace_of (load_known_encodings fs vis enroll_dir)) =
           concat (map (enroll_lines vis) (enroll_files fs enroll_dir))"
  by (simp add: load_known_encodings_trace_eq [OF assms] logs_enroll_files)

text \<open>
  One line ``Loaded enrollment face'' per encoding returned and one warning per
  file without a face.
\<close>

fun is_loaded :: "log_msg \<Rightarrow> bool" where
  "is_loaded (Loaded_enrollment_face name) = True"
| "is_loaded m = False"

fun is_warning :: "log_msg \<Rightarrow> bool" where
  "is_warning (No_face_in_enroll_image f) = True"
| "is_warning m = False"

lemma enroll_lines_counts:
  "length (filter is_loaded (concat (map (enroll_lines vis) files))) =
     length (enrolled_encodings vis files)"
  "length (filter is_warning (concat (map (enroll_lines vis) files))) =
     length (filter (\<lambda>f. enrolled vis f = No_face) files)"
  by (induction files) (simp_all add: enroll_lines_def split: enroll_result.splits)

theorem enrollment_counts:
  assumes "outcome (load_known_encodings fs vis enroll_dir) = Inr (Some known)"
  shows "length (filter is_loaded (logs (trace_of (load_known_encodings fs vis enroll_dir)))) =
           length known"
    and "length (filter is_warning (logs (trace_of (load_known_encodings fs vis enroll_dir)))) =
           length (filter (\<lambda>f. enrolled vis f = No_face) (enroll_files fs enroll_dir))"
proof -
  from assms have "uninterrupted vis (enroll_files fs enroll_dir)"
    and "known = enrolled_encodings vis (enroll_files fs enroll_dir)"
    by (auto simp: load_known_encodings_eq split: sum.splits if_splits dest: enroll_spec_Inr)
  then show
    "length (filter is_loaded (logs (trace_of (load_known_encodings fs vis enroll_dir)))) =
       length known"
    "length (filter is_warning (logs (trace_of (load_known_encodings fs vis enroll_dir)))) =
       length (filter (\<lambda>f. enrolled vis f = No_face) (enroll_files fs enroll_dir))"
    by (simp_all add: load_known_encodings_trace_eq logs_enroll_files enroll_lines_counts)
qed

section \<open>Scenarios\<close>

text \<open>
  An enrollment directory with a photo of the user, a sub-directory and a photo
  without a face. A directory cannot be loaded as an image; in the photo without a
  face the detector finds nothing.
\<close>

definition fs_demo :: fsys where
  "fs_demo =
     \<lparr> glob = (\<lambda>pat. if pat = ''/home/u/.face_enroll/*''
                       then [''/home/u/.face_enroll/me.jpg'', ''/home/u/.face_enroll/old'',
                             ''/home/u/.face_enroll/wall.png'']
                       else []),
       isfile = (\<lambda>p. p \<in> {''/home/u/.face_enroll/me.jpg'', ''/home/u/.face_enroll/wall.png''}),
       isdir = (\<lambda>p. p \<in> {''/home/u/.face_enroll'', ''/home/u/.face_enroll/old''}) \<rparr>"

definition photo :: image where
  "photo = [[(7, 7, 7)]]"

text \<open>
  \<open>vis_enroll\<close> is \<open>vis_demo\<close> with these files: the fast detector also finds a face
  in the photo, and the encoder returns \<open>[0.3, 0]\<close> for it.
\<close>

definition vis_enroll :: vision where
  "vis_enroll =
     vis_demo \<lparr> load_image_file := (\<lambda>p.
        if p = ''/home/u/.face_enroll/me.jpg'' then Inr photo
        else if p = ''/home/u/.face_enroll/wall.png'' then Inr []
        else Inl (OSError ''Is a directory'')),
       face_locations := (\<lambda>img up m.
        if img = photo \<and> m = Hog then Inr [(0, 1, 1, 0)] else face_locations vis_demo img up m),
       face_encodings := (\<lambda>img locs.
        if img = photo then Inr (map (\<lambda>l. [0.3, 0]) locs) else face_encodings vis_demo img locs) \<rparr>"

lemma vis_enroll_simps [simp]:
  "load_image_file vis_enroll ''/home/u/.face_enroll/me.jpg'' = Inr photo"
  "load_image_file vis_enroll ''/home/u/.face_enroll/wall.png'' = Inr []"
  "load_image_file vis_enroll ''/home/u/.face_enroll/old'' = Inl (OSError ''Is a directory'')"
  "face_locations vis_enroll photo up Hog = Inr [(0, 1, 1, 0)]"
  "img \<noteq> photo \<Longrightarrow> face_locations vis_enroll img up m = face_locations vis_demo img up m"
  "face_encodings vis_enroll photo locs = Inr (map (\<lambda>l. [0.3, 0]) locs)"
  "img \<noteq> photo \<Longrightarrow> face_encodings vis_enroll img locs = face_encodings vis_demo img locs"
  by (simp_all add: vis_enroll_def)

lemma photo_neq [simp]: "[] \<noteq> photo" "one_pixel \<noteq> photo"
  by (simp_all add: photo_def one_pixel_def)

lemma enroll_files_demo:
  "path_join ''/home/u/.face_enroll'' ''*'' = ''/home/u/.face_enroll/*''"
  "enroll_files fs_demo ''/home/u/.face_enroll'' =
     [''/home/u/.face_enroll/me.jpg'', ''/home/u/.face_enroll/wall.png'']"
  by (simp_all add: enroll_files_def path_join_def fs_demo_def)

lemma enrolled_demo:
  "enrolled vis_enroll ''/home/u/.face_enroll/me.jpg'' = Enrolled [0.3, 0]"
  "enrolled vis_enroll ''/home/u/.face_enroll/wall.png'' = No_face"
  "enrolled vis_enroll ''/home/u/.face_enroll/old'' = Raised (OSError ''Is a directory'')"
  by (simp_all add: enrolled_def one_pixel_def)

lemma isdir_demo [simp]:
  "isdir fs_demo ''/home/u/.face_enroll''" "\<not> isdir fs_demo ''/nowhere''"
  by (simp_all add: fs_demo_def)

lemma load_demo:
  "outcome (load_known_encodings fs_demo vis_enroll ''/home/u/.face_enroll'') =
     Inr (Some [[0.3, 0]])"
  by (simp add: load_known_encodings_eq enroll_files_demo enrolled_demo contributes_def
      append_opt_def)

theorem load_known_encodings_result_witness:
  "outcome (load_known_encodings fs_demo vis_enroll ''/home/u/.face_enroll'') = Inr (Some [[0.3, 0]])"
  using load_known_encodings_result [of vis_enroll fs_demo "''/home/u/.face_enroll''"]
  by (simp add: enroll_files_demo enrolled_demo)

theorem fd_load_same_encodings_witness:
  "outcome (fd_load_known_encodings fs_demo vis_enroll ''/home/u/.face_enroll'') = Inr [[0.3, 0]] \<and>
   outcome (load_known_encodings fs_demo vis_enroll ''/home/u/.face_enroll'') = Inr (Some [[0.3, 0]])"
proof -
  have "outcome (fd_load_known_encodings fs_demo vis_enroll ''/home/u/.face_enroll'') =
      Inr [[0.3, 0]]"
    by (simp add: fd_load_known_encodings_eq enroll_files_demo)
      (simp add: fs_demo_def enrolled_demo contributes_def append_opt_def)
  moreover have "\<forall>f\<in>set (glob fs_demo (path_join ''/home/u/.face_enroll'' ''*'')).
      \<not> isfile fs_demo f \<longrightarrow> contributes (enrolled vis_enroll f) = Inr None"
    by (simp add: enroll_files_demo) (simp add: fs_demo_def enrolled_demo contributes_def)
  ultimately show ?thesis
    using fd_load_same_encodings [of fs_demo "''/home/u/.face_enroll''" vis_enroll]
    by simp
qed


text \<open>
  Three images, one without a face (section 8 of the specification): two encodings
  are loaded, in the order of the listing, and the log has one warning.
\<close>

definition fs_three :: fsys where
  "fs_three =
     fs_demo \<lparr> glob := (\<lambda>pat. if pat = ''/home/u/.face_enroll/*''
                              then [''/home/u/.face_enroll/me.jpg'', ''/home/u/.face_enroll/wall.png'',
                                    ''/home/u/.face_enroll/side.jpg'']
                              else []),
                isfile := (\<lambda>p. True) \<rparr>"

definition vis_three :: vision where
  "vis_three =
     vis_enroll \<lparr> load_image_file := (\<lambda>p.
        if p = ''/home/u/.face_enroll/side.jpg'' then Inr one_pixel else load_image_file vis_enroll p) \<rparr>"

lemma enrolled_three:
  "enroll_files fs_three ''/home/u/.face_enroll'' =
     [''/home/u/.face_enroll/me.jpg'', ''/home/u/.face_enroll/wall.png'',
      ''/home/u/.face_enroll/side.jpg'']"
  "enrolled vis_three ''/home/u/.face_enroll/me.jpg'' = Enrolled [0.3, 0]"
  "enrolled vis_three ''/home/u/.face_enroll/wall.png'' = No_face"
  "enrolled vis_three ''/home/u/.face_enroll/side.jpg'' = Enrolled [0, 0]"
  by (simp_all add: enroll_files_def path_join_def fs_three_def fs_demo_def enrolled_def
      vis_three_def vis_enroll_def one_pixel_def photo_def)

lemma basename_three:
  "basename ''/home/u/.face_enroll/me.jpg'' = ''me.jpg''"
  "basename ''/home/u/.face_enroll/side.jpg'' = ''side.jpg''"
  by (simp_all add: basename_def)

theorem enrollment_log_witness:
  "outcome (load_known_encodings fs_three vis_three ''/home/u/.face_enroll'') =
     Inr (Some [[0.3, 0], [0, 0]]) \<and>
   logs (trace_of (load_known_encodings fs_three vis_three ''/home/u/.face_enroll'')) =
     [Loaded_enrollment_face ''me.jpg'',
      No_face_in_enroll_image ''/home/u/.face_enroll/wall.png'',
      Loaded_enrollment_face ''side.jpg'']"
  using enrollment_log [of vis_three fs_three "''/home/u/.face_enroll''"]
  by (simp add: load_known_encodings_eq enrolled_three enroll_lines_def basename_three
      contributes_def append_opt_def)

theorem enrollment_counts_witness:
  "length (filter is_loaded
      (logs (trace_of (load_known_encodings fs_three vis_three ''/home/u/.face_enroll'')))) = 2 \<and>
   length (filter is_warning
      (logs (trace_of (load_known_encodings fs_three vis_three ''/home/u/.face_enroll'')))) = 1"
proof -
  have "outcome (load_known_encodings fs_three vis_three ''/home/u/.face_enroll'') =
      Inr (Some [[0.3, 0], [0, 0]])"
    by (simp add: load_known_encodings_eq enrolled_three contributes_def append_opt_def)
  from enrollment_counts [OF this] show ?thesis
    by (simp add: enrolled_three)
qed

end
