(* ===== verification/Guard_Main.thy ===== *)
theory Guard_Main
  imports Guard_Run Enrollment
begin

text \<open>
  Start-up and shutdown of \<^verbatim>\<open>presence_guard.py\<close>: \<^verbatim>\<open>main()\<close> as \<open>main\<close>.

  \<^verbatim>\<open>sys.exit(1)\<close> at the three start-up checks is the return value 1 of \<open>main\<close>;
  falling off the end of \<^verbatim>\<open>main()\<close> is the return value 0. The \<^verbatim>\<open>try\<close> statement
  around the loop is \<open>io_try\<close> with the handler table \<open>main_handlers\<close> inside
  \<open>io_finally\<close> with the release of the camera.

  The inputs of a run: the file system, the vision functions, which camera
  indices open, the clock reading taken before the loop, and the inputs of the
  passes of the loop.
\<close>

section \<open>The program\<close>

text \<open>\<^verbatim>\<open>except KeyboardInterrupt\<close> and \<^verbatim>\<open>except Exception as e\<close>, in this order.\<close>

definition main_handlers :: "exn \<Rightarrow> unit io option" where
  "main_handlers e =
     (if e = KeyboardInterrupt then Some (log Stopped_by_user)
      else if is_Exception e then Some (log (Crashed e))
      else None)"

text \<open>The \<^verbatim>\<open>try\<close> statement with the loop, for the camera \<open>cam\<close>.\<close>

definition guarded_loop ::
    "config \<Rightarrow> vision \<Rightarrow> encoding list \<Rightarrow> int \<Rightarrow> env list \<Rightarrow> guard_state \<Rightarrow> unit io" where
  "guarded_loop cfg vis known cam es st =
     io_finally (io_try (guard_loop cfg vis known cam es st) main_handlers)
       (io_emit (Cam_release cam))"

definition main ::
    "config \<Rightarrow> fsys \<Rightarrow> vision \<Rightarrow> (int \<Rightarrow> bool) \<Rightarrow> datetime \<Rightarrow> env list \<Rightarrow> int io" where
  "main cfg fs vis opens t0 es =
     (if \<not> isdir fs (ENROLL_DIR cfg) then
        io_then (log (Enrollment_dir_not_found (ENROLL_DIR cfg))) (io_return 1)
      else
        io_bind (load_known_encodings fs vis (ENROLL_DIR cfg)) (\<lambda>known.
          if known = None \<or> length (the known) = 0 then
            io_then (log No_known_encodings) (io_return 1)
          else
            io_bind (open_camera cfg opens) (\<lambda>cap.
              case cap of
                None \<Rightarrow> io_then (log Cannot_open_webcam) (io_return 1)
              | Some cam_idx \<Rightarrow>
                  io_then (log (Opened_camera cam_idx (FRAME_WIDTH cfg) (FRAME_HEIGHT cfg)))
                    (io_then (log Starting_presence_guard)
                       (io_then
                          (guarded_loop cfg vis (the known) cam_idx es
                             \<lparr>last_seen_someone = t0, frame_i = 0\<rparr>)
                          (io_return 0))))))"

lemmas main_defs [guard_defs] = main_handlers_def guarded_loop_def main_def

section \<open>The loop under its handlers\<close>

text \<open>What the handlers log for the exception that ended the loop.\<close>

definition exit_log :: "exn \<Rightarrow> log_msg" where
  "exit_log ex = (if ex = KeyboardInterrupt then Stopped_by_user else Crashed ex)"

lemma guarded_loop_eq:
  "guarded_loop cfg vis known cam es st =
     (trace_of (guard_loop cfg vis known cam es st) @
      [Log (exit_log (projl (outcome (guard_loop cfg vis known cam es st)))), Cam_release cam],
      Inr ())"
proof -
  obtain t ex where "guard_loop cfg vis known cam es st = (t, Inl ex)"
    by (metis guard_loop_stops prod.collapse)
  then show ?thesis
    by (simp add: guarded_loop_def main_handlers_def exit_log_def not_is_Exception_iff)
qed

section \<open>Start-up\<close>

text \<open>How the start-up ends, as a function of the inputs.\<close>

datatype startup =
    No_enroll_dir
  | Enrollment_interrupted exn
  | No_encodings
  | No_camera
  | Started "encoding list" int

definition startup :: "config \<Rightarrow> fsys \<Rightarrow> vision \<Rightarrow> (int \<Rightarrow> bool) \<Rightarrow> startup" where
  "startup cfg fs vis opens =
     (if \<not> isdir fs (ENROLL_DIR cfg) then No_enroll_dir
      else
        (case outcome (load_known_encodings fs vis (ENROLL_DIR cfg)) of
           Inl ex \<Rightarrow> Enrollment_interrupted ex
         | Inr None \<Rightarrow> No_encodings
         | Inr (Some known) \<Rightarrow>
             (case find opens (camera_indices (VIDEO_DEVICE cfg)) of
                None \<Rightarrow> No_camera
              | Some cam \<Rightarrow> Started known cam)))"

text \<open>The trace of the start-up, up to and including the line \<^verbatim>\<open>Starting presence_guard\<close>.\<close>

definition startup_trace :: "config \<Rightarrow> fsys \<Rightarrow> vision \<Rightarrow> (int \<Rightarrow> bool) \<Rightarrow> effect list" where
  "startup_trace cfg fs vis opens =
     (case startup cfg fs vis opens of
        No_enroll_dir \<Rightarrow> [Log (Enrollment_dir_not_found (ENROLL_DIR cfg))]
      | Enrollment_interrupted ex \<Rightarrow> trace_of (load_known_encodings fs vis (ENROLL_DIR cfg))
      | No_encodings \<Rightarrow>
          trace_of (load_known_encodings fs vis (ENROLL_DIR cfg)) @ [Log No_known_encodings]
      | No_camera \<Rightarrow>
          trace_of (load_known_encodings fs vis (ENROLL_DIR cfg)) @
          trace_of (open_camera cfg opens) @ [Log Cannot_open_webcam]
      | Started known cam \<Rightarrow>
          trace_of (load_known_encodings fs vis (ENROLL_DIR cfg)) @
          trace_of (open_camera cfg opens) @
          [Log (Opened_camera cam (FRAME_WIDTH cfg) (FRAME_HEIGHT cfg)),
           Log Starting_presence_guard])"

lemma main_eq:
  "main cfg fs vis opens t0 es =
     (case startup cfg fs vis opens of
        Started known cam \<Rightarrow>
          (startup_trace cfg fs vis opens @
           trace_of (guarded_loop cfg vis known cam es \<lparr>last_seen_someone = t0, frame_i = 0\<rparr>),
           Inr 0)
      | Enrollment_interrupted ex \<Rightarrow> (startup_trace cfg fs vis opens, Inl ex)
      | _ \<Rightarrow> (startup_trace cfg fs vis opens, Inr 1))"
proof (cases "isdir fs (ENROLL_DIR cfg)")
  case False
  then show ?thesis
    by (simp add: main_def startup_def startup_trace_def)
next
  case True
  obtain tl rl where l: "load_known_encodings fs vis (ENROLL_DIR cfg) = (tl, rl)"
    by (cases "load_known_encodings fs vis (ENROLL_DIR cfg)")
  obtain tc where c: "open_camera cfg opens = (tc, Inr (find opens (camera_indices (VIDEO_DEVICE cfg))))"
    using outcome_open_camera [of cfg opens] by (metis prod.collapse)
  from l have ne: "rl \<noteq> Inr (Some [])"
    using load_known_encodings_Some [of fs vis "ENROLL_DIR cfg" "[]"] by auto
  show ?thesis
  proof (cases rl)
    case (Inl ex)
    with True l show ?thesis
      by (simp add: main_def startup_def startup_trace_def)
  next
    case (Inr r)
    with True l c ne show ?thesis
      by (cases r)
        (simp_all add: main_def startup_def startup_trace_def guarded_loop_eq
          split: option.splits)
  qed
qed

section \<open>Exit status and start-up failures\<close>

text \<open>
  C20. The exit status. \<^verbatim>\<open>main\<close> returns 1 when the enrollment directory is missing,
  when enrollment yields no encoding and when no camera opens; once the loop has
  been entered it returns 0, whatever ended the loop. It raises only when
  enrollment is interrupted, and then the interrupt.
\<close>

theorem main_exit_status:
  "outcome (main cfg fs vis opens t0 es) =
     (case startup cfg fs vis opens of
        Started known cam \<Rightarrow> Inr 0
      | Enrollment_interrupted ex \<Rightarrow> Inl KeyboardInterrupt
      | _ \<Rightarrow> Inr 1)"
proof -
  have "ex = KeyboardInterrupt" if "startup cfg fs vis opens = Enrollment_interrupted ex" for ex
    using that load_known_encodings_interrupt [of fs vis "ENROLL_DIR cfg" ex]
    by (auto simp: startup_def split: if_splits sum.splits option.splits)
  then show ?thesis
    by (auto simp: main_eq split: startup.splits)
qed

lemma startup_trace_quiet [simp]: "list_all quiet (startup_trace cfg fs vis opens)"
  by (simp add: startup_trace_def split: startup.splits)

text \<open>
  C34. Start-up fails fast. Without an enrollment directory \<^verbatim>\<open>main\<close> only writes one
  log line; without a usable enrollment image it does what enrollment does and then
  writes one log line. In both cases no camera is opened, no command is run and the
  exit status is 1. The trace is exactly that: nothing before the log line in the
  first case, the trace of \<^verbatim>\<open>load_known_encodings\<close> in the second.
\<close>

theorem main_fails_fast:
  assumes "startup cfg fs vis opens = No_enroll_dir \<or> startup cfg fs vis opens = No_encodings"
  shows "\<exists>t. main cfg fs vis opens t0 es =
           (t @ [Log (if isdir fs (ENROLL_DIR cfg) then No_known_encodings
                      else Enrollment_dir_not_found (ENROLL_DIR cfg))], Inr 1) \<and>
           list_all (enroll_effect (enroll_files fs (ENROLL_DIR cfg))) t \<and>
           t = (if isdir fs (ENROLL_DIR cfg)
                then trace_of (load_known_encodings fs vis (ENROLL_DIR cfg)) else [])"
proof (cases "isdir fs (ENROLL_DIR cfg)")
  case False
  then show ?thesis
    by (simp add: main_eq startup_def startup_trace_def)
next
  case True
  with assms have "startup cfg fs vis opens = No_encodings"
    by (auto simp: startup_def split: sum.splits option.splits)
  with True load_known_encodings_trace [of fs "ENROLL_DIR cfg" vis] show ?thesis
    by (simp add: main_eq startup_trace_def)
qed

section \<open>The camera\<close>

lemma held_startup_trace:
  "held (startup_trace cfg fs vis opens) =
     (case startup cfg fs vis opens of Started known cam \<Rightarrow> {#cam#} | _ \<Rightarrow> {#})"
  by (auto simp: startup_trace_def startup_def open_camera_def held_from_probe
      split: if_splits sum.splits option.splits)

lemma releases_held_startup_trace [simp]: "releases_held {#} (startup_trace cfg fs vis opens)"
  by (simp add: startup_trace_def open_camera_def split: startup.splits)

lemma guard_loop_neutral [simp]:
  "list_all camera_neutral (trace_of (guard_loop cfg vis known cam es st))"
  by (rule list_all_guard_loop) (rule iteration_neutral)

text \<open>
  C11. The camera is released on every exit path, and exactly once. Whatever the
  inputs, at the end of \<^verbatim>\<open>main\<close> no capture object is open, and no release in the
  run is the release of a capture object that is not open: the probes that fail to
  open are released at once, the camera in use is released after the loop, whether
  the loop was interrupted or crashed.
\<close>

theorem main_releases_camera:
  "held (trace_of (main cfg fs vis opens t0 es)) = {#} \<and>
   releases_held {#} (trace_of (main cfg fs vis opens t0 es))"
  by (cases "startup cfg fs vis opens")
    (simp_all add: main_eq held_startup_trace guarded_loop_eq)

section \<open>The crash line\<close>

lemma startup_trace_no_crash: "Log (Crashed ex) \<notin> set (startup_trace cfg fs vis opens)"
proof -
  have "Log (Crashed ex) \<notin> set (trace_of (load_known_encodings fs vis (ENROLL_DIR cfg)))"
    using load_known_encodings_trace [of fs "ENROLL_DIR cfg" vis] by (auto simp: list_all_iff)
  then show ?thesis
    using open_camera_no_log [of "Crashed ex" cfg opens]
    by (auto simp: startup_trace_def split: startup.splits)
qed

lemma guard_loop_no_crash:
  "Log (Crashed ex) \<notin> set (trace_of (guard_loop cfg vis known cam es st))"
  using list_all_guard_loop [of "guard_effect cfg cam" cfg vis known cam es st,
      OF iteration_guard_effects]
  by (auto simp: list_all_iff)

section \<open>A run that starts\<close>

lemma startup_Started:
  assumes "startup cfg fs vis opens = Started known cam"
  shows "known \<noteq> []" and "known = enrolled_encodings vis (enroll_files fs (ENROLL_DIR cfg))"
    and "find opens (camera_indices (VIDEO_DEVICE cfg)) = Some cam"
  using assms load_known_encodings_Some [of fs vis "ENROLL_DIR cfg" known]
  by (auto simp: startup_def split: if_splits sum.splits option.splits)

text \<open>
  The loop is entered only with a non-empty set of enrolled encodings, the
  encodings of the enrollment files, and with the first camera that opens. It then
  runs from the start state (clock reading, frame counter 0); when it ends, the
  cause is logged, the camera is released and \<^verbatim>\<open>main\<close> returns 0.
\<close>

theorem main_started:
  assumes "startup cfg fs vis opens = Started known cam"
  shows "main cfg fs vis opens t0 es =
           (startup_trace cfg fs vis opens @
            trace_of (guard_loop cfg vis known cam es \<lparr>last_seen_someone = t0, frame_i = 0\<rparr>) @
            [Log (exit_log (projl (outcome
               (guard_loop cfg vis known cam es \<lparr>last_seen_someone = t0, frame_i = 0\<rparr>)))),
             Cam_release cam], Inr 0) \<and>
         known \<noteq> [] \<and>
         known = enrolled_encodings vis (enroll_files fs (ENROLL_DIR cfg)) \<and>
         find opens (camera_indices (VIDEO_DEVICE cfg)) = Some cam"
  using startup_Started [OF assms] by (simp add: main_eq assms guarded_loop_eq)

text \<open>
  C18. A failing detector ends the guard without locking. If in a pass the fast
  detector raises an \<^verbatim>\<open>Exception\<close>, that pass ends the loop: the crash is logged, the
  camera is released and \<^verbatim>\<open>main\<close> returns 0. Neither that pass nor anything after it
  runs a lock command.
\<close>

theorem main_detector_crash:
  assumes "startup cfg fs vis opens = Started known cam"
    and "run_to cfg vis known cam es \<lparr>last_seen_someone = t0, frame_i = 0\<rparr> = Some st"
    and "outcome (phone_absent cfg (procs e)) = Inr False"
    and "outcome (latest_frame cam (frames e)) = Inr (Some f)"
    and "face_locations vis (detector_input f) (HOG_UPSAMPLE cfg) Hog = Inl ex"
    and "is_Exception ex"
  shows "\<exists>t. main cfg fs vis opens t0 (es @ e # es') =
           (t @ trace_of (iteration cfg vis known cam e st) @ [Log (Crashed ex), Cam_release cam],
            Inr 0) \<and>
         lock_attempts (trace_of (iteration cfg vis known cam e st)) = 0"
proof -
  obtain tg tf where parts: "phone_absent cfg (procs e) = (tg, Inr False)"
    "latest_frame cam (frames e) = (tf, Inr (Some f))"
    using assms(3,4) by (metis prod.collapse)
  have tg: "lock_attempts tg = 0"
    using parts(1) trace_phone_absent [of cfg "procs e"] by (auto split: if_splits)
  have tf: "lock_attempts tf = 0"
    using parts(2) latest_frame_quiet [of cam "frames e"] by simp
  from parts assms(5) have pass: "iteration cfg vis known cam e st =
      (tg @ tf @ [Detect Hog (HOG_UPSAMPLE cfg)], Inl ex)"
    by (simp add: iteration_def detect_faces_rgb_def)
  from guard_loop_append [OF assms(2), of "e # es'"] obtain t where
    "guard_loop cfg vis known cam (es @ e # es') \<lparr>last_seen_someone = t0, frame_i = 0\<rparr> =
       io_pre t (guard_loop cfg vis known cam (e # es') st)"
    by blast
  with pass have "guard_loop cfg vis known cam (es @ e # es') \<lparr>last_seen_someone = t0, frame_i = 0\<rparr> =
      (t @ trace_of (iteration cfg vis known cam e st), Inl ex)"
    by (simp add: guard_loop_pass)
  with assms(1,6) pass tg tf show ?thesis
    by (auto simp: main_eq guarded_loop_eq exit_log_def)
qed

section \<open>The lock attempts of a whole run\<close>

text \<open>The start-up and the exit make no lock attempt: those of \<^verbatim>\<open>main\<close> are those of the loop.\<close>

lemma lock_attempts_main:
  "lock_attempts (trace_of (main cfg fs vis opens t0 es)) =
     (case startup cfg fs vis opens of
        Started known cam \<Rightarrow>
          lock_attempts (trace_of
            (guard_loop cfg vis known cam es \<lparr>last_seen_someone = t0, frame_i = 0\<rparr>))
      | _ \<Rightarrow> 0)"
  by (simp add: main_eq guarded_loop_eq split: startup.splits)

section \<open>The commands of a whole run\<close>

text \<open>
  From start to exit, the only commands \<^verbatim>\<open>main\<close> runs are the four lock
  commands, each with a timeout of 5 seconds, and the phone query with a timeout of
  6 seconds, the latter only when the phone check is enabled.
\<close>

theorem main_commands:
  "set (commands (trace_of (main cfg fs vis opens t0 es))) \<subseteq>
     (\<lambda>c. (c, 5)) ` set lock_cmds \<union>
     (if USE_BLUETOOTH cfg then {(bluetooth_cmd (PHONE_MAC cfg), 6)} else {})"
proof -
  have "set (commands t) \<subseteq> (\<lambda>c. (c, 5)) ` set lock_cmds \<union>
      (if USE_BLUETOOTH cfg then {(bluetooth_cmd (PHONE_MAC cfg), 6)} else {})"
    if "list_all (guard_effect cfg cam) t" for t cam
    using that by (induction t) (auto simp: commands_def List.map_filter_def guard_effect_def
        split: effect.splits if_splits)
  from this [OF list_all_guard_loop [of "guard_effect cfg cam" for cam, OF iteration_guard_effects]]
  show ?thesis
    by (cases "startup cfg fs vis opens") (simp_all add: main_eq guarded_loop_eq)
qed

section \<open>Scenarios\<close>

text \<open>
  The enrollment directory of theory \<open>Enrollment\<close>, only camera 1 opens, the clock
  reads second 3 before the loop, and the user sits in front of the camera for one
  pass before the guard is interrupted.
\<close>

definition opens_1 :: "int \<Rightarrow> bool" where
  "opens_1 i \<longleftrightarrow> i = 1"

lemma startup_demo:
  "startup cfg0 fs_demo vis_enroll opens_1 = Started [[0.3, 0]] 1"
  by (simp add: startup_def cfg0_def load_demo camera_indices_def opens_1_def)

lemma startup_trace_demo:
  "startup_trace cfg0 fs_demo vis_enroll opens_1 =
     [Load_image ''/home/u/.face_enroll/me.jpg'', Detect Hog 1, Encode,
      Log (Loaded_enrollment_face ''me.jpg''),
      Load_image ''/home/u/.face_enroll/wall.png'', Detect Hog 1,
      Log (No_face_in_enroll_image ''/home/u/.face_enroll/wall.png''),
      Cam_open 0, Cam_release 0, Cam_open 1,
      Cam_set 1 CAP_PROP_FRAME_WIDTH 640, Cam_set 1 CAP_PROP_FRAME_HEIGHT 480,
      Cam_set 1 CAP_PROP_BUFFERSIZE 1] @ replicate 8 (Cam_read 1) @
     [Log (Opened_camera 1 640 480), Log Starting_presence_guard]"
  by (simp add: startup_trace_def startup_demo)
    (simp add: cfg0_def load_known_encodings_def enroll_files_demo enroll_loop_Cons
      guarded_enroll_one enroll_trace_def error_log_def contributes_def enrolled_demo
      append_opt_def basename_def open_camera_def camera_indices_def opens_1_def
      configure_camera_def one_pixel_def)

lemma pass_demo:
  "iteration cfg0 vis_enroll [[0.3, 0]] 1 env_face st0 =
     ([Cam_grab 1, Cam_grab 1, Cam_grab 1, Cam_retrieve 1, Detect Hog 1, Log (Detected_faces 1),
       Encode, Log (Best_face_distance (3 / 10)), Log Authorized_face_present, Sleep 0.35],
      Inr \<lparr>last_seen_someone = 10000000, frame_i = 1\<rparr>)"
  by (simp add: iteration_def one_face_def scenario_defs latest_frame_eq detect_faces_rgb_def
      identity_check_eq np_min_Cons row_norms_def sq_dist_def power2_eq_square)

theorem main_started_witness:
  "main cfg0 fs_demo vis_enroll opens_1 3000000 [env_face] =
     (startup_trace cfg0 fs_demo vis_enroll opens_1 @
      [Cam_grab 1, Cam_grab 1, Cam_grab 1, Cam_retrieve 1, Detect Hog 1, Log (Detected_faces 1),
       Encode, Log (Best_face_distance (3 / 10)), Log Authorized_face_present, Sleep 0.35,
       Log Stopped_by_user, Cam_release 1], Inr 0)"
  using main_started [OF startup_demo, of 3000000 "[env_face]"] pass_demo
  by (simp add: guard_loop_pass exit_log_def st0_def)

text \<open>Without the enrollment directory nothing but the log line happens.\<close>

theorem main_fails_fast_witness:
  "main (cfg0 \<lparr>ENROLL_DIR := ''/nowhere''\<rparr>) fs_demo vis_enroll opens_1 3000000 [env_face] =
     ([Log (Enrollment_dir_not_found ''/nowhere'')], Inr 1)"
proof -
  have "startup (cfg0 \<lparr>ENROLL_DIR := ''/nowhere''\<rparr>) fs_demo vis_enroll opens_1 = No_enroll_dir"
    by (simp add: startup_def)
  with main_fails_fast [of "cfg0 \<lparr>ENROLL_DIR := ''/nowhere''\<rparr>" fs_demo vis_enroll opens_1
      3000000 "[env_face]"]
  show ?thesis
    by auto
qed

text \<open>
  A detector that works on the enrollment photo and raises on every camera frame:
  the guard starts, crashes in its first pass and exits without a lock attempt.
\<close>

definition vis_flaky :: vision where
  "vis_flaky =
     vis_enroll \<lparr> face_locations := (\<lambda>img up m.
        if img = photo then Inr [(0, 1, 1, 0)] else Inl (RuntimeError ''dlib'')) \<rparr>"

lemma startup_flaky: "startup cfg0 fs_demo vis_flaky opens_1 = Started [[0.3, 0]] 1"
proof -
  have "enrolled vis_flaky ''/home/u/.face_enroll/me.jpg'' = Enrolled [0.3, 0]"
    "enrolled vis_flaky ''/home/u/.face_enroll/wall.png'' = Raised (RuntimeError ''dlib'')"
    by (simp_all add: enrolled_def vis_flaky_def)
  then have "outcome (load_known_encodings fs_demo vis_flaky ''/home/u/.face_enroll'') =
      Inr (Some [[0.3, 0]])"
    by (simp add: load_known_encodings_eq enroll_files_demo contributes_def append_opt_def)
  then show ?thesis
    by (simp add: startup_def cfg0_def camera_indices_def opens_1_def)
qed

lemma pass_flaky:
  "iteration cfg0 vis_flaky [[0.3, 0]] 1 env_face st0 =
     ([Cam_grab 1, Cam_grab 1, Cam_grab 1, Cam_retrieve 1, Detect Hog 1],
      Inl (RuntimeError ''dlib''))"
  by (simp add: iteration_def scenario_defs latest_frame_eq detect_faces_rgb_def vis_flaky_def)

lemma main_flaky:
  "main cfg0 fs_demo vis_flaky opens_1 3000000 (env_face # es) =
     (startup_trace cfg0 fs_demo vis_flaky opens_1 @
      [Cam_grab 1, Cam_grab 1, Cam_grab 1, Cam_retrieve 1, Detect Hog 1,
       Log (Crashed (RuntimeError ''dlib'')), Cam_release 1], Inr 0)"
  using pass_flaky
  by (simp add: main_eq startup_flaky guarded_loop_eq guard_loop_pass exit_log_def st0_def)

theorem main_detector_crash_witness:
  "\<exists>t. main cfg0 fs_demo vis_flaky opens_1 3000000 [env_face, env_face] =
        (t @ [Cam_grab 1, Cam_grab 1, Cam_grab 1, Cam_retrieve 1, Detect Hog 1,
              Log (Crashed (RuntimeError ''dlib'')), Cam_release 1], Inr 0)"
proof -
  have run: "run_to cfg0 vis_flaky [[0.3, 0]] 1 [] \<lparr>last_seen_someone = 3000000, frame_i = 0\<rparr> =
      Some st0"
    by (simp add: st0_def)
  have gate: "outcome (phone_absent cfg0 (procs env_face)) = Inr False"
    by (simp add: scenario_defs)
  have frame: "outcome (latest_frame 1 (frames env_face)) = Inr (Some one_pixel)"
    by (simp add: scenario_defs latest_frame_eq)
  have crash: "face_locations vis_flaky (detector_input one_pixel) (HOG_UPSAMPLE cfg0) Hog =
      Inl (RuntimeError ''dlib'')"
    by (simp add: vis_flaky_def)
  have pass: "trace_of (iteration cfg0 vis_flaky [[0.3, 0]] 1 env_face st0) =
      [Cam_grab 1, Cam_grab 1, Cam_grab 1, Cam_retrieve 1, Detect Hog 1]"
    using crash by (simp add: iteration_def scenario_defs latest_frame_eq detect_faces_rgb_def)
  from main_detector_crash [OF startup_flaky run gate frame crash, of "[env_face]"] pass
  show ?thesis
    by auto
qed

end
