(* ===== verification/Legacy_Guard.thy ===== *)
theory Legacy_Guard
  imports Guard_Main
begin

text \<open>
  The predecessor script \<^verbatim>\<open>face_detect.py\<close>: the body of its \<^verbatim>\<open>while True\<close> as
  \<open>fd_iteration\<close>, the loop as \<open>fd_guard_loop\<close> and \<^verbatim>\<open>main()\<close> as \<open>fd_main\<close>. Its lock
  cascade and its enrollment are in the theories \<open>Lock_Actuator\<close> and \<open>Enrollment\<close>.

  The script differs from \<^verbatim>\<open>presence_guard.py\<close> in what it looks at and in what it
  does about it: it reads one frame with \<^verbatim>\<open>cap.read()\<close>, halves it, converts it once,
  counts encodings instead of face regions, has no absence timeout, no phone check
  and no sampling. The inputs of a pass are those of the current script (\<open>env\<close>);
  what \<^verbatim>\<open>cap.read()\<close> delivers is the field \<open>read_back\<close>.

  The lemmas state the decision of a pass, relate it to the rules of
  \<open>Presence_Policy\<close> (the rules with an absence timeout of 0), and show that the
  variable \<^verbatim>\<open>last_lock_time\<close> has no influence on what the script does.
\<close>

section \<open>State and one pass\<close>

record fd_state =
  last_lock_time :: "datetime option"

text \<open>
  \<^verbatim>\<open>lock_session(); last_lock_time = datetime.now(); time.sleep(LOCK_COOLDOWN); continue\<close>
\<close>

definition fd_lock_and_cooldown :: "base_config \<Rightarrow> os \<Rightarrow> datetime \<Rightarrow> fd_state io" where
  "fd_lock_and_cooldown cfg run now_t =
     io_then (fd_lock_session run)
       (io_then (sleep (LOCK_COOLDOWN cfg)) (io_return \<lparr>last_lock_time = Some now_t\<rparr>))"

text \<open>\<^verbatim>\<open>cv2.resize(frame, (0,0), fx=0.5, fy=0.5)[:, :, ::-1]\<close>\<close>

definition fd_detector_input :: "vision \<Rightarrow> image \<Rightarrow> image" where
  "fd_detector_input vis frame = reverse_channels (resize_half vis frame)"

text \<open>The comparison of the single encoding with the enrolled ones, and what follows.\<close>

definition fd_compare ::
    "base_config \<Rightarrow> encoding list \<Rightarrow> encoding \<Rightarrow> os \<Rightarrow> datetime \<Rightarrow> fd_state \<Rightarrow> fd_state io" where
  "fd_compare cfg known enc run now_t st =
     io_bind (io_lift (np_min (row_norms known enc))) (\<lambda>best.
       io_then (log (Best_face_distance best))
         (if best \<le> ALLOWED_TOLERANCE cfg then
            io_then (log Authorized_only_person)
              (io_then (sleep (CHECK_INTERVAL cfg)) (io_return st))
          else
            io_then (log Unknown_face) (fd_lock_and_cooldown cfg run now_t)))"

definition fd_iteration ::
    "base_config \<Rightarrow> vision \<Rightarrow> encoding list \<Rightarrow> int \<Rightarrow> env \<Rightarrow> fd_state \<Rightarrow> fd_state io" where
  "fd_iteration cfg vis known cam e st =
     io_pre [Cam_read cam]
       (case read_back (frames e) of
          None \<Rightarrow>
            io_then (log Failed_to_read_webcam)
              (io_then (sleep (CHECK_INTERVAL cfg)) (io_return st))
        | Some frame \<Rightarrow>
            io_bind (call_face_locations vis (fd_detector_input vis frame) 1 Hog) (\<lambda>face_locs.
            io_bind (call_face_encodings vis (fd_detector_input vis frame) face_locs) (\<lambda>face_encs.
              io_then (log (Detected_faces (length face_encs)))
                (if length face_encs \<noteq> 1 then
                   io_then (log Not_exactly_one_person)
                     (fd_lock_and_cooldown cfg (procs e) (now e))
                 else fd_compare cfg known (face_encs ! 0) (procs e) (now e) st))))"

fun fd_guard_loop ::
    "base_config \<Rightarrow> vision \<Rightarrow> encoding list \<Rightarrow> int \<Rightarrow> env list \<Rightarrow> fd_state \<Rightarrow> unit io" where
  "fd_guard_loop cfg vis known cam [] st = io_raise KeyboardInterrupt"
| "fd_guard_loop cfg vis known cam (e # es) st =
     io_bind (fd_iteration cfg vis known cam e st) (fd_guard_loop cfg vis known cam es)"

section \<open>The program\<close>

text \<open>
  From \<^verbatim>\<open>cv2.VideoCapture(VIDEO_DEVICE)\<close> to the end of \<^verbatim>\<open>main()\<close>, for the device index
  \<open>dev\<close>. The capture object is created before the check of \<^verbatim>\<open>isOpened()\<close>; when it
  did not open the script exits without releasing it.
\<close>

definition fd_run_guard ::
    "base_config \<Rightarrow> vision \<Rightarrow> encoding list \<Rightarrow> (int \<Rightarrow> bool) \<Rightarrow> int \<Rightarrow> env list \<Rightarrow> int io" where
  "fd_run_guard cfg vis known opens dev es =
     io_pre [Cam_open dev]
       (if \<not> opens dev then io_then (log Cannot_open_device) (io_return 1)
        else
          io_then
            (io_finally
               (io_try (fd_guard_loop cfg vis known dev es \<lparr>last_lock_time = None\<rparr>)
                  main_handlers)
               (io_emit (Cam_release dev)))
            (io_return 0))"

text \<open>
  \<^verbatim>\<open>main()\<close>. The file sets \<^verbatim>\<open>VIDEO_DEVICE\<close> to an index; the model says nothing about
  a configuration without one.
\<close>

definition fd_main :: "base_config \<Rightarrow> fsys \<Rightarrow> vision \<Rightarrow> (int \<Rightarrow> bool) \<Rightarrow> env list \<Rightarrow> int io" where
  "fd_main cfg fs vis opens es =
     (if \<not> isdir fs (ENROLL_DIR cfg) then
        io_then (log (Enrollment_dir_not_found (ENROLL_DIR cfg))) (io_return 1)
      else
        io_bind (fd_load_known_encodings fs vis (ENROLL_DIR cfg)) (\<lambda>known.
          if known = [] then io_then (log No_known_encodings) (io_return 1)
          else
            io_then (log Starting_presence_guard)
              (fd_run_guard cfg vis known opens (the (VIDEO_DEVICE cfg)) es)))"

lemmas legacy_defs [guard_defs] =
  fd_lock_and_cooldown_def fd_detector_input_def fd_compare_def fd_iteration_def
  fd_run_guard_def fd_main_def

section \<open>One pass, in closed form\<close>

lemma fd_lock_session_outcome: "outcome (fd_lock_session run) = outcome (lock_session run)"
  using fd_lock_loop_agree [of run lock_cmds] by (simp add: fd_lock_session_def lock_session_def)

lemma fd_lock_and_cooldown_eq:
  "fd_lock_and_cooldown cfg run now_t =
     (case outcome (lock_session run) of
        Inr b \<Rightarrow> (trace_of (fd_lock_session run) @ [Sleep (LOCK_COOLDOWN cfg)],
                  Inr \<lparr>last_lock_time = Some now_t\<rparr>)
      | Inl ex \<Rightarrow> (trace_of (fd_lock_session run), Inl ex))"
  using fd_lock_session_outcome [of run]
  by (cases "fd_lock_session run"; cases "outcome (fd_lock_session run)")
    (simp_all add: fd_lock_and_cooldown_def)

text \<open>
  What a pass gets to see: the encodings of the faces in the frame, when the frame
  is read and the detector and the encoder return.
\<close>

definition fd_sees :: "vision \<Rightarrow> env \<Rightarrow> encoding list \<Rightarrow> bool" where
  "fd_sees vis e encs \<longleftrightarrow>
     (case read_back (frames e) of
        None \<Rightarrow> False
      | Some frame \<Rightarrow>
          (case face_locations vis (fd_detector_input vis frame) 1 Hog of
             Inl ex \<Rightarrow> False
           | Inr locs \<Rightarrow> face_encodings vis (fd_detector_input vis frame) locs = Inr encs))"

lemma fd_iteration_sees:
  assumes "fd_sees vis e encs"
  shows "fd_iteration cfg vis known cam e st =
           io_pre [Cam_read cam, Detect Hog 1, Encode, Log (Detected_faces (length encs))]
             (if length encs \<noteq> 1 then
                io_then (log Not_exactly_one_person) (fd_lock_and_cooldown cfg (procs e) (now e))
              else fd_compare cfg known (encs ! 0) (procs e) (now e) st)"
  using assms
  by (auto simp: fd_sees_def fd_iteration_def call_face_encodings_def
      split: option.splits sum.splits)

lemma fd_compare_eq:
  assumes "known \<noteq> []" and "outcome (lock_session run) = Inr b"
  shows "fd_compare cfg known enc run now_t st =
     (let best = Min (set (row_norms known enc)) in
      if best \<le> ALLOWED_TOLERANCE cfg
      then ([Log (Best_face_distance best), Log Authorized_only_person,
             Sleep (CHECK_INTERVAL cfg)], Inr st)
      else (Log (Best_face_distance best) # Log Unknown_face #
            trace_of (fd_lock_session run) @ [Sleep (LOCK_COOLDOWN cfg)],
            Inr \<lparr>last_lock_time = Some now_t\<rparr>))"
proof -
  from assms(1) have "np_min (row_norms known enc) = Inr (Min (set (row_norms known enc)))"
    by (simp add: np_min_Inr_iff row_norms_def)
  with assms(2) show ?thesis
    by (simp add: fd_compare_def fd_lock_and_cooldown_eq Let_def)
qed

section \<open>The decision of a pass\<close>

lemma fd_lock_loop_effects: "list_all (lock_effect cmds) (trace_of (fd_lock_loop run cmds))"
proof (induction cmds)
  case Nil
  show ?case by simp
next
  case (Cons cmd cmds)
  have "list_all (lock_effect (cmd # cmds)) (trace_of (fd_lock_loop run cmds))"
    using Cons.IH by (auto simp: list_all_iff intro: lock_effect_mono [of cmds])
  then show ?case
    by (cases "attempt run cmd")
      (simp_all add: fd_lock_loop_steps fd_failure_log_def split: sum.splits exn.splits)
qed

lemma sleeps_fd_lock_session [simp]: "sleeps (trace_of (fd_lock_session run)) = []"
  by (simp add: fd_lock_session_def sleeps_lock_effects [OF fd_lock_loop_effects])

text \<open>Whether the pass that sees the encodings \<open>encs\<close> accepts the scene.\<close>

definition fd_accepts :: "base_config \<Rightarrow> encoding list \<Rightarrow> encoding list \<Rightarrow> bool" where
  "fd_accepts cfg known encs \<longleftrightarrow>
     length encs = 1 \<and> Min (set (row_norms known (encs ! 0))) \<le> ALLOWED_TOLERANCE cfg"

lemma fd_iteration_eq:
  assumes "fd_sees vis e encs" and "known \<noteq> []" and "outcome (lock_session (procs e)) = Inr b"
  shows "fd_iteration cfg vis known cam e st =
     ([Cam_read cam, Detect Hog 1, Encode, Log (Detected_faces (length encs))] @
      (if length encs \<noteq> 1 then [Log Not_exactly_one_person]
       else Log (Best_face_distance (Min (set (row_norms known (encs ! 0))))) #
            (if fd_accepts cfg known encs then [Log Authorized_only_person] else [Log Unknown_face])) @
      (if fd_accepts cfg known encs then [Sleep (CHECK_INTERVAL cfg)]
       else trace_of (fd_lock_session (procs e)) @ [Sleep (LOCK_COOLDOWN cfg)]),
      Inr (if fd_accepts cfg known encs then st else \<lparr>last_lock_time = Some (now e)\<rparr>))"
  using assms(3)
  by (simp add: fd_iteration_sees [OF assms(1)] fd_compare_eq [OF assms(2,3)]
      fd_lock_and_cooldown_eq fd_accepts_def Let_def)

text \<open>
  The decision of \<^verbatim>\<open>face_detect.py\<close>. A pass that gets its encodings makes no
  lock attempt exactly when there is one encoding and its best distance to the
  enrolled encodings is within the tolerance; otherwise it runs the lock cascade
  once, at once: there is no grace period for an empty scene. Every such pass
  sleeps exactly once: for the cooldown when it locks, for the poll interval when
  it does not.
\<close>

theorem fd_iteration_decision:
  assumes "fd_sees vis e encs" and "known \<noteq> []" and "outcome (lock_session (procs e)) = Inr b"
  shows "lock_attempts (trace_of (fd_iteration cfg vis known cam e st)) =
           (if fd_accepts cfg known encs then 0 else 1) \<and>
         sleeps (trace_of (fd_iteration cfg vis known cam e st)) =
           [if fd_accepts cfg known encs then CHECK_INTERVAL cfg else LOCK_COOLDOWN cfg]"
  by (simp add: fd_iteration_eq [OF assms])

text \<open>What such a pass has established, as a sighting of the decision rules.\<close>

definition fd_sighting :: "base_config \<Rightarrow> encoding list \<Rightarrow> encoding list \<Rightarrow> datetime \<Rightarrow> sighting" where
  "fd_sighting cfg known encs now_t =
     \<lparr>companion_missing = False, face_count = length encs,
      verdict = fd_accepts cfg known encs, seen_at = now_t\<rparr>"

text \<open>
  C38. \<^verbatim>\<open>face_detect.py\<close> implements the decision rules with an absence timeout of
  zero: as long as the clock does not go back, a pass locks exactly when the rules
  with \<^verbatim>\<open>ABSENCE_TIMEOUT = 0\<close> demand it for what the pass has seen.
\<close>

theorem fd_iteration_refines_policy:
  assumes "fd_sees vis e encs" and "known \<noteq> []" and "outcome (lock_session (procs e)) = Inr b"
    and "last_seen \<le> now e"
  shows "lock_attempts (trace_of (fd_iteration cfg vis known cam e st)) =
           (if must_lock 0 last_seen (fd_sighting cfg known encs (now e)) then 1 else 0)"
  using assms(4)
  by (auto simp: fd_iteration_eq [OF assms(1-3)] must_lock_def phase_of_def fd_sighting_def
      fd_accepts_def)

section \<open>The variable \<^verbatim>\<open>last_lock_time\<close>\<close>

lemma fd_guard_loop_pass:
  "fd_guard_loop cfg vis known cam (e # es) st =
     (case outcome (fd_iteration cfg vis known cam e st) of
        Inr st' \<Rightarrow>
          io_pre (trace_of (fd_iteration cfg vis known cam e st))
            (fd_guard_loop cfg vis known cam es st')
      | Inl ex \<Rightarrow> (trace_of (fd_iteration cfg vis known cam e st), Inl ex))"
  by (cases "fd_iteration cfg vis known cam e st";
      cases "outcome (fd_iteration cfg vis known cam e st)") simp_all

declare fd_guard_loop.simps(2) [simp del]

text \<open>A pass does the same and ends the same way in every state.\<close>

lemma fd_compare_state:
  "trace_of (fd_compare cfg known enc run now_t st) = trace_of (fd_compare cfg known enc run now_t st') \<and>
   isl (outcome (fd_compare cfg known enc run now_t st)) =
   isl (outcome (fd_compare cfg known enc run now_t st')) \<and>
   (isl (outcome (fd_compare cfg known enc run now_t st)) \<longrightarrow>
      projl (outcome (fd_compare cfg known enc run now_t st)) =
      projl (outcome (fd_compare cfg known enc run now_t st')))"
  by (cases "np_min (row_norms known enc)")
    (simp_all add: fd_compare_def trace_io_then outcome_io_then)

lemma fd_iteration_state:
  "trace_of (fd_iteration cfg vis known cam e st) = trace_of (fd_iteration cfg vis known cam e st') \<and>
   isl (outcome (fd_iteration cfg vis known cam e st)) =
   isl (outcome (fd_iteration cfg vis known cam e st')) \<and>
   (isl (outcome (fd_iteration cfg vis known cam e st)) \<longrightarrow>
      projl (outcome (fd_iteration cfg vis known cam e st)) =
      projl (outcome (fd_iteration cfg vis known cam e st')))"
  using fd_compare_state [of cfg known _ "procs e" "now e" st st']
  by (simp add: fd_iteration_def trace_io_bind outcome_io_bind trace_io_then outcome_io_then
      split: option.splits sum.splits)

text \<open>
  C40. \<^verbatim>\<open>last_lock_time\<close> is written and never read: whatever its value, a run of the
  loop of \<^verbatim>\<open>face_detect.py\<close> has the same effects and ends with the same exception.
\<close>

theorem fd_last_lock_time_unused:
  "fd_guard_loop cfg vis known cam es st = fd_guard_loop cfg vis known cam es st'"
proof (induction es arbitrary: st st')
  case Nil
  show ?case by simp
next
  case (Cons e es)
  note same = fd_iteration_state [of cfg vis known cam e st st']
  show ?case
  proof (cases "outcome (fd_iteration cfg vis known cam e st)")
    case (Inl ex)
    with same show ?thesis
      by (cases "outcome (fd_iteration cfg vis known cam e st')") (auto simp: fd_guard_loop_pass)
  next
    case (Inr a)
    with same obtain b where "outcome (fd_iteration cfg vis known cam e st') = Inr b"
      by (cases "outcome (fd_iteration cfg vis known cam e st')") auto
    with Inr same Cons.IH [of a b] show ?thesis
      by (simp add: fd_guard_loop_pass)
  qed
qed

section \<open>The camera\<close>

lemma fd_lock_and_cooldown_neutral [simp]:
  "list_all camera_neutral (trace_of (fd_lock_and_cooldown cfg run now_t))"
proof -
  have "list_all camera_neutral (trace_of (fd_lock_session run))"
    using fd_lock_loop_effects [of lock_cmds run]
    by (auto simp: fd_lock_session_def list_all_iff intro: lock_effect_neutral)
  then show ?thesis
    by (simp add: fd_lock_and_cooldown_eq split: sum.splits)
qed

lemma fd_iteration_neutral:
  "list_all camera_neutral (trace_of (fd_iteration cfg vis known cam e st))"
  unfolding fd_iteration_def fd_compare_def
  by (intro trace_intros)
    (auto simp: call_face_encodings_def split: option.splits if_splits intro!: trace_intros)

lemma fd_guard_loop_neutral [simp]:
  "list_all camera_neutral (trace_of (fd_guard_loop cfg vis known cam es st))"
  by (induction es arbitrary: st)
    (simp_all add: fd_guard_loop_pass fd_iteration_neutral split: sum.splits)

lemma fd_guard_loop_stops: "\<exists>ex. outcome (fd_guard_loop cfg vis known cam es st) = Inl ex"
  by (induction es arbitrary: st) (simp_all add: fd_guard_loop_pass split: sum.splits)

lemma fd_run_guard_eq:
  "fd_run_guard cfg vis known opens dev es =
     (if opens dev then
        (Cam_open dev # trace_of (fd_guard_loop cfg vis known dev es \<lparr>last_lock_time = None\<rparr>) @
         [Log (exit_log (projl (outcome
            (fd_guard_loop cfg vis known dev es \<lparr>last_lock_time = None\<rparr>)))),
          Cam_release dev], Inr 0)
      else ([Cam_open dev, Log Cannot_open_device], Inr 1))"
proof -
  obtain t ex where "fd_guard_loop cfg vis known dev es \<lparr>last_lock_time = None\<rparr> = (t, Inl ex)"
    by (metis fd_guard_loop_stops prod.collapse)
  then show ?thesis
    by (simp add: fd_run_guard_def main_handlers_def exit_log_def not_is_Exception_iff)
qed

text \<open>
  \<^verbatim>\<open>face_detect.py\<close> releases the camera it opened on every way out of the loop.
  A capture object that did not open is not released before the script exits.
\<close>

theorem fd_run_guard_held:
  "held (trace_of (fd_run_guard cfg vis known opens dev es)) =
     (if opens dev then {#} else {#dev#})"
  by (simp add: fd_run_guard_eq)

section \<open>The program from start to exit\<close>

lemma fd_main_eq:
  "fd_main cfg fs vis opens es =
     (if \<not> isdir fs (ENROLL_DIR cfg) then
        ([Log (Enrollment_dir_not_found (ENROLL_DIR cfg))], Inr 1)
      else
        (case outcome (fd_load_known_encodings fs vis (ENROLL_DIR cfg)) of
           Inl ex \<Rightarrow> (trace_of (fd_load_known_encodings fs vis (ENROLL_DIR cfg)), Inl ex)
         | Inr known \<Rightarrow>
             io_pre (trace_of (fd_load_known_encodings fs vis (ENROLL_DIR cfg)))
               (if known = [] then ([Log No_known_encodings], Inr 1)
                else io_pre [Log Starting_presence_guard]
                       (fd_run_guard cfg vis known opens (the (VIDEO_DEVICE cfg)) es))))"
  by (cases "fd_load_known_encodings fs vis (ENROLL_DIR cfg)";
      cases "outcome (fd_load_known_encodings fs vis (ENROLL_DIR cfg))")
    (simp_all add: fd_main_def)

text \<open>
  The exit status of \<^verbatim>\<open>face_detect.py\<close>: 1 when the enrollment directory is missing,
  when no encoding is enrolled and when the camera does not open; 0 once the loop
  has been entered; the interrupt when enrollment is interrupted.
\<close>

theorem fd_main_exit_status:
  "outcome (fd_main cfg fs vis opens es) =
     (if \<not> isdir fs (ENROLL_DIR cfg) then Inr 1
      else
        (case outcome (fd_load_known_encodings fs vis (ENROLL_DIR cfg)) of
           Inl ex \<Rightarrow> Inl KeyboardInterrupt
         | Inr known \<Rightarrow>
             if known = [] \<or> \<not> opens (the (VIDEO_DEVICE cfg)) then Inr 1 else Inr 0))"
  using enroll_spec_Inl [of vis "glob fs (path_join (ENROLL_DIR cfg) ''*'')" "[]"]
  by (auto simp: fd_main_eq fd_run_guard_eq fd_load_known_encodings_eq split: sum.splits)

text \<open>
  The camera over the whole program: no capture object is created before
  enrollment has succeeded, and at the end the only one that can remain is the one
  that did not open.
\<close>

theorem fd_main_held:
  "held (trace_of (fd_main cfg fs vis opens es)) =
     (case outcome (fd_load_known_encodings fs vis (ENROLL_DIR cfg)) of
        Inr (k # known) \<Rightarrow>
          if isdir fs (ENROLL_DIR cfg) \<and> \<not> opens (the (VIDEO_DEVICE cfg))
          then {#the (VIDEO_DEVICE cfg)#} else {#}
      | _ \<Rightarrow> {#})"
  by (simp add: fd_main_eq fd_run_guard_eq split: sum.splits list.splits)

section \<open>Scenarios\<close>

text \<open>
  The file's configuration; the camera delivers the one-pixel image, in which
  \<open>vis_demo\<close> finds one face with encoding \<open>[0, 0]\<close>, or the empty image.
\<close>

definition fd_cfg :: base_config where
  "fd_cfg = face_detect_config ''/home/u''"

definition fd_fresh :: fd_state where
  "fd_fresh = \<lparr>last_lock_time = None\<rparr>"

definition fd_env_face :: env where
  "fd_env_face = env_face \<lparr>frames := \<lparr>retrieved = None, read_back = Some one_pixel\<rparr>\<rparr>"

definition fd_env_empty :: env where
  "fd_env_empty = env_face \<lparr>frames := \<lparr>retrieved = None, read_back = Some []\<rparr>\<rparr>"

lemma reverse_channels_small [simp]:
  "reverse_channels [] = []" "reverse_channels [[(c0, c1, c2)]] = [[(c2, c1, c0)]]"
  by (simp_all add: reverse_channels_def)

text \<open>A detector for which the channel order does not matter.\<close>

definition vis_any :: vision where
  "vis_any =
     vis_demo \<lparr> face_locations := (\<lambda>img up m. if img = [] then Inr [] else Inr [(0, 1, 1, 0)]) \<rparr>"

lemma fd_sees_face: "fd_sees vis_any fd_env_face [[0, 0]]"
  by (simp add: fd_sees_def fd_env_face_def env_face_def fd_detector_input_def vis_any_def
      vis_demo_def one_pixel_def)

lemma fd_sees_empty: "fd_sees vis_any fd_env_empty []"
  by (simp add: fd_sees_def fd_env_empty_def env_face_def fd_detector_input_def vis_any_def
      vis_demo_def)

lemma fd_lock_completes [simp]:
  "outcome (lock_session (procs fd_env_face)) = Inr True"
  "outcome (lock_session (procs fd_env_empty)) = Inr True"
  by (simp_all add: fd_env_face_def fd_env_empty_def env_face_def lock_session_os_gnome_only)

text \<open>At distance 0.3 the tolerance 0.45 of the file accepts; an empty scene locks at once.\<close>

theorem fd_iteration_decision_witness:
  "lock_attempts (trace_of (fd_iteration fd_cfg vis_any [[0.3, 0]] 0 fd_env_face fd_fresh)) = 0 \<and>
   sleeps (trace_of (fd_iteration fd_cfg vis_any [[0.3, 0]] 0 fd_env_face fd_fresh)) = [2] \<and>
   lock_attempts (trace_of (fd_iteration fd_cfg vis_any [[0.3, 0]] 0 fd_env_empty fd_fresh)) = 1 \<and>
   sleeps (trace_of (fd_iteration fd_cfg vis_any [[0.3, 0]] 0 fd_env_empty fd_fresh)) = [5]"
  using fd_iteration_decision [OF fd_sees_face _ fd_lock_completes(1), of "[[0.3, 0]]" fd_cfg 0 fd_fresh]
    fd_iteration_decision [OF fd_sees_empty _ fd_lock_completes(2), of "[[0.3, 0]]" fd_cfg 0 fd_fresh]
  by (simp add: fd_accepts_def fd_cfg_def row_norms_def sq_dist_def power2_eq_square)

theorem fd_iteration_refines_policy_witness:
  "lock_attempts (trace_of (fd_iteration fd_cfg vis_any [[0.3, 0]] 0 fd_env_empty fd_fresh)) = 1 \<and>
   must_lock 0 3000000 (fd_sighting fd_cfg [[0.3, 0]] [] 10000000)"
proof -
  have "3000000 \<le> now fd_env_empty"
    by (simp add: fd_env_empty_def env_face_def)
  from fd_iteration_refines_policy [OF fd_sees_empty _ fd_lock_completes(2) this,
      of "[[0.3, 0]]" fd_cfg 0 fd_fresh]
  show ?thesis
    by (simp add: fd_env_empty_def env_face_def must_lock_def phase_of_def fd_sighting_def)
qed

end
