(* ===== verification/Guard_Timing.thy ===== *)
theory Guard_Timing
  imports Guard_Run
begin

text \<open>
  Time in the decision loop of \<^verbatim>\<open>presence_guard.py\<close>.
  \<^item> The time budget of a trace (\<open>time_budget\<close>): the seconds the process can spend
    blocked in the calls of the trace that carry a duration, the \<^verbatim>\<open>timeout=\<close> of
    every \<^verbatim>\<open>subprocess.run\<close> and the argument of every \<^verbatim>\<open>time.sleep\<close>. The budget of
    the lock cascade, of the phone check and of a whole pass is bounded by the
    constants of the file; camera and detector calls carry no duration and are not
    counted.
  \<^item> The least time a completed pass sleeps, so the loop does not spin.
  \<^item> The response to absence: in a run whose passes see nobody, a pass locks
    exactly when its clock reading is \<^verbatim>\<open>ABSENCE_TIMEOUT\<close> past \<^verbatim>\<open>last_seen_someone\<close>;
    if the clock advances by at least \<open>d\<close> seconds from pass to pass, the lock comes
    no later than pass \<open>\<lceil>ABSENCE_TIMEOUT / d\<rceil>\<close>.
\<close>

section \<open>The time budget of a trace\<close>

fun budget :: "effect \<Rightarrow> real" where
  "budget (Exec c n) = real_of_int n"
| "budget (Sleep d) = d"
| "budget _ = 0"

definition time_budget :: "effect list \<Rightarrow> real" where
  "time_budget t = sum_list (map budget t)"

lemma time_budget_simps [simp]:
  "time_budget [] = 0"
  "time_budget (ev # t) = budget ev + time_budget t"
  "time_budget (t @ t') = time_budget t + time_budget t'"
  by (simp_all add: time_budget_def)

text \<open>The budget is made of the commands and the sleeps of the trace.\<close>

lemma time_budget_commands_sleeps:
  "time_budget t = (\<Sum>(c, n)\<leftarrow>commands t. real_of_int n) + sum_list (sleeps t)"
proof (induction t)
  case Nil
  show ?case by simp
next
  case (Cons ev t)
  then show ?case
    by (cases ev) (simp_all add: sleeps_def List.map_filter_def)
qed

lemma time_budget_quiet_no_sleep:
  "list_all quiet t \<Longrightarrow> sleeps t = [] \<Longrightarrow> time_budget t = 0"
  by (simp add: time_budget_commands_sleeps)

section \<open>Bounds through the combinators\<close>

named_theorems bound_intros "rules that bound the time budget of composed code by the parts"

lemma time_budget_bind [bound_intros]:
  assumes "time_budget (trace_of m) \<le> a"
    and "\<And>x. outcome m = Inr x \<Longrightarrow> time_budget (trace_of (f x)) \<le> b"
    and "0 \<le> b"
  shows "time_budget (trace_of (io_bind m f)) \<le> a + b"
  using assms by (cases "outcome m") (auto simp: trace_io_bind intro: add_mono)

lemma time_budget_then [bound_intros]:
  assumes "time_budget (trace_of m) \<le> a" and "time_budget (trace_of k) \<le> b" and "0 \<le> b"
  shows "time_budget (trace_of (io_then m k)) \<le> a + b"
  unfolding io_then_def using assms by (intro time_budget_bind)

lemma time_budget_try [bound_intros]:
  assumes "time_budget (trace_of m) \<le> a"
    and "\<And>e k. outcome m = Inl e \<Longrightarrow> h e = Some k \<Longrightarrow> time_budget (trace_of k) \<le> b"
    and "0 \<le> b"
  shows "time_budget (trace_of (io_try m h)) \<le> a + b"
  using assms by (cases m; cases "outcome m") (auto split: option.splits intro: add_mono)

section \<open>The components\<close>

lemma time_budget_subprocess_run [simp]:
  "time_budget (trace_of (subprocess_run run cmd check timeout)) = real_of_int timeout"
  by simp

text \<open>Each lock command may take its timeout of 5 seconds.\<close>

lemma time_budget_lock_loop:
  "time_budget (trace_of (lock_loop run cmds)) \<le> 5 * real (length cmds)"
proof (induction cmds)
  case Nil
  show ?case by simp
next
  case (Cons cmd cmds)
  have "time_budget (trace_of (lock_loop run (cmd # cmds))) \<le> 5 + 5 * real (length cmds)"
    unfolding lock_loop.simps
  proof (rule time_budget_try)
    show "time_budget (trace_of (io_then (subprocess_run run cmd True 5)
        (io_then (log (Locked_via cmd)) (io_return True)))) \<le> 5"
      by (simp add: trace_io_then split: sum.splits)
  next
    fix e k
    assume "except_Exception (\<lambda>e. lock_loop run cmds) e = Some k"
    then have "k = lock_loop run cmds"
      by (simp add: except_Exception_def split: if_splits)
    with Cons.IH show "time_budget (trace_of k) \<le> 5 * real (length cmds)"
      by simp
  qed simp
  then show ?case by simp
qed

lemma time_budget_lock_session: "time_budget (trace_of (lock_session run)) \<le> 20"
  using time_budget_lock_loop [of run lock_cmds] by (simp add: lock_session_def lock_cmds_def)

text \<open>The phone check runs one command with a timeout of 6 seconds.\<close>

lemma time_budget_is_phone_present:
  "time_budget (trace_of (is_phone_present run mac)) = 6"
  by (simp add: is_phone_present_eq time_budget_commands_sleeps split: sum.splits)

lemma time_budget_phone_absent:
  "time_budget (trace_of (phone_absent cfg run)) = (if USE_BLUETOOTH cfg then 6 else 0)"
  by (simp add: phone_absent_enabled time_budget_is_phone_present)

lemma time_budget_latest_frame [simp]: "time_budget (trace_of (latest_frame cam fio)) = 0"
  by (simp add: time_budget_quiet_no_sleep sleeps_latest_frame)

lemma time_budget_detect_faces_rgb [simp]:
  "time_budget (trace_of (detect_faces_rgb cfg vis rgb)) = 0"
  by (simp add: time_budget_quiet_no_sleep sleeps_detect_faces_rgb)

lemma time_budget_identity_check [simp]:
  "time_budget (trace_of (identity_check cfg vis known rgb locs i)) = 0"
  by (simp add: time_budget_quiet_no_sleep sleeps_identity_check)

section \<open>The blocks of a pass\<close>

lemma time_budget_lock_and_cooldown:
  assumes "0 \<le> LOCK_COOLDOWN cfg"
  shows "time_budget (trace_of (lock_and_cooldown cfg run)) \<le> 20 + LOCK_COOLDOWN cfg"
  unfolding lock_and_cooldown_def
  using assms by (intro time_budget_then time_budget_lock_session) simp_all

lemma time_budget_not_one_face:
  assumes "0 \<le> LOCK_COOLDOWN cfg" and "0 \<le> CHECK_INTERVAL cfg"
  shows "time_budget (trace_of (not_one_face cfg run last_seen now_t n)) \<le>
           20 + LOCK_COOLDOWN cfg + CHECK_INTERVAL cfg"
proof -
  have "time_budget (trace_of (io_then (log m) (lock_and_cooldown cfg run))) \<le>
      20 + LOCK_COOLDOWN cfg" for m
    using time_budget_then [OF _ time_budget_lock_and_cooldown [OF assms(1)], of "log m" 0 run]
      assms(1)
    by simp
  with assms show ?thesis
    unfolding not_one_face_def by (intro time_budget_then) (simp_all split: if_splits)
qed

lemma time_budget_one_face:
  assumes "0 \<le> LOCK_COOLDOWN cfg" and "0 \<le> CHECK_INTERVAL cfg"
  shows "time_budget (trace_of (one_face cfg vis known run rgb locs now_t st)) \<le>
           20 + LOCK_COOLDOWN cfg + CHECK_INTERVAL cfg"
proof -
  have decide: "time_budget (trace_of
      (if a then io_then (log Authorized_face_present) (io_return (st\<lparr>last_seen_someone := now_t\<rparr>))
       else io_then (log Single_face_not_authorized)
              (io_then (lock_and_cooldown cfg run) (io_return st)))) \<le> 20 + LOCK_COOLDOWN cfg"
    for a
    using time_budget_lock_and_cooldown [OF assms(1), of run] assms(1)
    by (simp add: trace_io_then split: sum.splits)
  have "time_budget (trace_of (one_face cfg vis known run rgb locs now_t st)) \<le>
      0 + (20 + LOCK_COOLDOWN cfg + CHECK_INTERVAL cfg)"
    unfolding one_face_def
    using assms by (intro time_budget_bind time_budget_then decide) simp_all
  then show ?thesis by simp
qed

section \<open>The budget of a pass\<close>

text \<open>
  C21. A pass cannot block for longer than its timeouts and sleeps add up to: 6
  seconds for the phone check if it is enabled, 5 seconds for each of the four lock
  commands, the cooldown and the poll interval. This holds on every path of the
  pass, also when a call raises. With the constants of the file the bound is 24.35
  seconds.
\<close>

theorem iteration_time_budget:
  assumes "0 \<le> LOCK_COOLDOWN cfg" and "0 \<le> CHECK_INTERVAL cfg"
  shows "time_budget (trace_of (iteration cfg vis known cam e st)) \<le>
           (if USE_BLUETOOTH cfg then 6 else 0) + (20 + LOCK_COOLDOWN cfg + CHECK_INTERVAL cfg)"
proof -
  note parts = time_budget_lock_and_cooldown [OF assms(1), of "procs e"]
    time_budget_not_one_face [OF assms, of "procs e" "last_seen_someone st" "now e"]
    time_budget_one_face [OF assms, of vis known "procs e" _ _ "now e" st]
  show ?thesis
    unfolding iteration_def
    using parts assms
    by (auto simp: trace_io_bind trace_io_then time_budget_phone_absent
        split: option.splits sum.splits)
qed

section \<open>The loop does not spin\<close>

lemma sleeps_phone_absent [simp]: "sleeps (trace_of (phone_absent cfg run)) = []"
  by (cases "USE_BLUETOOTH cfg") (simp_all add: phone_absent_enabled)

lemma sleeps_lock_and_cooldown:
  "sleeps (trace_of (lock_and_cooldown cfg run)) =
     (case outcome (lock_and_cooldown cfg run) of Inr u \<Rightarrow> [LOCK_COOLDOWN cfg] | Inl ex \<Rightarrow> [])"
  by (simp add: lock_and_cooldown_eq split: sum.splits)

lemma sleeps_not_one_face:
  "sleeps (trace_of (not_one_face cfg run last_seen now_t n)) =
     (case outcome (not_one_face cfg run last_seen now_t n) of
        Inl ex \<Rightarrow> []
      | Inr u \<Rightarrow>
          if n = 0 \<and> total_seconds (now_t - last_seen) < ABSENCE_TIMEOUT cfg
          then [CHECK_INTERVAL cfg] else [LOCK_COOLDOWN cfg, CHECK_INTERVAL cfg])"
  by (auto simp: not_one_face_def lock_and_cooldown_eq trace_io_then outcome_io_then
      split: sum.splits)

lemma sleeps_one_face:
  "sleeps (trace_of (one_face cfg vis known run rgb locs now_t st)) =
     (case outcome (one_face cfg vis known run rgb locs now_t st) of
        Inl ex \<Rightarrow> []
      | Inr st' \<Rightarrow>
          if outcome (identity_check cfg vis known rgb locs (frame_i st)) = Inr True
          then [CHECK_INTERVAL cfg] else [LOCK_COOLDOWN cfg, CHECK_INTERVAL cfg])"
  by (auto simp: one_face_def lock_and_cooldown_eq trace_io_then outcome_io_then trace_io_bind
      outcome_io_bind split: sum.splits)

text \<open>
  Every pass that completes sleeps: for the cooldown when the phone is missing,
  for the poll interval when it does not lock, and for the cooldown followed by
  the poll interval when it locks on what it sees. No pass completes without
  sleeping, so with positive constants the loop does not spin.
\<close>

theorem iteration_sleeps:
  assumes "outcome (iteration cfg vis known cam e st) = Inr st'"
  shows "sleeps (trace_of (iteration cfg vis known cam e st)) \<in>
           {[LOCK_COOLDOWN cfg], [CHECK_INTERVAL cfg], [LOCK_COOLDOWN cfg, CHECK_INTERVAL cfg]}"
  using assms unfolding iteration_def
  by (auto simp: trace_io_bind trace_io_then outcome_io_bind outcome_io_then
      sleeps_lock_and_cooldown sleeps_not_one_face sleeps_one_face
      split: option.splits sum.splits if_splits)

section \<open>The response to absence\<close>

text \<open>
  A pass that sees nobody completes and leaves the state as it is; it locks
  exactly when the absence timeout has been reached.
\<close>

lemma iteration_sees_nobody:
  assumes "sees_nobody cfg vis cam e" and "outcome (lock_session (procs e)) = Inr b"
  shows "outcome (iteration cfg vis known cam e st) = Inr st"
    and "lock_attempts (trace_of (iteration cfg vis known cam e st)) =
           (if ABSENCE_TIMEOUT cfg \<le> total_seconds (now e - last_seen_someone st) then 1 else 0)"
proof -
  from sees_nobody_sees [OF assms(1)] obtain t rgb where sees: "sees cfg vis cam e t rgb []"
    by blast
  show "outcome (iteration cfg vis known cam e st) = Inr st"
    by (simp add: iteration_sees [OF sees] not_one_face_eq [OF assms(2)])
  from lock_attempts_sees [OF sees]
  show "lock_attempts (trace_of (iteration cfg vis known cam e st)) =
      (if ABSENCE_TIMEOUT cfg \<le> total_seconds (now e - last_seen_someone st) then 1 else 0)"
    by (simp add: iteration_sees [OF sees] not_one_face_eq [OF assms(2)])
qed

lemma run_nobody:
  assumes "list_all (sees_nobody cfg vis cam) es"
    and "list_all (\<lambda>e. \<exists>b. outcome (lock_session (procs e)) = Inr b) es"
  shows "run_locks cfg vis known cam es st =
           map (\<lambda>e. if ABSENCE_TIMEOUT cfg \<le> total_seconds (now e - last_seen_someone st)
                    then 1 else 0) es"
    and "run_to cfg vis known cam es st = Some st"
  using assms by (induction es) (auto simp: iteration_sees_nobody)

text \<open>
  \<open>paced d t es\<close>: the clock readings of the passes \<open>es\<close> advance by at least \<open>d\<close>
  seconds from one pass to the next, the first being at least \<open>d\<close> seconds after \<open>t\<close>.
\<close>

fun paced :: "real \<Rightarrow> datetime \<Rightarrow> env list \<Rightarrow> bool" where
  "paced d t [] = True"
| "paced d t (e # es) = (d \<le> total_seconds (now e - t) \<and> paced d (now e) es)"

lemma total_seconds_diff:
  "total_seconds (c - a) = total_seconds (c - b) + total_seconds (b - a)"
  by (simp add: total_seconds_def field_simps)

lemma paced_nth:
  assumes "paced d t es" and "n < length es"
  shows "real (Suc n) * d \<le> total_seconds (now (es ! n) - t)"
  using assms
proof (induction es arbitrary: t n)
  case Nil
  then show ?case by simp
next
  case (Cons e es)
  show ?case
  proof (cases n)
    case 0
    with Cons.prems show ?thesis by simp
  next
    case (Suc m)
    with Cons.prems have "real (Suc m) * d \<le> total_seconds (now (es ! m) - now e)"
      by (intro Cons.IH) simp_all
    moreover from Cons.prems have "d \<le> total_seconds (now e - t)"
      by simp
    ultimately show ?thesis
      using Suc total_seconds_diff [of "now (es ! m)" t "now e"] by (simp add: algebra_simps)
  qed
qed

lemma nobody_locked_at:
  assumes "list_all (sees_nobody cfg vis cam) es"
    and "list_all (\<lambda>e. \<exists>b. outcome (lock_session (procs e)) = Inr b) es"
    and "paced d (last_seen_someone st) es"
    and "n < length es" and "ABSENCE_TIMEOUT cfg \<le> real (Suc n) * d"
  shows "run_locks cfg vis known cam es st ! n = 1"
    and "0 < sum_list (run_locks cfg vis known cam es st)"
proof -
  from paced_nth [OF assms(3,4)] assms(5)
  have "ABSENCE_TIMEOUT cfg \<le> total_seconds (now (es ! n) - last_seen_someone st)"
    by simp
  with assms(4) show lock: "run_locks cfg vis known cam es st ! n = 1"
    by (simp add: run_nobody [OF assms(1,2)])
  have "n < length (run_locks cfg vis known cam es st)"
    using assms(4) by (simp add: run_nobody [OF assms(1,2)])
  then have "run_locks cfg vis known cam es st ! n \<le> sum_list (run_locks cfg vis known cam es st)"
    by (rule elem_le_sum_list)
  with lock show "0 < sum_list (run_locks cfg vis known cam es st)"
    by simp
qed

text \<open>
  C15. Bounded response to absence. In a run whose passes see nobody, with the
  clock advancing by at least \<open>d\<close> seconds per pass from \<^verbatim>\<open>last_seen_someone\<close> on,
  every pass from number \<open>ABSENCE_TIMEOUT / d\<close> on (counting from 1) runs the lock
  cascade: an absent user is locked out after at most \<open>\<lceil>ABSENCE_TIMEOUT / d\<rceil>\<close>
  passes.
\<close>

theorem absent_user_locked:
  assumes "list_all (sees_nobody cfg vis cam) es"
    and "list_all (\<lambda>e. \<exists>b. outcome (lock_session (procs e)) = Inr b) es"
    and "paced d (last_seen_someone st) es"
    and "n < length es" and "ABSENCE_TIMEOUT cfg \<le> real (Suc n) * d"
  shows "run_locks cfg vis known cam es st ! n = 1 \<and>
         0 < lock_attempts (trace_of (guard_loop cfg vis known cam es st))"
  using nobody_locked_at [OF assms] by (simp add: lock_attempts_guard_loop)

section \<open>Scenarios\<close>

text \<open>With the constants of the file a pass blocks for at most 24.35 seconds.\<close>

theorem iteration_time_budget_witness:
  "time_budget (trace_of (iteration cfg0 vis_demo known_user 0 env_face st0)) \<le> 24.35"
  using iteration_time_budget [of cfg0 vis_demo known_user 0 env_face st0]
  by (simp add: cfg0_def)

theorem iteration_sleeps_witness:
  "sleeps (trace_of (iteration cfg_hog_only vis_demo known_user 0 env_face st0)) \<in>
     {[LOCK_COOLDOWN cfg_hog_only], [CHECK_INTERVAL cfg_hog_only],
      [LOCK_COOLDOWN cfg_hog_only, CHECK_INTERVAL cfg_hog_only]}"
  using iteration_sleeps [of cfg_hog_only vis_demo known_user 0 env_face st0 st_seen]
  by (simp add: pass_user_present)

text \<open>
  Nobody at seconds 10, 14 and 18, last seen at second 3: the clock advances by
  at least 4 seconds per pass, the timeout is 6 seconds, so the second pass locks.
\<close>

theorem absent_user_locked_witness:
  "run_locks cfg_hog_only vis_demo known_user 0 es_nobody st0 ! 1 = 1 \<and>
   0 < lock_attempts (trace_of (guard_loop cfg_hog_only vis_demo known_user 0 es_nobody st0))"
proof -
  have "list_all (sees_nobody cfg_hog_only vis_demo 0) es_nobody"
    by (simp add: es_nobody_def)
  moreover have "list_all (\<lambda>e. \<exists>b. outcome (lock_session (procs e)) = Inr b) es_nobody"
    by (auto simp: es_nobody_def scenario_defs lock_session_os_gnome_only)
  moreover have "paced 4 (last_seen_someone st0) es_nobody"
    by (simp add: es_nobody_def scenario_defs total_seconds_def)
  ultimately show ?thesis
    using absent_user_locked [of cfg_hog_only vis_demo 0 es_nobody 4 st0 1 known_user]
    by (simp add: length_es_nobody scenario_defs)
qed

end
