(* ===== verification/Fail_Closed.thy ===== *)
theory Fail_Closed
  imports Guard_Timing
begin

text \<open>
  The guard as a fail-closed control: what can be said of a pass of the loop of
  \<^verbatim>\<open>presence_guard.py\<close> from the lock attempts in its trace alone, on every path of
  the pass, whether it completes or is ended by an exception.
  \<^item> The lock attempts of a pass are those the decision rules demand for what the
    pass has established (\<open>sighting_in\<close>), and none if it has established nothing.
  \<^item> A pass that completes without a lock attempt has seen one authorized face, or
    nobody with the absence timeout not yet reached, or could not read a frame
    (\<open>read_fails\<close>).
  \<^item> The last case is the one way past the guard that needs no face: as long as
    the camera delivers no frame, no pass locks, however long that lasts
    (\<open>guard_loop_blind\<close>; for the whole program see the root theory).
\<close>

section \<open>The lock attempts of the blocks\<close>

lemma lock_attempts_phone_absent [simp]: "lock_attempts (trace_of (phone_absent cfg run)) = 0"
  by (simp add: trace_phone_absent)

lemma lock_attempts_lock_and_cooldown [simp]:
  "lock_attempts (trace_of (lock_and_cooldown cfg run)) = 1"
  by (simp add: lock_and_cooldown_eq split: sum.splits)

lemma lock_attempts_not_one_face:
  "lock_attempts (trace_of (not_one_face cfg run last_seen now_t n)) =
     (if n = 0 \<and> total_seconds (now_t - last_seen) < ABSENCE_TIMEOUT cfg then 0 else 1)"
  by (simp add: not_one_face_def trace_io_then split: sum.splits)

lemma lock_attempts_one_face:
  "lock_attempts (trace_of (one_face cfg vis known run rgb locs now_t st)) =
     (case outcome (identity_check cfg vis known rgb locs (frame_i st)) of
        Inl ex \<Rightarrow> 0 | Inr a \<Rightarrow> if a then 0 else 1)"
  by (simp add: one_face_def trace_io_bind trace_io_then split: sum.splits)

section \<open>The lock attempts of a pass\<close>

text \<open>
  On every path of a pass: one lock attempt if the rules demand a lock for the
  sighting of the pass, none if they do not or if there is no sighting.
\<close>

lemma lock_attempts_iteration:
  "lock_attempts (trace_of (iteration cfg vis known cam e st)) =
     (case sighting_in cfg vis known cam e st of
        None \<Rightarrow> 0
      | Some s \<Rightarrow> if must_lock (ABSENCE_TIMEOUT cfg) (last_seen_someone st) s then 1 else 0)"
  unfolding iteration_def sighting_in_def
  by (auto simp: trace_io_bind trace_io_then lock_attempts_not_one_face lock_attempts_one_face
      must_lock_def phase_of_def total_seconds_def
      split: sum.splits option.splits bool.splits)

text \<open>\<open>read_fails\<close>: the phone check passes or is disabled, and the camera delivers no frame.\<close>

definition read_fails :: "config \<Rightarrow> int \<Rightarrow> env \<Rightarrow> bool" where
  "read_fails cfg cam e \<longleftrightarrow>
     outcome (phone_absent cfg (procs e)) = Inr False \<and>
     outcome (latest_frame cam (frames e)) = Inr None"

lemma completed_without_sighting:
  assumes "outcome (iteration cfg vis known cam e st) = Inr st'"
    and "sighting_in cfg vis known cam e st = None"
  shows "read_fails cfg cam e"
  using assms latest_frame_Inr [of cam "frames e"] unfolding iteration_def sighting_in_def
  by (auto simp: read_fails_def one_face_def outcome_io_bind outcome_io_then
      split: sum.splits option.splits bool.splits if_splits)

text \<open>
  C7. Fail closed, pass by pass. A pass that completes without a lock attempt has
  established that the phone is not missing and that exactly one face, judged
  authorized, is in front of the camera, or that nobody is there and the absence
  timeout has not been reached; or it could not read a frame. Nothing else (several
  faces, a stranger, a missing phone, an exception swallowed somewhere) lets a pass
  go by without a lock attempt.
\<close>

theorem quiet_pass_benign:
  assumes "outcome (iteration cfg vis known cam e st) = Inr st'"
    and "lock_attempts (trace_of (iteration cfg vis known cam e st)) = 0"
  shows "read_fails cfg cam e \<or>
         (\<exists>s. sighting_in cfg vis known cam e st = Some s \<and> \<not> companion_missing s \<and>
              (face_count s = 1 \<and> verdict s \<or>
               face_count s = 0 \<and>
               real_of_int (seen_at s - last_seen_someone st) / 1000000 < ABSENCE_TIMEOUT cfg))"
proof (cases "sighting_in cfg vis known cam e st")
  case None
  with assms(1) show ?thesis
    by (simp add: completed_without_sighting)
next
  case (Some s)
  with assms(2) have "\<not> must_lock (ABSENCE_TIMEOUT cfg) (last_seen_someone st) s"
    by (simp add: lock_attempts_iteration split: if_splits)
  with Some show ?thesis
    by (simp add: not_must_lock_iff)
qed

section \<open>The lock attempts of a run\<close>

text \<open>A pass makes at most one lock attempt, a run at most one per pass.\<close>

lemma lock_attempts_iteration_le: "lock_attempts (trace_of (iteration cfg vis known cam e st)) \<le> 1"
  by (simp add: lock_attempts_iteration split: option.splits)

theorem guard_loop_lock_rate:
  "lock_attempts (trace_of (guard_loop cfg vis known cam es st)) \<le> length es"
proof (induction es arbitrary: st)
  case Nil
  show ?case by simp
next
  case (Cons e es)
  show ?case
  proof (cases "outcome (iteration cfg vis known cam e st)")
    case (Inl ex)
    with lock_attempts_iteration_le [of cfg vis known cam e st] show ?thesis
      by (simp add: guard_loop_pass)
  next
    case (Inr st')
    with lock_attempts_iteration_le [of cfg vis known cam e st] Cons.IH [of st'] show ?thesis
      by (simp add: guard_loop_pass)
  qed
qed

section \<open>A camera that delivers nothing\<close>

text \<open>
  A pass without a frame ends at its \<^verbatim>\<open>continue\<close> before the absence rule is looked
  at. So a run in which no frame can be read goes on until it is interrupted: every
  pass sleeps for the poll interval and completes, no pass makes a lock attempt,
  and the state, with the time somebody was last seen, is not touched.
\<close>

lemma iteration_blind:
  assumes "read_fails cfg cam e"
  shows "outcome (iteration cfg vis known cam e st) = Inr st"
    and "lock_attempts (trace_of (iteration cfg vis known cam e st)) = 0"
    and "sleeps (trace_of (iteration cfg vis known cam e st)) = [CHECK_INTERVAL cfg]"
  using assms
  by (simp_all add: read_fails_def iteration_read_failure sleeps_latest_frame)

lemma guard_loop_blind:
  assumes "list_all (read_fails cfg cam) es"
  shows "outcome (guard_loop cfg vis known cam es st) = Inl KeyboardInterrupt"
    and "lock_attempts (trace_of (guard_loop cfg vis known cam es st)) = 0"
    and "run_to cfg vis known cam es st = Some st"
    and "sleeps (trace_of (guard_loop cfg vis known cam es st)) =
           replicate (length es) (CHECK_INTERVAL cfg)"
  using assms
  by (induction es) (simp_all add: guard_loop_pass iteration_blind)

section \<open>Scenarios\<close>

lemma read_fails_env_blind: "read_fails cfg0 cam env_blind"
  by (simp add: read_fails_def scenario_defs latest_frame_eq phone_absent_def)

theorem quiet_pass_benign_witness:
  "read_fails cfg0 0 env_blind \<or>
   (\<exists>s. sighting_in cfg0 vis_demo [[0.3, 0]] 0 env_blind st0 = Some s \<and> \<not> companion_missing s \<and>
        (face_count s = 1 \<and> verdict s \<or>
         face_count s = 0 \<and>
         real_of_int (seen_at s - last_seen_someone st0) / 1000000 < ABSENCE_TIMEOUT cfg0))"
  using quiet_pass_benign [of cfg0 vis_demo "[[0.3, 0]]" 0 env_blind st0 st0]
    iteration_blind [OF read_fails_env_blind, of vis_demo "[[0.3, 0]]" 0 st0]
  by simp

end
