(* ===== verification/Encoding_Shape.thy ===== *)
theory Encoding_Shape
  imports Guard_Main
begin

text \<open>
  The shape of the arrays the identity check works on. \<^verbatim>\<open>known - encs[0]\<close> in
  \<^verbatim>\<open>presence_guard.py\<close> is a row-wise difference only if every row of \<^verbatim>\<open>known\<close> has
  the length of \<^verbatim>\<open>encs[0]\<close>; \<open>sq_dist\<close> pairs the components of its arguments and is
  the squared Euclidean distance under that condition.

  The condition is an invariant of the program, given the one thing the program
  relies on: the encoder returns vectors of one length \<open>d\<close> (\<open>encoder_dim\<close>; 128 for
  \<^verbatim>\<open>face_recognition\<close>). Enrollment keeps it (\<open>rows_of_dim\<close> of what it returns), the
  start-up hands the enrolled array to the loop, the loop never changes it, and the
  vector it is compared with comes from the same encoder.
\<close>

section \<open>Well-shaped arrays\<close>

definition rows_of_dim :: "nat \<Rightarrow> encoding list \<Rightarrow> bool" where
  "rows_of_dim d encs = list_all (\<lambda>enc. length enc = d) encs"

lemma rows_of_dim_simps [simp]:
  "rows_of_dim d []"
  "rows_of_dim d (enc # encs) \<longleftrightarrow> length enc = d \<and> rows_of_dim d encs"
  "rows_of_dim d (encs @ encs') \<longleftrightarrow> rows_of_dim d encs \<and> rows_of_dim d encs'"
  by (simp_all add: rows_of_dim_def)

text \<open>The contract of the encoder: whatever it returns, the vectors have length \<open>d\<close>.\<close>

definition encoder_dim :: "nat \<Rightarrow> vision \<Rightarrow> bool" where
  "encoder_dim d vis \<longleftrightarrow>
     (\<forall>img locs encs. face_encodings vis img locs = Inr encs \<longrightarrow> rows_of_dim d encs)"

lemma encoder_dimD:
  "encoder_dim d vis \<Longrightarrow> face_encodings vis img locs = Inr (enc # encs) \<Longrightarrow> length enc = d"
  unfolding encoder_dim_def by (metis rows_of_dim_simps(2))

section \<open>Enrollment keeps the shape\<close>

lemma enrolled_dim:
  assumes "encoder_dim d vis" and "enrolled vis f = Enrolled enc"
  shows "length enc = d"
  using assms
  by (auto simp: enrolled_def split: sum.splits list.splits dest: encoder_dimD)

lemma append_opt_dim:
  "rows_of_dim d encs \<Longrightarrow> (\<And>enc. r = Some enc \<Longrightarrow> length enc = d) \<Longrightarrow>
     rows_of_dim d (append_opt encs r)"
  by (cases r) (simp_all add: append_opt_def)

text \<open>The loop over the files, in both scripts: what is appended has length \<open>d\<close>.\<close>

lemma enroll_spec_dim:
  assumes "encoder_dim d vis"
  shows "enroll_spec vis fs encs = Inr encs' \<Longrightarrow> rows_of_dim d encs \<Longrightarrow> rows_of_dim d encs'"
proof (induction fs arbitrary: encs)
  case Nil
  then show ?case by simp
next
  case (Cons f fs)
  from Cons.prems(1) obtain r where r: "contributes (enrolled vis f) = Inr r"
    and rest: "enroll_spec vis fs (append_opt encs r) = Inr encs'"
    by (auto split: sum.splits)
  from r have "length enc = d" if "r = Some enc" for enc
    using that enrolled_dim [OF assms, of f enc]
    by (cases "enrolled vis f") (simp_all add: contributes_def split: if_splits)
  with Cons.prems(2) have "rows_of_dim d (append_opt encs r)"
    by (intro append_opt_dim)
  with rest show ?case by (rule Cons.IH)
qed

lemma load_known_encodings_dim:
  assumes "encoder_dim d vis"
    and "outcome (load_known_encodings fs vis enroll_dir) = Inr (Some known)"
  shows "known \<noteq> []" and "rows_of_dim d known"
proof -
  from assms(2) show "known \<noteq> []"
    by (simp add: load_known_encodings_Some)
  from assms(2) have "enroll_spec vis (enroll_files fs enroll_dir) [] = Inr known"
    by (auto simp: load_known_encodings_eq split: sum.splits if_splits)
  from enroll_spec_dim [OF assms(1) this] show "rows_of_dim d known"
    by simp
qed

lemma fd_load_known_encodings_dim:
  assumes "encoder_dim d vis"
    and "outcome (fd_load_known_encodings fs vis enroll_dir) = Inr known"
  shows "rows_of_dim d known"
  using enroll_spec_dim [OF assms(1), of "glob fs (path_join enroll_dir ''*'')" "[]" known] assms(2)
  by (simp add: fd_load_known_encodings_eq)

section \<open>The distance on vectors of one length\<close>

lemma sq_dist_Nil [simp]: "sq_dist [] b = 0" "sq_dist a [] = 0"
  by (simp_all add: sq_dist_def)

lemma sq_dist_Cons [simp]: "sq_dist (x # a) (y # b) = (x - y)\<^sup>2 + sq_dist a b"
  by (simp add: sq_dist_def)

lemma sq_dist_commute: "sq_dist a b = sq_dist b a"
proof (induction a arbitrary: b)
  case Nil
  show ?case by simp
next
  case (Cons x a)
  then show ?case
    by (cases b) (simp_all add: power2_commute)
qed

lemma sq_dist_self [simp]: "sq_dist a a = 0"
  by (induction a) simp_all

text \<open>No component is left out: the sum runs over all \<open>d\<close> indices.\<close>

lemma sq_dist_eq_sum:
  "length a = length b \<Longrightarrow> sq_dist a b = (\<Sum>i<length a. (a ! i - b ! i)\<^sup>2)"
proof (induction a arbitrary: b)
  case Nil
  show ?case by simp
next
  case (Cons x a)
  then obtain y b' where b: "b = y # b'" and "length a = length b'"
    by (cases b) simp_all
  with Cons.IH [of b'] show ?case
    by (simp add: lessThan_Suc_eq_insert_0 sum.reindex zero_notin_Suc_image)
qed

lemma sq_dist_zero_iff: "length a = length b \<Longrightarrow> sq_dist a b = 0 \<longleftrightarrow> a = b"
proof (induction a arbitrary: b)
  case Nil
  then show ?case by simp
next
  case (Cons x a)
  then obtain y b' where b: "b = y # b'" and len: "length a = length b'"
    by (cases b) simp_all
  have "(x - y)\<^sup>2 + sq_dist a b' = 0 \<longleftrightarrow> (x - y)\<^sup>2 = 0 \<and> sq_dist a b' = 0"
    by (intro add_nonneg_eq_0_iff) simp_all
  with Cons.IH [OF len] b show ?case by simp
qed

section \<open>What reaches the identity check\<close>

text \<open>
  C22. The arrays of the identity check are well shaped. If the encoder returns
  vectors of length \<open>d\<close>, the array the start-up hands to the loop is not empty, all
  its rows have length \<open>d\<close>, and so has the vector of the face in front of the
  camera; \<^verbatim>\<open>np.linalg.norm(known - encs[0], axis=1)\<close> is then the list of Euclidean
  distances over all \<open>d\<close> components, one per enrolled row.
\<close>

theorem enrolled_shapes_agree:
  assumes "encoder_dim d vis"
    and "startup cfg fs vis opens = Started known cam"
    and "face_encodings vis rgb locs = Inr (enc # rest)"
  shows "known \<noteq> [] \<and> rows_of_dim d known \<and> length enc = d \<and>
         row_norms known enc = map (\<lambda>k. sqrt (\<Sum>i<d. (k ! i - enc ! i)\<^sup>2)) known"
proof -
  from assms(2) have loaded: "outcome (load_known_encodings fs vis (ENROLL_DIR cfg)) = Inr (Some known)"
    by (auto simp: startup_def split: if_splits sum.splits option.splits)
  note known = load_known_encodings_dim [OF assms(1) loaded]
  moreover have enc: "length enc = d"
    using assms(1,3) by (rule encoder_dimD)
  moreover have "sq_dist k enc = (\<Sum>i<d. (k ! i - enc ! i)\<^sup>2)" if "k \<in> set known" for k
    using that known(2) enc sq_dist_eq_sum [of k enc] by (auto simp: rows_of_dim_def list_all_iff)
  ultimately show ?thesis
    by (simp add: row_norms_def)
qed

text \<open>
  With a tolerance of zero the check accepts exactly the enrolled vectors:
  on well-shaped arrays a distance of zero means equality. (On rows of another
  length the paired components could all agree without the vectors being equal.)
\<close>

theorem identity_check_zero_tolerance:
  assumes "rows_of_dim d known" and "length enc = d"
    and "face_encodings vis rgb locs = Inr (enc # rest)"
    and "ALLOWED_TOLERANCE cfg = 0" and "ENCODING_EVERY_N cfg \<noteq> 0"
    and "n mod ENCODING_EVERY_N cfg = 0"
  shows "outcome (identity_check cfg vis known rgb locs n) = Inr True \<longleftrightarrow> enc \<in> set known"
proof (cases "known = []")
  case True
  with assms show ?thesis
    by (simp add: identity_check_eq np_min_def row_norms_def)
next
  case False
  then obtain best where best: "np_min (row_norms known enc) = Inr best"
    using np_min_row_norms by blast
  have "sq_dist k enc \<le> 0 \<longleftrightarrow> k = enc" if "k \<in> set known" for k
  proof -
    from that assms(1,2) have "length k = length enc"
      by (auto simp: rows_of_dim_def list_all_iff)
    from sq_dist_zero_iff [OF this] show ?thesis
      by (metis sq_dist_nonneg order.antisym order_refl)
  qed
  with assms best show ?thesis
    by (auto simp: identity_check_eq authorized_iff_sq_dist [OF best])
qed

section \<open>Scenarios\<close>

lemma encoder_dim_vis_enroll: "encoder_dim 2 vis_enroll"
  by (auto simp: encoder_dim_def vis_enroll_def vis_demo_def rows_of_dim_def list_all_iff
      split: if_splits)

text \<open>The enrollment of the demo directory, compared with the encoding of the one-pixel frame.\<close>

lemma encodes_one_pixel: "face_encodings vis_enroll one_pixel [(0, 1, 1, 0)] = Inr [[0, 0]]"
  by simp

theorem enrolled_shapes_agree_witness:
  "[[0.3, 0 :: real]] \<noteq> [] \<and> rows_of_dim 2 [[0.3, 0]] \<and> length [0, 0 :: real] = 2 \<and>
   row_norms [[0.3, 0]] [0, 0] = map (\<lambda>k. sqrt (\<Sum>i<2. (k ! i - [0, 0] ! i)\<^sup>2)) [[0.3, 0]]"
  by (rule enrolled_shapes_agree [OF encoder_dim_vis_enroll startup_demo encodes_one_pixel])

theorem identity_check_zero_tolerance_witness:
  "outcome (identity_check (cfg0 \<lparr>ALLOWED_TOLERANCE := 0\<rparr>) vis_enroll [[0.3, 0], [0, 0]]
      one_pixel [(0, 1, 1, 0)] 0) = Inr True"
proof -
  from identity_check_zero_tolerance [OF _ _ encodes_one_pixel, of 2 "[[0.3, 0], [0, 0]]"
      "cfg0 \<lparr>ALLOWED_TOLERANCE := 0\<rparr>" 0]
  show ?thesis
    by (simp add: cfg0_def)
qed

end
