(* ===== verification/Guard_Log.thy ===== *)
theory Guard_Log
  imports Guard_World
begin

text \<open>
  The function \<^verbatim>\<open>log(msg)\<close> of both scripts, below the level of the event \<open>Log m\<close>
  that the other theories work with: the text of every message (\<open>render\<close>, one
  equation per \<^verbatim>\<open>log(...)\<close> call site), Python's formatting of the values in it
  (\<open>dec\<close>, \<open>str_int\<close>, \<open>join\<close>, \<open>format_3f\<close>), the timestamp (\<open>strftime\<close>), the line
  (\<open>log_line\<close>), and the body of \<^verbatim>\<open>log\<close> with its two sinks (\<open>log_body\<close>): the line is
  printed, then appended to the log file, and a failure of the append is dropped.

  Text is modelled as the bytes written under a UTF-8 locale, so the em dash of one
  message is three bytes. \<^verbatim>\<open>datetime.now()\<close> is given by its calendar fields
  (\<open>civil\<close>); \<^verbatim>\<open>str(e)\<close> of an exception is a parameter, since it is the library's
  text. \<^verbatim>\<open>print\<close> is taken not to raise.
\<close>

section \<open>Decimal numbers\<close>

definition digit :: "nat \<Rightarrow> char" where
  "digit n = char_of (48 + n)"

text \<open>\<^verbatim>\<open>str(n)\<close> for a natural number and for an integer.\<close>

fun dec :: "nat \<Rightarrow> string" where
  "dec n = (if n < 10 then [digit n] else dec (n div 10) @ [digit (n mod 10)])"

declare dec.simps [simp del]

definition str_int :: "int \<Rightarrow> string" where
  "str_int i = (if i < 0 then ''-'' @ dec (nat (- i)) else dec (nat i))"

text \<open>Padding with zeros on the left to a width, as \<^verbatim>\<open>%02d\<close> and \<^verbatim>\<open>.3f\<close> do.\<close>

definition zero_pad :: "nat \<Rightarrow> string \<Rightarrow> string" where
  "zero_pad w s = replicate (w - length s) CHR ''0'' @ s"

text \<open>\<^verbatim>\<open>sep.join(xs)\<close>.\<close>

fun join :: "string \<Rightarrow> string list \<Rightarrow> string" where
  "join sep [] = []"
| "join sep [x] = x"
| "join sep (x # y # ys) = x @ sep @ join sep (y # ys)"

section \<open>The timestamp\<close>

text \<open>The fields of \<^verbatim>\<open>datetime.now()\<close> that the format uses.\<close>

record civil =
  year :: nat
  month :: nat
  day :: nat
  hour :: nat
  minute :: nat
  second :: nat

text \<open>
  \<^verbatim>\<open>strftime("%Y-%m-%d %H:%M:%S")\<close>. \<^verbatim>\<open>%Y\<close> is the year without padding, as the C
  library of Linux prints it; from the year 1000 on, padding to four digits makes
  no difference.
\<close>

definition strftime :: "civil \<Rightarrow> string" where
  "strftime ts =
     dec (year ts) @ ''-'' @ zero_pad 2 (dec (month ts)) @ ''-'' @ zero_pad 2 (dec (day ts)) @
     '' '' @ zero_pad 2 (dec (hour ts)) @ '':'' @ zero_pad 2 (dec (minute ts)) @ '':'' @
     zero_pad 2 (dec (second ts))"

text \<open>\<^verbatim>\<open>line = f"{ts} - {msg}"\<close>.\<close>

definition log_line :: "civil \<Rightarrow> string \<Rightarrow> string" where
  "log_line ts msg = strftime ts @ '' - '' @ msg"

section \<open>Fixed-point formatting\<close>

text \<open>
  \<^verbatim>\<open>f"{x:.3f}"\<close>: the value rounded to three decimals, ties to the even neighbour,
  with the sign of \<open>x\<close>.
\<close>

definition round_half_even :: "real \<Rightarrow> int" where
  "round_half_even y =
     (let f = \<lfloor>y\<rfloor>; r = y - of_int f
      in if r < 1 / 2 then f else if 1 / 2 < r then f + 1 else if even f then f else f + 1)"

definition format_3f :: "real \<Rightarrow> string" where
  "format_3f x =
     (let n = nat (round_half_even (\<bar>x\<bar> * 1000))
      in (if x < 0 then ''-'' else []) @ dec (n div 1000) @ ''.'' @ zero_pad 3 (dec (n mod 1000)))"

section \<open>The messages\<close>

text \<open>The em dash, and the eight bytes that stand in its place in \<^verbatim>\<open>face_detect.py\<close>.\<close>

definition em_dash :: string where
  "em_dash = [CHR 0xE2, CHR 0x80, CHR 0x94]"

definition garbled_dash :: string where
  "garbled_dash = [CHR 0xC3, CHR 0xA2, CHR 0xE2, CHR 0x82, CHR 0xAC, CHR 0xE2, CHR 0x80, CHR 0x9D]"

fun render :: "(exn \<Rightarrow> string) \<Rightarrow> log_msg \<Rightarrow> string" where
  "render str (Bluetooth_check_error e) = ''bluetooth check error: '' @ str e"
| "render str (Locked_via cmd) = ''Locked via: '' @ join '' '' cmd"
| "render str (Lock_attempt_error cmd e) =
     ''Lock attempt error for '' @ join '' '' cmd @ '': '' @ str e"
| "render str All_lock_commands_failed = ''All lock commands failed.''"
| "render str (No_face_in_enroll_image f) = ''No face found in enroll image: '' @ f"
| "render str (Loaded_enrollment_face b) = ''Loaded enrollment face from '' @ b"
| "render str (Error_loading f e) = ''Error loading '' @ f @ '': '' @ str e"
| "render str (Enrollment_dir_not_found d) =
     ''Enrollment dir '' @ d @ '' not found. Create it and add photos of your face.''"
| "render str No_known_encodings = ''No known face encodings loaded. Exiting.''"
| "render str Cannot_open_webcam = ''Cannot open webcam (/dev/video0..3). Exiting.''"
| "render str Cannot_open_device = ''Cannot open webcam. Exiting.''"
| "render str (Opened_camera i w h) =
     ''Opened camera /dev/video'' @ str_int i @ '' at '' @ str_int w @ ''x'' @ str_int h"
| "render str Starting_presence_guard = ''Starting presence_guard''"
| "render str Phone_not_present = ''Phone not present; locking for safety.''"
| "render str Failed_to_read_webcam = ''Failed to read from webcam, retrying...''"
| "render str (Detected_faces n) = ''Detected '' @ dec n @ '' face(s)''"
| "render str Not_exactly_one_person =
     ''Condition failed: not exactly one person present -> locking''"
| "render str No_faces_for_timeout = ''No faces for timeout -> locking''"
| "render str Waiting_for_timeout = ''No face seen yet; waiting for timeout...''"
| "render str Multiple_faces = ''Multiple faces detected -> locking''"
| "render str (Best_face_distance best) = ''Best face distance: '' @ format_3f best"
| "render str Could_not_compute_encoding =
     ''Could not compute encoding on this frame; treating as unauthorized.''"
| "render str Authorized_face_present = ''Authorized face present '' @ em_dash @ '' all good.''"
| "render str Authorized_only_person =
     ''Authorized face detected and only person present '' @ garbled_dash @ '' all good.''"
| "render str Single_face_not_authorized = ''Single face not authorized -> locking''"
| "render str Unknown_face = ''Unknown face detected (not authorized) -> locking''"
| "render str Stopped_by_user = ''presence_guard stopped by user''"
| "render str (Crashed e) = ''presence_guard crashed: '' @ str e"

section \<open>The body of \<^verbatim>\<open>log\<close>\<close>

text \<open>
  What \<^verbatim>\<open>log\<close> does to the world: a line on standard output, a line appended to a
  file. \<open>sink\<close> is what opening the file and writing to it answers.
\<close>

datatype out = Print string | Append path string

type_synonym sink = "path \<Rightarrow> string \<Rightarrow> unit res"

definition log_body :: "path \<Rightarrow> sink \<Rightarrow> civil \<Rightarrow> string \<Rightarrow> (out, unit) prog" where
  "log_body logfile put ts msg =
     (let line = log_line ts msg
      in io_then (io_emit (Print line))
           (io_try
              (io_then (io_lift (put logfile (line @ [CHR 0x0A])))
                 (io_emit (Append logfile (line @ [CHR 0x0A]))))
              (except_Exception (\<lambda>e. io_return ()))))"

text \<open>\<^verbatim>\<open>log\<close> of \<^verbatim>\<open>face_detect.py\<close> differs only in not flushing standard output.\<close>

definition fd_log_body :: "path \<Rightarrow> sink \<Rightarrow> civil \<Rightarrow> string \<Rightarrow> (out, unit) prog" where
  "fd_log_body = log_body"

text \<open>A sequence of calls, each with the reading of the clock it makes.\<close>

fun log_all :: "path \<Rightarrow> sink \<Rightarrow> (civil \<times> string) list \<Rightarrow> (out, unit) prog" where
  "log_all logfile put [] = io_return ()"
| "log_all logfile put ((ts, msg) # calls) =
     io_then (log_body logfile put ts msg) (log_all logfile put calls)"

lemmas log_defs [guard_defs] = strftime_def log_line_def format_3f_def log_body_def

section \<open>Reading decimal numbers back\<close>

definition digit_val :: "char \<Rightarrow> nat" where
  "digit_val c = of_char c - 48"

definition is_digit :: "char \<Rightarrow> bool" where
  "is_digit c \<longleftrightarrow> 48 \<le> (of_char c :: nat) \<and> (of_char c :: nat) \<le> 57"

definition undec :: "string \<Rightarrow> nat option" where
  "undec s =
     (if s \<noteq> [] \<and> list_all is_digit s
      then Some (foldl (\<lambda>a c. 10 * a + digit_val c) 0 s) else None)"

lemma digit_simps [simp]:
  "digit 0 = CHR ''0''" "digit 1 = CHR ''1''" "digit 2 = CHR ''2''" "digit 3 = CHR ''3''"
  "digit 4 = CHR ''4''" "digit 5 = CHR ''5''" "digit 6 = CHR ''6''" "digit 7 = CHR ''7''"
  "digit 8 = CHR ''8''" "digit 9 = CHR ''9''" "digit (Suc 0) = CHR ''1''"
  by code_simp+

lemma digit_val_digit [simp]: "n < 10 \<Longrightarrow> digit_val (digit n) = n"
  by (simp add: digit_val_def digit_def)

lemma is_digit_digit [simp]: "n < 10 \<Longrightarrow> is_digit (digit n)"
  by (simp add: is_digit_def digit_def)

lemma is_digit_zero [simp]: "is_digit CHR ''0''" "digit_val CHR ''0'' = 0"
  by (simp_all add: is_digit_def digit_val_def)

lemma dec_digits: "list_all is_digit (dec n)" and dec_not_Nil [simp]: "dec n \<noteq> []"
  by (induction n rule: dec.induct; subst dec.simps; simp)+

lemma foldl_dec:
  "foldl (\<lambda>a c. 10 * a + digit_val c) 0 (dec n) = n"
  by (induction n rule: dec.induct) (subst dec.simps, simp)

lemma zeros_digits [simp]:
  "foldl (\<lambda>a c. 10 * a + digit_val c) 0 (replicate k CHR ''0'') = 0"
  "list_all is_digit (replicate k CHR ''0'')"
  by (induction k) simp_all

text \<open>Printing and reading a number, with or without leading zeros, gives the number.\<close>

lemma undec_dec [simp]: "undec (dec n) = Some n"
  by (simp add: undec_def dec_digits foldl_dec)

lemma undec_zero_pad [simp]: "undec (zero_pad w (dec n)) = Some n"
  by (simp add: undec_def zero_pad_def dec_digits foldl_dec)

section \<open>The width of a number\<close>

lemma length_dec_le: "0 < k \<Longrightarrow> n < 10 ^ k \<Longrightarrow> length (dec n) \<le> k"
proof (induction n arbitrary: k rule: dec.induct)
  case (1 n)
  show ?case
  proof (cases "n < 10")
    case True
    with 1(2) show ?thesis by (subst dec.simps) simp
  next
    case False
    with 1(2,3) obtain j where k: "k = Suc j" and "0 < j"
      by (cases k; cases "k - 1") auto
    with 1(3) have "n div 10 < 10 ^ j"
      by (simp add: less_mult_imp_div_less mult.commute)
    from 1(1) [OF False \<open>0 < j\<close> this] False k show ?thesis
      by (subst dec.simps) simp
  qed
qed

lemma length_dec_gt: "10 ^ k \<le> n \<Longrightarrow> k < length (dec n)"
proof (induction n arbitrary: k rule: dec.induct)
  case (1 n)
  show ?case
  proof (cases k)
    case 0
    then show ?thesis by (cases "dec n") simp_all
  next
    case (Suc j)
    from 1(2) Suc have n: "10 * 10 ^ j \<le> n"
      by simp
    moreover have "(10::nat) \<le> 10 * 10 ^ j"
      by simp
    ultimately have big: "\<not> n < 10"
      by linarith
    from n have "10 ^ j \<le> n div 10"
      by (simp add: less_eq_div_iff_mult_less_eq mult.commute)
    from 1(1) [OF big this] big Suc show ?thesis
      by (subst dec.simps) simp
  qed
qed

lemma length_dec_year: "1000 \<le> n \<Longrightarrow> n < 10000 \<Longrightarrow> length (dec n) = 4"
  using length_dec_le [of 4 n] length_dec_gt [of 3 n] by simp

lemma length_zero_pad: "length s \<le> w \<Longrightarrow> length (zero_pad w s) = w"
  by (simp add: zero_pad_def)

lemma length_pad2 [simp]: "n < 100 \<Longrightarrow> length (zero_pad 2 (dec n)) = 2"
  using length_dec_le [of 2 n] by (simp add: length_zero_pad)

section \<open>Reading a line back\<close>

text \<open>
  A reader of the log: the timestamp is the first 19 bytes of a line, in fields of
  fixed width, and the message starts at byte 22. \<open>field i w s\<close> is the field of
  width \<open>w\<close> at offset \<open>i\<close>.
\<close>

definition field :: "nat \<Rightarrow> nat \<Rightarrow> string \<Rightarrow> string" where
  "field i w s = take w (drop i s)"

definition parse_stamp :: "string \<Rightarrow> civil option" where
  "parse_stamp s =
     (if length s = 19 \<and> field 4 1 s = ''-'' \<and> field 7 1 s = ''-'' \<and> field 10 1 s = '' '' \<and>
         field 13 1 s = '':'' \<and> field 16 1 s = '':''
      then
        (case map undec [field 0 4 s, field 5 2 s, field 8 2 s, field 11 2 s, field 14 2 s,
                         field 17 2 s] of
           [Some y, Some mo, Some d, Some h, Some mi, Some sec] \<Rightarrow>
             Some \<lparr>year = y, month = mo, day = d, hour = h, minute = mi, second = sec\<rparr>
         | _ \<Rightarrow> None)
      else None)"

definition parse_line :: "string \<Rightarrow> (civil \<times> string) option" where
  "parse_line l =
     (case parse_stamp (take 19 l) of
        Some ts \<Rightarrow> if field 19 3 l = '' - '' then Some (ts, drop 22 l) else None
      | None \<Rightarrow> None)"

text \<open>The timestamps \<^verbatim>\<open>datetime.now()\<close> can deliver from the year 1000 on.\<close>

definition stamp_ok :: "civil \<Rightarrow> bool" where
  "stamp_ok ts \<longleftrightarrow>
     1000 \<le> year ts \<and> year ts < 10000 \<and> month ts < 100 \<and> day ts < 100 \<and> hour ts < 100 \<and>
     minute ts < 100 \<and> second ts < 100"

text \<open>The fields of a timestamp, cut out of the text at their offsets.\<close>

lemma fields_strftime:
  assumes "length y = 4" and "length mo = 2" and "length d = 2" and "length h = 2"
    and "length mi = 2" and "length sec = 2"
  defines "s \<equiv> y @ ''-'' @ mo @ ''-'' @ d @ '' '' @ h @ '':'' @ mi @ '':'' @ sec"
  shows "length s = 19"
    and "field 0 4 s = y" and "field 5 2 s = mo" and "field 8 2 s = d"
    and "field 11 2 s = h" and "field 14 2 s = mi" and "field 17 2 s = sec"
    and "field 4 (Suc 0) s = ''-''" and "field 7 (Suc 0) s = ''-''" and "field 10 (Suc 0) s = '' ''"
    and "field 13 (Suc 0) s = '':''" and "field 16 (Suc 0) s = '':''"
  using assms(1-6) by (simp_all add: s_def field_def)

lemma strftime_fields:
  assumes "stamp_ok ts"
  shows "length (strftime ts) = 19"
    and "field 0 4 (strftime ts) = dec (year ts)"
    and "field 5 2 (strftime ts) = zero_pad 2 (dec (month ts))"
    and "field 8 2 (strftime ts) = zero_pad 2 (dec (day ts))"
    and "field 11 2 (strftime ts) = zero_pad 2 (dec (hour ts))"
    and "field 14 2 (strftime ts) = zero_pad 2 (dec (minute ts))"
    and "field 17 2 (strftime ts) = zero_pad 2 (dec (second ts))"
    and "field 4 (Suc 0) (strftime ts) = ''-''" and "field 7 (Suc 0) (strftime ts) = ''-''"
    and "field 10 (Suc 0) (strftime ts) = '' ''" and "field 13 (Suc 0) (strftime ts) = '':''"
    and "field 16 (Suc 0) (strftime ts) = '':''"
proof -
  from assms have ok: "length (dec (year ts)) = 4" "length (zero_pad 2 (dec (month ts))) = 2"
    "length (zero_pad 2 (dec (day ts))) = 2" "length (zero_pad 2 (dec (hour ts))) = 2"
    "length (zero_pad 2 (dec (minute ts))) = 2" "length (zero_pad 2 (dec (second ts))) = 2"
    by (simp_all add: stamp_ok_def length_dec_year)
  note fields_strftime [OF ok, folded strftime_def]
  then show "length (strftime ts) = 19"
    and "field 0 4 (strftime ts) = dec (year ts)"
    and "field 5 2 (strftime ts) = zero_pad 2 (dec (month ts))"
    and "field 8 2 (strftime ts) = zero_pad 2 (dec (day ts))"
    and "field 11 2 (strftime ts) = zero_pad 2 (dec (hour ts))"
    and "field 14 2 (strftime ts) = zero_pad 2 (dec (minute ts))"
    and "field 17 2 (strftime ts) = zero_pad 2 (dec (second ts))"
    and "field 4 (Suc 0) (strftime ts) = ''-''" and "field 7 (Suc 0) (strftime ts) = ''-''"
    and "field 10 (Suc 0) (strftime ts) = '' ''" and "field 13 (Suc 0) (strftime ts) = '':''"
    and "field 16 (Suc 0) (strftime ts) = '':''"
    by blast+
qed

text \<open>
  For every clock reading from the year 1000 on, the text \<^verbatim>\<open>strftime\<close> produces has
  19 bytes and parsing its fields gives the reading.
\<close>

lemma parse_stamp_strftime:
  "stamp_ok ts \<Longrightarrow> parse_stamp (strftime ts) = Some ts"
  unfolding parse_stamp_def by (simp add: strftime_fields)

text \<open>
  C36. A log line can be read back: it determines the clock reading and the message
  it was made of, the timestamp being its first 19 bytes.
\<close>

theorem parse_line_log_line:
  assumes "stamp_ok ts"
  shows "parse_line (log_line ts msg) = Some (ts, msg) \<and> take 19 (log_line ts msg) = strftime ts"
  using assms
  by (simp add: parse_line_def log_line_def field_def parse_stamp_strftime strftime_fields(1))

section \<open>Rounding\<close>

lemma round_half_even_error: "\<bar>of_int (round_half_even y) - y\<bar> \<le> 1 / 2"
  using of_int_floor_le [of y] floor_correct [of y]
  by (auto simp: round_half_even_def Let_def abs_le_iff)

lemma round_half_even_nonneg: "0 \<le> y \<Longrightarrow> 0 \<le> round_half_even y"
  by (auto simp: round_half_even_def Let_def intro: add_nonneg_nonneg)

text \<open>A reader of \<^verbatim>\<open>.3f\<close> output without sign: digits, a point, three digits.\<close>

definition read_3f :: "string \<Rightarrow> real option" where
  "read_3f s =
     (case (undec (takeWhile is_digit s), dropWhile is_digit s) of
        (Some i, c # f) \<Rightarrow>
          if c = CHR ''.'' \<and> length f = 3
          then map_option (\<lambda>k. real i + real k / 1000) (undec f) else None
      | _ \<Rightarrow> None)"

lemma not_is_digit_point [simp]: "\<not> is_digit CHR ''.''"
  by (simp add: is_digit_def)

lemma read_3f_dec:
  assumes "b < 1000"
  shows "read_3f (dec a @ ''.'' @ zero_pad 3 (dec b)) = Some (real a + real b / 1000)"
proof -
  have digits: "\<forall>c\<in>set (dec a). is_digit c"
    using dec_digits [of a] by (simp add: list_all_iff)
  from assms have "length (zero_pad 3 (dec b)) = 3"
    using length_dec_le [of 3 b] by (simp add: length_zero_pad)
  with digits show ?thesis
    by (simp add: read_3f_def takeWhile_append2 dropWhile_append2)
qed

text \<open>
  C37. The distance in the log is the distance that was compared, up to half a
  thousandth: reading back what \<^verbatim>\<open>{best:.3f}\<close> prints for a distance gives a value
  within 0.0005 of it. So a line can show the tolerance itself for a distance that
  is above it.
\<close>

theorem format_3f_within:
  assumes "0 \<le> x"
  shows "\<exists>v. read_3f (format_3f x) = Some v \<and> \<bar>v - x\<bar> \<le> 1 / 2000"
proof -
  define n where "n = nat (round_half_even (\<bar>x\<bar> * 1000))"
  have "real n = of_int (round_half_even (x * 1000))"
    using assms round_half_even_nonneg [of "x * 1000"] by (simp add: n_def)
  with round_half_even_error [of "x * 1000"] have "\<bar>real n - x * 1000\<bar> \<le> 1 / 2"
    by simp
  then have close: "\<bar>real n / 1000 - x\<bar> \<le> 1 / 2000"
    by (simp add: abs_le_iff field_simps)
  have "real n = real (n div 1000 * 1000 + n mod 1000)"
    by simp
  then have "real (n div 1000) + real (n mod 1000) / 1000 = real n / 1000"
    unfolding of_nat_add of_nat_mult by (simp add: field_simps)
  moreover have "format_3f x = dec (n div 1000) @ ''.'' @ zero_pad 3 (dec (n mod 1000))"
    using assms by (simp add: format_3f_def n_def Let_def)
  ultimately have "read_3f (format_3f x) = Some (real n / 1000)"
    by (simp add: read_3f_dec del: append_Cons)
  with close show ?thesis by blast
qed

section \<open>One call of \<^verbatim>\<open>log\<close>\<close>

lemma log_body_eq:
  "log_body logfile put ts msg =
     (Print (log_line ts msg) #
        (case put logfile (log_line ts msg @ [CHR 0x0A]) of
           Inr u \<Rightarrow> [Append logfile (log_line ts msg @ [CHR 0x0A])] | Inl e \<Rightarrow> []),
      case put logfile (log_line ts msg @ [CHR 0x0A]) of
        Inr u \<Rightarrow> Inr () | Inl e \<Rightarrow> if is_Exception e then Inr () else Inl e)"
  by (simp add: log_body_def Let_def except_Exception_def split: sum.splits)

text \<open>
  C35. A log file that cannot be written is not an error: the line is printed,
  nothing reaches the file, and \<^verbatim>\<open>log\<close> returns without raising and without any
  report of the failure.
\<close>

theorem log_body_failing_sink:
  assumes "put logfile (log_line ts msg @ [CHR 0x0A]) = Inl e" and "is_Exception e"
  shows "log_body logfile put ts msg = ([Print (log_line ts msg)], Inr ())"
  using assms by (simp add: log_body_eq)

section \<open>The two sinks over a run\<close>

fun printed :: "out list \<Rightarrow> string list" where
  "printed [] = []"
| "printed (Print l # t) = l # printed t"
| "printed (Append p l # t) = printed t"

fun appended :: "out list \<Rightarrow> string list" where
  "appended [] = []"
| "appended (Print l # t) = appended t"
| "appended (Append p l # t) = l # appended t"

lemma log_all_Cons:
  "log_all logfile put ((ts, msg) # calls) =
     (case outcome (log_body logfile put ts msg) of
        Inr u \<Rightarrow> io_pre (trace_of (log_body logfile put ts msg)) (log_all logfile put calls)
      | Inl e \<Rightarrow> log_body logfile put ts msg)"
  by (cases "log_body logfile put ts msg"; cases "outcome (log_body logfile put ts msg)")
    simp_all

declare log_all.simps(2) [simp del]

text \<open>
  The console has every line, the file has those that could be written: unless
  a write is interrupted, a sequence of calls returns, standard output receives
  the line of every call in order, and the file receives, in the same order and
  ended by a newline, exactly the lines whose write succeeded.
\<close>

theorem log_all_sinks:
  assumes "list_all (\<lambda>(ts, msg). put logfile (log_line ts msg @ [CHR 0x0A]) \<noteq>
      Inl KeyboardInterrupt) calls"
  shows "outcome (log_all logfile put calls) = Inr () \<and>
         printed (trace_of (log_all logfile put calls)) =
           map (\<lambda>(ts, msg). log_line ts msg) calls \<and>
         appended (trace_of (log_all logfile put calls)) =
           map (\<lambda>l. l @ [CHR 0x0A])
             (filter (\<lambda>l. put logfile (l @ [CHR 0x0A]) = Inr ())
                (printed (trace_of (log_all logfile put calls))))"
  using assms
proof (induction calls)
  case Nil
  show ?case by simp
next
  case (Cons call calls)
  obtain ts msg where call: "call = (ts, msg)"
    by (cases call)
  with Cons.prems have "outcome (log_body logfile put ts msg) = Inr ()"
    by (auto simp: log_body_eq is_Exception_iff split: sum.splits)
  with Cons call show ?case
    by (auto simp: log_all_Cons log_body_eq split: sum.splits)
qed

section \<open>The log of a modelled run\<close>

text \<open>
  The other theories record a call of \<^verbatim>\<open>log\<close> as the event \<open>Log m\<close>. \<open>logs t\<close> (theory
  \<open>Guard_World\<close>) are the messages of a trace \<open>t\<close> in order, and \<open>log_calls\<close> pairs them
  with the clock readings of the calls, which gives the calls of \<^verbatim>\<open>log\<close> the run makes.
\<close>

definition log_calls :: "(exn \<Rightarrow> string) \<Rightarrow> civil list \<Rightarrow> effect list \<Rightarrow> (civil \<times> string) list" where
  "log_calls str stamps t = zip stamps (map (render str) (logs t))"

text \<open>
  What a run leaves on standard output, with a log file that is never
  interrupted: one line per \<open>Log\<close> event of its trace, in the order of the events,
  each made of the clock reading of the call and the text of the message.
\<close>

theorem console_of_trace:
  assumes "\<And>p l. put p l \<noteq> Inl KeyboardInterrupt"
  shows "printed (trace_of (log_all logfile put (log_calls str stamps t))) =
           map (\<lambda>(ts, m). log_line ts (render str m)) (zip stamps (logs t))"
proof -
  have "list_all (\<lambda>(ts, msg). put logfile (log_line ts msg @ [CHR 0x0A]) \<noteq>
      Inl KeyboardInterrupt) (log_calls str stamps t)"
    using assms by (simp add: list_all_iff split_beta)
  with log_all_sinks [of put logfile "log_calls str stamps t"] show ?thesis
    by (simp add: log_calls_def zip_map2 split_beta)
qed

section \<open>Scenarios\<close>

text \<open>8 November 2026, 09:05:07; a log file that cannot be opened.\<close>

definition stamp_demo :: civil where
  "stamp_demo = \<lparr>year = 2026, month = 11, day = 8, hour = 9, minute = 5, second = 7\<rparr>"

definition sink_denied :: sink where
  "sink_denied p l = Inl (OSError ''Permission denied'')"

lemmas print_defs = log_line_def strftime_def zero_pad_def str_int_def dec.simps

lemma log_line_demo:
  "log_line stamp_demo (render str Starting_presence_guard) =
     ''2026-11-08 09:05:07 - Starting presence_guard''"
  by (simp add: stamp_demo_def print_defs)

theorem parse_line_log_line_witness:
  "parse_line ''2026-11-08 09:05:07 - Starting presence_guard'' =
     Some (stamp_demo, ''Starting presence_guard'')"
  using parse_line_log_line [of stamp_demo "''Starting presence_guard''"] log_line_demo
  by (simp add: stamp_ok_def stamp_demo_def)

text \<open>
  A distance of 0.6504 is above the tolerance 0.65 of \<^verbatim>\<open>presence_guard.py\<close> and is
  logged as \<^verbatim>\<open>0.650\<close>.
\<close>

lemma format_3f_demo: "format_3f 0.6504 = ''0.650''" "format_3f 0.3 = ''0.300''"
  by (simp_all add: format_3f_def round_half_even_def Let_def print_defs)

theorem format_3f_within_witness:
  "\<exists>v. read_3f ''0.650'' = Some v \<and> \<bar>v - 0.6504\<bar> \<le> 1 / 2000"
  using format_3f_within [of "0.6504"] unfolding format_3f_demo by simp

theorem log_body_failing_sink_witness:
  "log_body ''/home/u/presence_guard.log'' sink_denied stamp_demo ''Starting presence_guard'' =
     ([Print ''2026-11-08 09:05:07 - Starting presence_guard''], Inr ())"
  using log_body_failing_sink [of sink_denied "''/home/u/presence_guard.log''" stamp_demo
      "''Starting presence_guard''" "OSError ''Permission denied''"] log_line_demo
  by (simp add: sink_denied_def)

text \<open>Two calls, the file being writable only for the second.\<close>

definition sink_second :: sink where
  "sink_second p l =
     (if l = ''2026-11-08 09:05:07 - All lock commands failed.'' @ [CHR 0x0A] then Inr ()
      else Inl (OSError ''No space left on device''))"

theorem log_all_sinks_witness:
  "printed (trace_of (log_all ''log'' sink_second
      [(stamp_demo, ''Starting presence_guard''), (stamp_demo, ''All lock commands failed.'')])) =
     [''2026-11-08 09:05:07 - Starting presence_guard'',
      ''2026-11-08 09:05:07 - All lock commands failed.''] \<and>
   appended (trace_of (log_all ''log'' sink_second
      [(stamp_demo, ''Starting presence_guard''), (stamp_demo, ''All lock commands failed.'')])) =
     [''2026-11-08 09:05:07 - All lock commands failed.'' @ [CHR 0x0A]]"
  using log_all_sinks [of sink_second "''log''"
      "[(stamp_demo, ''Starting presence_guard''), (stamp_demo, ''All lock commands failed.'')]"]
  by (simp add: sink_second_def stamp_demo_def print_defs)

end
