(* ===== verification/Spec2Isabelle.thy ===== *)
theory Spec2Isabelle
  imports Legacy_Guard Guard_Timing Fail_Closed Encoding_Shape Guard_Log
begin

text \<open>
  A verification development for the presence guard of this repository: two Python
  scripts that watch a webcam and lock the desktop session unless exactly one
  enrolled face is in front of it.

  \<^bold>\<open>The program.\<close> \<^verbatim>\<open>src/presence_guard.py\<close> is the current script and
  \<^verbatim>\<open>src/face_detect.py\<close> its predecessor. \<^verbatim>\<open>main()\<close> checks the enrollment directory,
  loads one face encoding per enrollment image (\<^verbatim>\<open>load_known_encodings\<close>), opens the
  camera (\<^verbatim>\<open>open_camera\<close>) and then loops forever: optionally ask \<^verbatim>\<open>bluetoothctl\<close>
  whether the phone is connected (\<^verbatim>\<open>is_phone_present\<close>), read the freshest frame
  (\<^verbatim>\<open>latest_frame\<close>), count the faces (\<^verbatim>\<open>detect_faces_rgb\<close>), compare a single face
  with the enrolled encodings, and run the lock cascade (\<^verbatim>\<open>lock_session\<close>) when the
  presence condition fails. A \<^verbatim>\<open>try/except/finally\<close> around the loop logs what ended
  it and releases the camera.

  \<^bold>\<open>The model.\<close> Effectful code is a value of type \<open>('e, 'a) prog\<close>: the list of
  effects it has had and either its result or the exception that ended it.
  Sequencing, \<^verbatim>\<open>try/except\<close> and \<^verbatim>\<open>try/finally\<close> are the combinators \<open>io_bind\<close>,
  \<open>io_then\<close>, \<open>io_try\<close> and \<open>io_finally\<close>. Everything outside the process is an input:
  the answer of the operating system to a command (\<open>os\<close>), the face library
  (\<open>vision\<close>), the camera driver (which indices open, \<open>frame_io\<close>), the file system
  (\<open>fsys\<close>) and the clock. Each lemma holds for all of them, so nothing is assumed
  about what a detector finds or a command does. An effect that is not performed
  is an effect that does not occur in the trace.

  \<^bold>\<open>The theories\<close>, in the order of their dependencies.
  \<^item> \<open>Guard_Prelude\<close>: the exceptions (\<open>exn\<close>), \<open>prog\<close> and its combinators with their
    evaluation rules and laws, and the rules by which a property of every effect of
    composed code follows from the parts.
  \<^item> \<open>Guard_World\<close>: the data that crosses the process boundary, the constants of
    both files (\<open>config\<close>, \<open>base_config\<close>), \<open>effect\<close> and \<open>log_msg\<close>, the primitive calls
    \<open>log\<close>, \<open>sleep\<close>, \<open>subprocess_run\<close>, and the observers of a trace: \<open>held\<close> (capture
    objects open), \<open>releases_held\<close>, \<open>commands\<close>, \<open>sleeps\<close>, \<open>logs\<close>.
  \<^item> \<open>Lock_Actuator\<close>: \<^verbatim>\<open>lock_session()\<close> of both files (\<open>lock_loop\<close>, \<open>fd_lock_loop\<close>), the
    contract \<open>lock_spec\<close> and the proof that the loop with its handlers implements
    it; what is run and returned when a command succeeds, when all fail and when
    one is interrupted; the two versions run the same commands; a call keeps
    nothing for the next one (idempotence).
  \<^item> \<open>Phone_Gate\<close>: \<^verbatim>\<open>is_phone_present\<close>; when it answers \<^verbatim>\<open>True\<close>, and that it fails closed.
  \<^item> \<open>Face_Locator\<close>: \<^verbatim>\<open>detect_faces_rgb\<close> and the pixel conversion before it
    (\<open>detector_input\<close>); the two detectors' order, and that the conversion is the
    identity.
  \<^item> \<open>Identity_Matcher\<close>: the identity block of the loop (\<open>identity_check\<close>) with
    \<^verbatim>\<open>np.min\<close>, the row-wise norm and the modulo; when the verdict is \<^verbatim>\<open>True\<close> and what
    can raise.
  \<^item> \<open>Frame_Source\<close>: \<^verbatim>\<open>open_camera\<close> (\<open>probe\<close>) and \<^verbatim>\<open>latest_frame\<close>; which index is
    bound and which capture objects stay open. \<^verbatim>\<open>latest_frame\<close> is modelled twice: over
    the answers of the camera to one call (\<open>latest_frame\<close> on \<open>frame_io\<close>, which the loop
    uses) and over a capture device with a buffer (\<open>latest_frame_cap\<close> on \<open>capture\<close>,
    with \<open>cap_grab\<close>, \<open>cap_retrieve\<close>, \<open>cap_read\<close>); the second refines the first, and
    on it the frame returned is determined: the three grabs skip two frames.
  \<^item> \<open>Presence_Policy\<close>: the decision rules as the specification states them
    (\<open>must_lock\<close>, \<open>seen_after\<close>, \<open>decisions\<close>), independent of the code.
  \<^item> \<open>Presence_Loop\<close>: the loop body of \<^verbatim>\<open>presence_guard.py\<close> (\<open>iteration\<close>, made of
    \<open>phone_absent\<close>, \<open>lock_and_cooldown\<close>, \<open>not_one_face\<close>, \<open>one_face\<close>) on the state
    \<open>guard_state\<close>, and the loop \<open>guard_loop\<close>; one theorem per decision rule, and that
    a pass implements the rules of \<open>Presence_Policy\<close>.
  \<^item> \<open>Guard_Run\<close>: whole runs of the loop; the effects a run can have, the cooldown
    after every lock, the reachable states and their invariants, absence and
    sampling over several passes, and the refinement of the rules by a run.
  \<^item> \<open>Enrollment\<close>: \<^verbatim>\<open>load_known_encodings\<close> of both files (\<open>enroll_one\<close>, \<open>enroll_loop\<close>),
    the contract \<open>enroll_spec\<close>, what is returned, what is absorbed, that both
    versions enroll the same encodings, and the log lines enrollment leaves, file
    by file (\<open>enroll_lines\<close>).
  \<^item> \<open>Guard_Main\<close>: \<^verbatim>\<open>main()\<close> of \<^verbatim>\<open>presence_guard.py\<close> (\<open>main\<close>, \<open>guarded_loop\<close>); exit
    status, start-up failures, the release of the camera on every path, and what
    a failing detector does to the guard.
  \<^item> \<open>Legacy_Guard\<close>: the loop and \<^verbatim>\<open>main()\<close> of \<^verbatim>\<open>face_detect.py\<close> (\<open>fd_iteration\<close>,
    \<open>fd_guard_loop\<close>, \<open>fd_main\<close>); its decision, its relation to the rules, and the
    unused variable \<^verbatim>\<open>last_lock_time\<close>.
  \<^item> \<open>Guard_Timing\<close>: time in the loop. The time budget of a trace (\<open>time_budget\<close>: the
    timeouts of its commands and the durations of its sleeps) with its bound for
    the lock cascade and for a pass on every path; the sleeps of a completed pass;
    and the response to absence: with the clock advancing by at least \<open>d\<close> seconds
    per pass (\<open>paced\<close>), an absent user is locked out within \<open>ABSENCE_TIMEOUT / d\<close>
    passes.
  \<^item> \<open>Fail_Closed\<close>: the loop read from its lock attempts. On every path of a pass,
    completed or not, the number of lock attempts is the one the rules demand for
    what the pass established; a pass that completes without one saw an authorized
    single face, or nobody before the timeout, or could not read a frame
    (\<open>read_fails\<close>); a run makes at most one attempt per pass; and a camera that
    delivers nothing keeps the guard from locking for as long as that lasts.
  \<^item> \<open>Encoding_Shape\<close>: the shape of the arrays of the identity check as an
    invariant: if the encoder returns vectors of one length (\<open>encoder_dim\<close>),
    enrollment in both scripts returns rows of that length (\<open>rows_of_dim\<close>), and the
    distances of the check are Euclidean distances over all components.
  \<^item> \<open>Guard_Log\<close>: \<^verbatim>\<open>log(msg)\<close> below the event \<open>Log m\<close>: the text of every message
    (\<open>render\<close>), number formatting (\<open>dec\<close>, \<open>str_int\<close>, \<open>format_3f\<close>), the timestamp
    (\<open>strftime\<close>), the line (\<open>log_line\<close>) and the two sinks (\<open>log_body\<close>); a line can be
    read back, the logged distance is within half a thousandth of the compared one,
    a log file that cannot be written goes unnoticed, and the console of a run
    is determined by the \<open>Log\<close> events of its trace.
  \<^item> This theory: where a crash of the guard can come from, the two scripts on
    the same scene, a pass in front of a capture device, the whole program with an
    absent user and in front of a camera that delivers nothing, and the console
    output of a run from start to exit.

  \<^bold>\<open>Modelling decisions.\<close>
  \<^item> The loop. \<^verbatim>\<open>while True\<close> has no exit, so a run is given by the inputs of the
    passes that begin before the process is interrupted: \<open>guard_loop\<close> recurses over
    a list of \<open>env\<close> and raises \<^verbatim>\<open>KeyboardInterrupt\<close> when the list is used up. There
    is no fuel and no bound on the length of the list; every statement about a run
    holds for every list. An interrupt inside a pass is the answer
    \<open>Inl KeyboardInterrupt\<close> of the command or library call it reaches; an interrupt
    during a sleep or between two statements of a pass is not modelled.
  \<^item> Exceptions. \<open>exn\<close> lists the exception classes the files name and those the
    modelled operations raise; \<^verbatim>\<open>KeyboardInterrupt\<close> is the only one that
    \<^verbatim>\<open>except Exception\<close> does not catch. \<^verbatim>\<open>sys.exit(1)\<close> is the return value 1 of
    \<open>main\<close>.
  \<^item> Numbers. Python integers are \<open>int\<close>; floats are \<open>real\<close>, so rounding is not
    modelled; a \<^verbatim>\<open>datetime\<close> is a number of microseconds and \<open>total_seconds\<close> divides
    by \<open>1000000\<close>. Pixels are triples of 8-bit words.
  \<^item> Arrays. Encodings are lists of reals; numpy broadcasting of rows of different
    lengths is not modelled.
  \<^item> Logging. In the theories of the loop a call of \<^verbatim>\<open>log\<close> is one event \<open>Log m\<close>,
    \<open>m\<close> a constructor of \<open>log_msg\<close>, one per call site, and the call does not raise
    (so the case that \<^verbatim>\<open>print\<close> fails inside the \<^verbatim>\<open>try\<close> of \<^verbatim>\<open>lock_session\<close>, where the
    handler would go on to the next command after a lock that worked, is left out).
    \<open>Guard_Log\<close> models the call itself. There text is the sequence of bytes written
    under a UTF-8 locale, the clock reading of a call is given by its calendar
    fields, and \<^verbatim>\<open>str(e)\<close> of an exception is a parameter. \<^verbatim>\<open>print\<close> is taken not to
    raise; an interrupt during the write of the file is the answer
    \<open>Inl KeyboardInterrupt\<close> of the sink.
  \<^item> Time. The model has no clock of its own: the reading of each pass is an input,
    and the durations of sleeps and timeouts are recorded in the trace. Statements
    about elapsed time are therefore statements about budgets (\<open>time_budget\<close>) or
    carry the pace of the clock as a hypothesis (\<open>paced\<close>).
  \<^item> Shapes. \<open>sq_dist\<close> pairs components; \<open>Encoding_Shape\<close> shows that under the
    encoder's contract the paired vectors always have the same length.
  \<^item> The camera. A capture object is identified by its device index; creating
    one, \<^verbatim>\<open>grab\<close>, \<^verbatim>\<open>retrieve\<close>, \<^verbatim>\<open>read\<close>, \<^verbatim>\<open>set\<close> and \<^verbatim>\<open>release\<close> do not raise, and
    \<^verbatim>\<open>if cap:\<close> in \<^verbatim>\<open>open_camera\<close> is taken to hold (a capture object is never
    falsy). The device \<open>capture\<close> follows the OpenCV documentation: a grab takes the
    oldest buffered frame, or the next frame of the sensor when the buffer is empty;
    a retrieve returns the frame of the last grab and fails if that grab failed.
    How many frames wait in the buffer at the start of a call is a parameter;
    frames that arrive during the call are the head of \<open>incoming\<close>.
  \<^item> Pixels. The slicing \<^verbatim>\<open>frame[:, :, ::-1]\<close> and \<^verbatim>\<open>cv2.cvtColor\<close> are total functions
    on images and do not raise; an image is a list of rows of pixels.
  \<^item> Commands. \<^verbatim>\<open>subprocess.run\<close> is the answer of the operating system to the
    argument list, one answer per pass; its timeout is recorded in the \<open>Exec\<close> event
    and a timeout that strikes is the answer \<open>Inl TimeoutExpired\<close>.

  \<^bold>\<open>Not modelled.\<close> The face library, OpenCV, numpy and the operating system
  behind the calls; the conversion of the clock to calendar fields and the text of
  \<^verbatim>\<open>str(e)\<close>; rounding of floating-point numbers; the start of \<^verbatim>\<open>main()\<close> by the
  interpreter; \<^verbatim>\<open>face_detect.py\<close> with a \<^verbatim>\<open>VIDEO_DEVICE\<close> that is not an index.
\<close>

section \<open>Where a crash can come from\<close>

text \<open>\<open>vision_raises vis ex\<close>: some call of the detector or of the encoder raises \<open>ex\<close>.\<close>

definition vision_raises :: "vision \<Rightarrow> exn \<Rightarrow> bool" where
  "vision_raises vis ex \<longleftrightarrow>
     (\<exists>img u dm. face_locations vis img u dm = Inl ex) \<or>
     (\<exists>img locs. face_encodings vis img locs = Inl ex)"

lemma detect_faces_rgb_Inl:
  "outcome (detect_faces_rgb cfg vis rgb) = Inl ex \<Longrightarrow> vision_raises vis ex"
  by (auto simp: detect_faces_rgb_def vision_raises_def outcome_io_bind
      split: sum.splits if_splits)

lemma identity_check_Inl:
  assumes "known \<noteq> []" and "ENCODING_EVERY_N cfg \<noteq> 0"
    and "outcome (identity_check cfg vis known rgb locs i) = Inl ex"
  shows "vision_raises vis ex"
  using assms
  by (auto simp: identity_check_eq np_min_row_norms_Inl_iff vision_raises_def
      split: sum.splits list.splits if_splits)

lemma lock_and_cooldown_Inl:
  "outcome (lock_and_cooldown cfg run) = Inl ex \<Longrightarrow> ex = KeyboardInterrupt"
  by (auto simp: lock_and_cooldown_eq split: sum.splits dest: lock_session_no_Exception)

lemma phone_absent_Inl:
  "outcome (phone_absent cfg run) = Inl ex \<Longrightarrow> ex = KeyboardInterrupt"
  by (cases "USE_BLUETOOTH cfg")
    (auto simp: phone_absent_enabled split: sum.splits dest: is_phone_present_no_Exception)

lemma iteration_Inl:
  assumes "known \<noteq> []" and "ENCODING_EVERY_N cfg \<noteq> 0"
    and "outcome (iteration cfg vis known cam e st) = Inl ex"
  shows "ex = KeyboardInterrupt \<or> vision_raises vis ex"
  using assms(3) latest_frame_Inr [of cam "frames e"]
  by (auto simp: iteration_def one_face_def not_one_face_def outcome_io_bind outcome_io_then
      split: sum.splits option.splits if_splits
      dest: phone_absent_Inl lock_and_cooldown_Inl detect_faces_rgb_Inl
        identity_check_Inl [OF assms(1,2)])

lemma guard_loop_Inl:
  assumes "known \<noteq> []" and "ENCODING_EVERY_N cfg \<noteq> 0"
    and "outcome (guard_loop cfg vis known cam es st) = Inl ex"
  shows "ex = KeyboardInterrupt \<or> vision_raises vis ex"
  using assms(3)
  by (induction es arbitrary: st)
    (auto simp: guard_loop_pass split: sum.splits dest: iteration_Inl [OF assms(1,2)])

text \<open>
  C19. The only crash the guard can log is an exception of the face library.
  Enrollment hands the loop a non-empty set of encodings, so \<^verbatim>\<open>np.min\<close> cannot fail;
  the lock cascade and the phone check absorb every \<^verbatim>\<open>Exception\<close>; reading a frame
  does not raise. So, with a sampling interval other than 0, a line
  \<^verbatim>\<open>presence_guard crashed\<close> in the log of \<^verbatim>\<open>main\<close> names an exception that the detector
  or the encoder raised.
\<close>

theorem crash_only_from_vision:
  assumes "ENCODING_EVERY_N cfg \<noteq> 0"
    and "Log (Crashed ex) \<in> set (trace_of (main cfg fs vis opens t0 es))"
  shows "vision_raises vis ex"
proof (cases "startup cfg fs vis opens")
  case (Started known cam)
  then have known: "known \<noteq> []"
    by (rule startup_Started)
  obtain ex' where stop: "outcome (guard_loop cfg vis known cam es
      \<lparr>last_seen_someone = t0, frame_i = 0\<rparr>) = Inl ex'"
    using guard_loop_stops by blast
  from assms(2) Started stop have "exit_log ex' = Crashed ex"
    using startup_trace_no_crash [of ex cfg fs vis opens]
      guard_loop_no_crash [of ex cfg vis known cam es]
    by (auto simp: main_eq guarded_loop_eq)
  then have "ex' = ex" and "ex \<noteq> KeyboardInterrupt"
    by (auto simp: exit_log_def split: if_splits)
  with guard_loop_Inl [OF known assms(1) stop] show ?thesis
    by simp
next
  case No_enroll_dir
  with assms(2) startup_trace_no_crash [of ex cfg fs vis opens] show ?thesis
    by (simp add: main_eq)
next
  case (Enrollment_interrupted x)
  with assms(2) startup_trace_no_crash [of ex cfg fs vis opens] show ?thesis
    by (simp add: main_eq)
next
  case No_encodings
  with assms(2) startup_trace_no_crash [of ex cfg fs vis opens] show ?thesis
    by (simp add: main_eq)
next
  case No_camera
  with assms(2) startup_trace_no_crash [of ex cfg fs vis opens] show ?thesis
    by (simp add: main_eq)
qed

theorem crash_only_from_vision_witness:
  "Log (Crashed (RuntimeError ''dlib'')) \<in>
     set (trace_of (main cfg0 fs_demo vis_flaky opens_1 3000000 [env_face])) \<and>
   vision_raises vis_flaky (RuntimeError ''dlib'')"
  using crash_only_from_vision [of cfg0 "RuntimeError ''dlib''" fs_demo vis_flaky opens_1
      3000000 "[env_face]"]
  by (simp add: main_flaky) (simp add: cfg0_def)

section \<open>The two scripts on the same scene\<close>

text \<open>
  C39. The scripts disagree on an empty scene. When neither finds a face and the
  absence timeout has not been reached, \<^verbatim>\<open>presence_guard.py\<close> waits and
  \<^verbatim>\<open>face_detect.py\<close> locks at once.
\<close>

theorem guards_differ_on_empty_scene:
  assumes "sees cfg vis cam e t rgb []" and "fd_sees vis e []"
    and "total_seconds (now e - last_seen_someone st) < ABSENCE_TIMEOUT cfg"
    and "known \<noteq> []" and "outcome (lock_session (procs e)) = Inr b"
  shows "lock_attempts (trace_of (iteration cfg vis known cam e st)) = 0 \<and>
         lock_attempts (trace_of (fd_iteration fd_cfg' vis known cam e fd_st)) = 1"
  using assms(3) lock_attempts_sees [OF assms(1)]
  by (simp add: iteration_sees [OF assms(1)] not_one_face_eq [OF assms(5)]
      fd_iteration_eq [OF assms(2,4,5)] fd_accepts_def)

text \<open>
  After locking on a single unknown face \<^verbatim>\<open>face_detect.py\<close> sleeps for the
  cooldown only; \<^verbatim>\<open>presence_guard.py\<close> sleeps for the cooldown and then for the poll
  interval as well.
\<close>

theorem lock_pass_sleeps:
  assumes "sees cfg vis cam e t rgb [l]"
    and "outcome (identity_check cfg vis known rgb [l] (frame_i st)) = Inr False"
    and "fd_sees vis e [enc]" and "\<not> fd_accepts fd_cfg' known [enc]"
    and "known \<noteq> []" and "outcome (lock_session (procs e)) = Inr b"
  shows "sleeps (trace_of (iteration cfg vis known cam e st)) =
           [LOCK_COOLDOWN cfg, CHECK_INTERVAL cfg] \<and>
         sleeps (trace_of (fd_iteration fd_cfg' vis known cam e fd_st)) = [LOCK_COOLDOWN fd_cfg']"
  using assms(4) sleeps_sees [OF assms(1)] sleeps_identity_check [of cfg vis known rgb "[l]" "frame_i st"]
  by (simp add: iteration_sees [OF assms(1)] one_face_eq [OF assms(2,6)]
      fd_iteration_eq [OF assms(3,5,6)])


section \<open>Scenarios\<close>

text \<open>
  A camera that delivers the same image to a retrieve and to a read: the empty
  image, or the one-pixel image with one face at distance 1 from the enrolled
  encoding. The guard has last seen somebody two seconds before the pass.
\<close>

definition env_both :: "image \<Rightarrow> env" where
  "env_both img = env_face \<lparr>frames := \<lparr>retrieved = Some img, read_back = Some img\<rparr>\<rparr>"

definition st_recent :: guard_state where
  "st_recent = \<lparr>last_seen_someone = 8000000, frame_i = 0\<rparr>"

lemma lock_completes_both [simp]: "outcome (lock_session (procs (env_both img))) = Inr True"
  by (simp add: env_both_def env_face_def lock_session_os_gnome_only)

lemma sees_both_empty:
  "sees cfg0 vis_any 0 (env_both [])
     (grabbed @ [Detect Hog 1, Detect Cnn 1, Log (Detected_faces 0)]) [] []"
  by (simp add: sees_iff env_both_def scenario_defs latest_frame_eq detect_faces_rgb_def
      vis_any_def)

lemma sees_both_face:
  "sees cfg0 vis_any 0 (env_both one_pixel)
     (grabbed @ [Detect Hog 1, Log (Detected_faces 1)]) one_pixel [(0, 1, 1, 0)]"
  by (simp add: sees_iff env_both_def scenario_defs latest_frame_eq detect_faces_rgb_def
      vis_any_def one_pixel_def)

lemma fd_sees_both:
  "fd_sees vis_any (env_both []) []" "fd_sees vis_any (env_both one_pixel) [[0, 0]]"
  by (simp_all add: fd_sees_def env_both_def env_face_def fd_detector_input_def vis_any_def
      vis_demo_def one_pixel_def)

theorem guards_differ_on_empty_scene_witness:
  "lock_attempts (trace_of (iteration cfg0 vis_any [[1, 0]] 0 (env_both []) st_recent)) = 0 \<and>
   lock_attempts (trace_of (fd_iteration fd_cfg vis_any [[1, 0]] 0 (env_both []) fd_fresh)) = 1"
proof -
  have "total_seconds (now (env_both []) - last_seen_someone st_recent) < ABSENCE_TIMEOUT cfg0"
    by (simp add: env_both_def scenario_defs st_recent_def total_seconds_def)
  from guards_differ_on_empty_scene [OF sees_both_empty fd_sees_both(1) this _
      lock_completes_both, of "[[1, 0]]" fd_cfg fd_fresh]
  show ?thesis by simp
qed

theorem lock_pass_sleeps_witness:
  "sleeps (trace_of (iteration cfg0 vis_any [[1, 0]] 0 (env_both one_pixel) st_recent)) =
     [4, 0.35] \<and>
   sleeps (trace_of (fd_iteration fd_cfg vis_any [[1, 0]] 0 (env_both one_pixel) fd_fresh)) = [5]"
proof -
  have far: "outcome (identity_check cfg0 vis_any [[1, 0]] one_pixel [(0, 1, 1, 0)]
      (frame_i st_recent)) = Inr False"
    by (simp add: identity_check_eq cfg0_def st_recent_def vis_any_def vis_demo_def
        np_min_Cons row_norms_def sq_dist_def)
  have rejects: "\<not> fd_accepts fd_cfg [[1, 0]] [[0, 0]]"
    by (simp add: fd_accepts_def fd_cfg_def row_norms_def sq_dist_def)
  from lock_pass_sleeps [OF sees_both_face far fd_sees_both(2) rejects _ lock_completes_both,
      of fd_fresh]
  show ?thesis by (simp add: cfg0_def fd_cfg_def)
qed

section \<open>A pass in front of a capture device\<close>

text \<open>
  The loop is stated over the answers of the camera to one call of
  \<^verbatim>\<open>latest_frame\<close>; \<open>answers c\<close> are the answers of the device \<open>c\<close> (theory
  \<open>Frame_Source\<close>). With at most two frames waiting in the driver's buffer, what the
  detectors of a pass are given is a frame the sensor delivered during the pass:
  the first or the second frame after the buffered ones are used up. The decision
  of the pass is about the scene at the time of the pass.
\<close>

lemma taken_in_take:
  "taken rs = Some f \<Longrightarrow> Some f \<in> set (take 2 rs)"
  "taken rs = None \<Longrightarrow> taken (tl rs) = Some f \<Longrightarrow> Some f \<in> set (take 2 rs)"
  by (cases rs; cases "tl rs"; simp add: take_Suc_conv_app_nth eval_nat_numeral)+

theorem pass_sees_live_frame:
  assumes "frames e = answers c" and "length (queued c) \<le> 2"
    and "sees cfg vis cam e t rgb locs"
  shows "\<exists>f. rgb = detector_input f \<and>
             Some f \<in> set (take 2 (drop (2 - length (queued c)) (incoming c)))"
proof -
  from assms(1,3) obtain f where f: "outcome (latest_frame cam (answers c)) = Inr (Some f)"
    and rgb: "rgb = detector_input f"
    by (auto simp: sees_iff)
  from f pending_live [OF assms(2)]
  have "Some f \<in> set (take 2 (drop (2 - length (queued c)) (incoming c)))"
    by (auto simp: latest_frame_eq answers_eq split: option.splits intro: taken_in_take)
  with rgb show ?thesis by blast
qed

text \<open>One stale frame in the buffer: the pass looks at the second frame of the sensor.\<close>

theorem pass_sees_live_frame_witness:
  "\<exists>f. one_pixel = detector_input f \<and>
       Some f \<in> set (take 2 (drop (2 - length (queued cap_live)) (incoming cap_live)))"
proof -
  have "sees cfg_hog_only vis_demo 0 (env_face \<lparr>frames := answers cap_live\<rparr>)
      (replicate 3 (Cam_grab 0) @ [Cam_retrieve 0, Detect Hog 1, Log (Detected_faces 1)])
      one_pixel [(0, 1, 1, 0)]"
    by (simp add: sees_iff scenario_defs latest_frame_eq answers_eq pending_def cap_live_def
        detect_faces_rgb_def numeral_3_eq_3)
  from pass_sees_live_frame [OF _ _ this, of cap_live] show ?thesis
    by (simp add: cap_live_def)
qed

section \<open>The program and an absent user\<close>

text \<open>
  Bounded response to absence, for the whole program. If \<^verbatim>\<open>main\<close> has started
  and its passes see nobody, with the clock advancing by at least \<open>d\<close> seconds per
  pass from the start on, then every pass from number \<open>ABSENCE_TIMEOUT / d\<close> on
  (counting from 1) runs the lock cascade: a user who is absent when the program
  starts is locked out after at most \<open>\<lceil>ABSENCE_TIMEOUT / d\<rceil>\<close> passes, and the trace
  of \<^verbatim>\<open>main\<close> has a lock attempt.
\<close>

theorem main_locks_absent_user:
  assumes "startup cfg fs vis opens = Started known cam"
    and "list_all (sees_nobody cfg vis cam) es"
    and "list_all (\<lambda>e. \<exists>b. outcome (lock_session (procs e)) = Inr b) es"
    and "paced d t0 es"
    and "n < length es" and "ABSENCE_TIMEOUT cfg \<le> real (Suc n) * d"
  shows "run_locks cfg vis known cam es \<lparr>last_seen_someone = t0, frame_i = 0\<rparr> ! n = 1 \<and>
         0 < lock_attempts (trace_of (main cfg fs vis opens t0 es))"
  using nobody_locked_at [OF assms(2,3) _ assms(5,6),
      of "\<lparr>last_seen_someone = t0, frame_i = 0\<rparr>" known] assms(1,4)
  by (simp add: lock_attempts_main lock_attempts_guard_loop)

text \<open>
  The program starts at second 3 in front of an empty room and makes its passes at
  seconds 10, 14 and 18; the timeout is 6 seconds, so the second pass locks.
\<close>

lemma startup_hog_only: "startup cfg_hog_only fs_demo vis_enroll opens_1 = Started [[0.3, 0]] 1"
  by (simp add: startup_def cfg_hog_only_def cfg0_def load_demo camera_indices_def opens_1_def)

lemma sees_nobody_enroll [simp]:
  "sees_nobody cfg_hog_only vis_enroll 1 (env_empty \<lparr>now := t\<rparr>)"
  by (simp add: sees_nobody_def scenario_defs latest_frame_eq detect_faces_rgb_def one_pixel_def)

theorem main_locks_absent_user_witness:
  "run_locks cfg_hog_only vis_enroll [[0.3, 0]] 1 es_nobody \<lparr>last_seen_someone = 3000000, frame_i = 0\<rparr> ! 1
     = 1 \<and>
   0 < lock_attempts (trace_of (main cfg_hog_only fs_demo vis_enroll opens_1 3000000 es_nobody))"
proof -
  have "list_all (sees_nobody cfg_hog_only vis_enroll 1) es_nobody"
    by (simp add: es_nobody_def)
  moreover have "list_all (\<lambda>e. \<exists>b. outcome (lock_session (procs e)) = Inr b) es_nobody"
    by (auto simp: es_nobody_def scenario_defs lock_session_os_gnome_only)
  moreover have "paced 4 3000000 es_nobody"
    by (simp add: es_nobody_def scenario_defs total_seconds_def)
  ultimately show ?thesis
    using main_locks_absent_user [OF startup_hog_only, of es_nobody 4 3000000 1]
    by (simp add: length_es_nobody scenario_defs)
qed

section \<open>The program in front of a camera that delivers nothing\<close>

text \<open>
  C29. A camera that stops delivering frames keeps the guard from locking. If
  \<^verbatim>\<open>main\<close> has started and from then on the phone check passes and no frame can be
  read, the program polls until it is interrupted: it sleeps for the poll interval
  in every pass, makes no lock attempt from start to exit, however many passes that
  takes, logs that it was stopped by the user, releases the camera and returns 0.
  The absence timeout, which locks the session in front of an empty scene, is never
  applied.
\<close>

theorem main_blind_camera_never_locks:
  assumes "startup cfg fs vis opens = Started known cam"
    and "list_all (read_fails cfg cam) es"
  shows "main cfg fs vis opens t0 es =
           (startup_trace cfg fs vis opens @
            trace_of (guard_loop cfg vis known cam es \<lparr>last_seen_someone = t0, frame_i = 0\<rparr>) @
            [Log Stopped_by_user, Cam_release cam], Inr 0) \<and>
         lock_attempts (trace_of (main cfg fs vis opens t0 es)) = 0 \<and>
         sleeps (trace_of (guard_loop cfg vis known cam es \<lparr>last_seen_someone = t0, frame_i = 0\<rparr>)) =
           replicate (length es) (CHECK_INTERVAL cfg)"
  using assms(1) guard_loop_blind [OF assms(2), of vis known "\<lparr>last_seen_someone = t0, frame_i = 0\<rparr>"]
  by (simp add: main_eq guarded_loop_eq exit_log_def)

text \<open>An hour in front of such a camera: 10000 passes of 0.35 seconds, no lock attempt.\<close>

theorem main_blind_camera_never_locks_witness:
  "outcome (main cfg0 fs_demo vis_enroll opens_1 0 (replicate 10000 env_blind)) = Inr 0 \<and>
   lock_attempts (trace_of (main cfg0 fs_demo vis_enroll opens_1 0 (replicate 10000 env_blind))) = 0 \<and>
   sum_list (sleeps (trace_of (guard_loop cfg0 vis_enroll [[0.3, 0]] 1 (replicate 10000 env_blind)
      \<lparr>last_seen_someone = 0, frame_i = 0\<rparr>))) = 3500"
proof -
  have "list_all (read_fails cfg0 1) (replicate 10000 env_blind)"
    by (simp add: list_all_length read_fails_env_blind)
  note run = main_blind_camera_never_locks [OF startup_demo this, of 0]
  have "outcome (main cfg0 fs_demo vis_enroll opens_1 0 (replicate 10000 env_blind)) = Inr 0"
    unfolding run [THEN conjunct1] by simp
  moreover have "sum_list (sleeps (trace_of (guard_loop cfg0 vis_enroll [[0.3, 0]] 1
      (replicate 10000 env_blind) \<lparr>last_seen_someone = 0, frame_i = 0\<rparr>))) = 3500"
    unfolding run [THEN conjunct2, THEN conjunct2] by (simp add: sum_list_replicate cfg0_def)
  ultimately show ?thesis
    using run [THEN conjunct2, THEN conjunct1] by (intro conjI)
qed

section \<open>The console of a run\<close>

text \<open>
  The run of \<^verbatim>\<open>main()\<close> on the demo directory with the user in front of the camera
  for one pass, from start to interrupt, as it appears on standard output (without
  the timestamps): the messages of the \<open>Log\<close> events of the trace, rendered.
\<close>

theorem console_of_demo_run:
  "map (render str) (logs (trace_of (main cfg0 fs_demo vis_enroll opens_1 3000000 [env_face]))) =
     [''Loaded enrollment face from me.jpg'',
      ''No face found in enroll image: /home/u/.face_enroll/wall.png'',
      ''Opened camera /dev/video1 at 640x480'',
      ''Starting presence_guard'',
      ''Detected 1 face(s)'',
      ''Best face distance: 0.300'',
      ''Authorized face present '' @ em_dash @ '' all good.'',
      ''presence_guard stopped by user'']"
  by (simp add: main_started_witness startup_trace_demo)
    (simp add: format_3f_def round_half_even_def Let_def print_defs)

end
